(* ===== verification/Vpn_Prelude.thy ===== *)
theory Vpn_Prelude
  imports Main "HOL-Library.Word" "HOL-Library.Monad_Syntax"
begin

text \<open>
  What every component of the development shares: the machine integer types of the
  Rust sources, Rust's slice indexing (a panic is the value \<^term>\<open>None\<close>), saturating
  arithmetic, big-endian byte encodings, strings as UTF-8 byte sequences with the
  validity check of \<^verbatim>\<open>core::str\<close>, and the sequencing of fallible steps (the \<^verbatim>\<open>?\<close>
  operator) on \<open>'e + 'a\<close>.
\<close>

named_theorems panic_simps \<open>facts that discharge Rust's bounds checks\<close>
named_theorems result_simps \<open>facts about the error type \<open>'e + 'a\<close>\<close>
named_theorems bytes_simps \<open>facts about byte encodings and strings\<close>

subsection \<open>Machine integers\<close>

type_synonym u8 = "8 word"

type_synonym u16 = "16 word"

type_synonym u32 = "32 word"

type_synonym u64 = "64 word"

definition saturating_add :: "'a::len word \<Rightarrow> 'a word \<Rightarrow> 'a word" where
  "saturating_add x y = (if unat x + unat y < 2 ^ LENGTH('a) then x + y else - 1)"

lemma unat_minus_one_max: "unat (- 1 :: 'a::len word) = 2 ^ LENGTH('a) - 1"
  by (simp add: unsigned_minus_1_eq_mask mask_eq_exp_minus_1)

lemma unat_saturating_add:
  "unat (saturating_add x y) = min (unat x + unat y) (2 ^ LENGTH('a) - 1)"
  for x y :: "'a::len word"
proof (cases "unat x + unat y < 2 ^ LENGTH('a)")
  case True
  then have "unat (x + y) = unat x + unat y"
    by (simp add: unat_word_ariths)
  with True show ?thesis
    by (simp add: saturating_add_def)
next
  case False
  then show ?thesis
    by (simp add: saturating_add_def unat_minus_one_max)
qed

lemma saturating_add_ge: "x \<le> saturating_add x y"
  for x y :: "'a::len word"
proof -
  have "unat x \<le> 2 ^ LENGTH('a) - 1"
    using unsigned_less [of x, where ?'a = nat] by linarith
  then show ?thesis
    by (simp only: word_le_nat_alt unat_saturating_add min.bounded_iff le_add1 simp_thms)
qed

lemma saturating_add_one_pos: "saturating_add x 1 \<noteq> 0"
  for x :: "'a::len word"
proof -
  have "1 < (2::nat) ^ LENGTH('a)"
    using len_gt_0 [where 'a = 'a] one_less_power [of "2::nat" "LENGTH('a)"] by simp
  then have "0 < unat (saturating_add x 1)"
    by (simp add: unat_saturating_add)
  then show ?thesis
    by auto
qed

subsection \<open>Indexing and slicing with Rust's bounds checks\<close>

text \<open>\<^term>\<open>None\<close> is a panic: the index or the range is out of bounds.\<close>

definition idx :: "'a list \<Rightarrow> nat \<Rightarrow> 'a option" where
  "idx xs i = (if i < length xs then Some (xs ! i) else None)"

definition subslice :: "'a list \<Rightarrow> nat \<Rightarrow> nat \<Rightarrow> 'a list option" where
  "subslice xs a b = (if a \<le> b \<and> b \<le> length xs then Some (take (b - a) (drop a xs)) else None)"

lemma idx_Some [panic_simps]: "i < length xs \<Longrightarrow> idx xs i = Some (xs ! i)"
  by (simp add: idx_def)

lemma subslice_Some [panic_simps]:
  "a \<le> b \<Longrightarrow> b \<le> length xs \<Longrightarrow> subslice xs a b = Some (take (b - a) (drop a xs))"
  by (simp add: subslice_def)

subsection \<open>Fallible steps\<close>

text \<open>\<^term>\<open>Inl\<close> is Rust's \<open>Err\<close>, \<^term>\<open>Inr\<close> is \<open>Ok\<close>.\<close>

definition bind_r :: "'e + 'a \<Rightarrow> ('a \<Rightarrow> 'e + 'b) \<Rightarrow> 'e + 'b" where
  "bind_r m f = (case m of Inl e \<Rightarrow> Inl e | Inr x \<Rightarrow> f x)"

definition ok_or :: "'e \<Rightarrow> 'a option \<Rightarrow> 'e + 'a" where
  "ok_or e m = (case m of None \<Rightarrow> Inl e | Some x \<Rightarrow> Inr x)"

definition map_err :: "('e \<Rightarrow> 'f) \<Rightarrow> 'e + 'a \<Rightarrow> 'f + 'a" where
  "map_err h m = (case m of Inl e \<Rightarrow> Inl (h e) | Inr x \<Rightarrow> Inr x)"

lemma bind_r_simps [simp, result_simps]:
  "bind_r (Inl e) f = Inl e"
  "bind_r (Inr x) f = f x"
  by (simp_all add: bind_r_def)

lemma ok_or_simps [simp, result_simps]:
  "ok_or e None = Inl e"
  "ok_or e (Some x) = Inr x"
  by (simp_all add: ok_or_def)

lemma map_err_simps [simp, result_simps]:
  "map_err h (Inl e) = Inl (h e)"
  "map_err h (Inr x) = Inr x"
  by (simp_all add: map_err_def)

lemma bind_r_eq_Inr [result_simps]:
  "bind_r m f = Inr y \<longleftrightarrow> (\<exists>x. m = Inr x \<and> f x = Inr y)"
  by (cases m) auto

lemma ok_or_eq_Inr [result_simps]: "ok_or e m = Inr x \<longleftrightarrow> m = Some x"
  by (cases m) auto

lemma map_err_eq_Inr [result_simps]: "map_err h m = Inr x \<longleftrightarrow> m = Inr x"
  by (cases m) auto

subsection \<open>Big-endian byte encodings\<close>

definition u16_to_be_bytes :: "u16 \<Rightarrow> u8 list" where
  "u16_to_be_bytes n = [ucast (drop_bit 8 n), ucast n]"

definition u16_from_be_bytes :: "u8 \<Rightarrow> u8 \<Rightarrow> u16" where
  "u16_from_be_bytes hi lo = push_bit 8 (ucast hi) + ucast lo"

definition u64_to_be_bytes :: "u64 \<Rightarrow> u8 list" where
  "u64_to_be_bytes n = map (\<lambda>i. ucast (drop_bit (8 * (7 - i)) n)) [0..<8]"

lemma length_u16_to_be_bytes [simp, bytes_simps]: "length (u16_to_be_bytes n) = 2"
  by (simp add: u16_to_be_bytes_def)

lemma length_u64_to_be_bytes [simp, bytes_simps]: "length (u64_to_be_bytes n) = 8"
  by (simp add: u64_to_be_bytes_def)

lemma uint_u16_from_be_bytes: "uint (u16_from_be_bytes hi lo) = 256 * uint hi + uint lo"
proof -
  have hi: "uint hi < 256" and lo: "uint lo < 256"
    using uint_lt2p [of hi] uint_lt2p [of lo] by simp_all
  have "uint (push_bit 8 (ucast hi :: u16)) = 256 * uint hi"
    using hi by (simp add: push_bit_eq_mult uint_word_ariths unsigned_ucast_eq take_bit_eq_mod)
  moreover have "uint (ucast lo :: u16) = uint lo"
    using lo by (simp add: unsigned_ucast_eq take_bit_eq_mod)
  ultimately show ?thesis
    using hi lo by (simp add: u16_from_be_bytes_def uint_word_ariths)
qed

lemma uint_drop_bit_u16: "uint (drop_bit 8 n) = uint n div 256" for n :: u16
proof -
  have "uint (drop_bit 8 n) = drop_bit 8 (take_bit 16 (uint n))"
    by (simp only: unsigned_drop_bit_eq) simp
  also have "\<dots> = uint n div 256"
    using uint_lt2p [of n] by (simp add: drop_bit_eq_div take_bit_eq_mod)
  finally show ?thesis .
qed

lemma u16_be_roundtrip [bytes_simps]:
  "u16_from_be_bytes (ucast (drop_bit 8 n)) (ucast n) = n"
proof -
  have n: "uint n < 65536"
    using uint_lt2p [of n] by simp
  have "uint (ucast (drop_bit 8 n) :: u8) = uint n div 256"
  proof -
    have "0 \<le> uint n div 256" "uint n div 256 < 256"
      using n uint_ge_0 [of n] by linarith+
    then show ?thesis
      by (simp only: unsigned_ucast_eq take_bit_eq_mod uint_drop_bit_u16) simp
  qed
  moreover have "uint (ucast n :: u8) = uint n mod 256"
    by (simp add: unsigned_ucast_eq take_bit_eq_mod)
  ultimately have "uint (u16_from_be_bytes (ucast (drop_bit 8 n)) (ucast n)) = uint n"
    by (simp only: uint_u16_from_be_bytes) simp
  then show ?thesis
    by (rule unsigned_word_eqI)
qed

lemma u16_be_roundtrip_bytes [bytes_simps]:
  "u16_to_be_bytes (u16_from_be_bytes hi lo) = [hi, lo]"
proof -
  have bounds: "0 \<le> uint hi" "uint hi < 256" "0 \<le> uint lo" "uint lo < 256"
    using uint_lt2p [of hi] uint_lt2p [of lo] by simp_all
  have "uint (ucast (drop_bit 8 (u16_from_be_bytes hi lo)) :: u8) = uint hi"
    using bounds
    by (simp only: unsigned_ucast_eq take_bit_eq_mod uint_drop_bit_u16 uint_u16_from_be_bytes)
      simp
  moreover have "uint (ucast (u16_from_be_bytes hi lo) :: u8) = uint lo"
    using bounds
    by (simp only: unsigned_ucast_eq take_bit_eq_mod uint_u16_from_be_bytes) simp
  ultimately show ?thesis
    by (auto simp: u16_to_be_bytes_def intro: unsigned_word_eqI)
qed

lemma bit_byte_of_u64:
  "bit (ucast (drop_bit m n) :: u8) j \<longleftrightarrow> j < 8 \<and> bit n (m + j)" for n :: u64
  by (auto simp: bit_simps)

lemma u64_to_be_bytes_inject [simp, bytes_simps]:
  "u64_to_be_bytes m = u64_to_be_bytes n \<longleftrightarrow> m = n"
proof
  assume eq: "u64_to_be_bytes m = u64_to_be_bytes n"
  have byte: "(ucast (drop_bit (8 * (7 - i)) m) :: u8) = ucast (drop_bit (8 * (7 - i)) n)"
    if "i < 8" for i
    using eq that by (auto simp: u64_to_be_bytes_def map_eq_conv)
  show "m = n"
  proof (rule bit_word_eqI)
    fix k
    assume "k < LENGTH(64)"
    then have k: "7 - k div 8 < 8" "k mod 8 < 8" "8 * (7 - (7 - k div 8)) + k mod 8 = k"
      by (simp_all add: less_mult_imp_div_less)
    have "bit (ucast (drop_bit (8 * (7 - (7 - k div 8))) m) :: u8) (k mod 8)
        \<longleftrightarrow> bit (ucast (drop_bit (8 * (7 - (7 - k div 8))) n) :: u8) (k mod 8)"
      using byte [OF k(1)] by simp
    then show "bit m k \<longleftrightarrow> bit n k"
      unfolding bit_byte_of_u64 using k by simp
  qed
qed simp

lemma u64_bytes_surj:
  assumes "length bs = 8"
  obtains t where "u64_to_be_bytes t = bs"
proof -
  have sub: "range u64_to_be_bytes \<subseteq> {bs :: u8 list. set bs \<subseteq> UNIV \<and> length bs = 8}"
    by auto
  have fin: "finite {bs :: u8 list. set bs \<subseteq> UNIV \<and> length bs = 8}"
    by (rule finite_lists_length_eq) simp
  have "card (range u64_to_be_bytes) = CARD(u64)"
    by (rule card_image) (simp add: inj_on_def)
  also have "\<dots> = card {bs :: u8 list. set bs \<subseteq> UNIV \<and> length bs = 8}"
    by (subst card_lists_length_eq) (simp_all add: card_word)
  finally have "range u64_to_be_bytes = {bs :: u8 list. set bs \<subseteq> UNIV \<and> length bs = 8}"
    by (rule card_subset_eq [OF fin sub])
  then have "bs \<in> range u64_to_be_bytes"
    using assms by simp
  then show ?thesis
    using that by (metis imageE)
qed

subsection \<open>Strings: UTF-8 byte sequences\<close>

text \<open>
  A Rust \<^verbatim>\<open>String\<close> is its UTF-8 byte sequence; here it is an Isabelle \<^typ>\<open>string\<close> whose
  characters are those bytes, so \<^verbatim>\<open>len()\<close> is \<^term>\<open>length\<close>. \<open>utf8_ok\<close> is the byte
  grammar that \<^verbatim>\<open>str::from_utf8\<close> accepts (Unicode table 3-7: no overlong forms, no
  surrogates, nothing above U+10FFFF).
\<close>

definition as_bytes :: "string \<Rightarrow> u8 list" where
  "as_bytes s = map of_char s"

definition string_of_bytes :: "u8 list \<Rightarrow> string" where
  "string_of_bytes bs = map (\<lambda>b. char_of (unat b)) bs"

definition is_cont :: "u8 \<Rightarrow> bool" where
  "is_cont b \<longleftrightarrow> 0x80 \<le> b \<and> b \<le> 0xBF"

definition second_of_three :: "u8 \<Rightarrow> u8 \<Rightarrow> bool" where
  "second_of_three a b \<longleftrightarrow>
     (if a = 0xE0 then 0xA0 \<le> b \<and> b \<le> 0xBF
      else if a = 0xED then 0x80 \<le> b \<and> b \<le> 0x9F
      else is_cont b)"

definition second_of_four :: "u8 \<Rightarrow> u8 \<Rightarrow> bool" where
  "second_of_four a b \<longleftrightarrow>
     (if a = 0xF0 then 0x90 \<le> b \<and> b \<le> 0xBF
      else if a = 0xF4 then 0x80 \<le> b \<and> b \<le> 0x8F
      else is_cont b)"

fun utf8_ok :: "u8 list \<Rightarrow> bool" where
  "utf8_ok [] = True"
| "utf8_ok (a # bs) =
     (if a \<le> 0x7F then utf8_ok bs
      else if 0xC2 \<le> a \<and> a \<le> 0xDF then
        (case bs of b # r \<Rightarrow> is_cont b \<and> utf8_ok r | _ \<Rightarrow> False)
      else if 0xE0 \<le> a \<and> a \<le> 0xEF then
        (case bs of b # c # r \<Rightarrow> second_of_three a b \<and> is_cont c \<and> utf8_ok r | _ \<Rightarrow> False)
      else if 0xF0 \<le> a \<and> a \<le> 0xF4 then
        (case bs of b # c # d # r \<Rightarrow>
           second_of_four a b \<and> is_cont c \<and> is_cont d \<and> utf8_ok r | _ \<Rightarrow> False)
      else False)"

definition from_utf8 :: "u8 list \<Rightarrow> string option" where
  "from_utf8 bs = (if utf8_ok bs then Some (string_of_bytes bs) else None)"

text \<open>The strings the program can hold: those whose bytes are valid UTF-8.\<close>

definition rust_str :: "string \<Rightarrow> bool" where
  "rust_str s \<longleftrightarrow> utf8_ok (as_bytes s)"

lemma length_as_bytes [simp, bytes_simps]: "length (as_bytes s) = length s"
  by (simp add: as_bytes_def)

lemma as_bytes_Nil [simp, bytes_simps]: "as_bytes [] = []"
  by (simp add: as_bytes_def)

lemma as_bytes_append [simp, bytes_simps]: "as_bytes (s @ t) = as_bytes s @ as_bytes t"
  by (simp add: as_bytes_def)

lemma unat_of_char: "unat (of_char c :: u8) = of_char c"
proof -
  have "(of_char c :: u8) = word_of_nat (of_char c)"
    by (simp only: of_nat_of_char)
  then show ?thesis
    by (simp only: unsigned_of_nat take_bit_eq_mod) simp
qed

lemma string_of_as_bytes [simp, bytes_simps]: "string_of_bytes (as_bytes s) = s"
  by (induction s) (simp_all add: string_of_bytes_def as_bytes_def unat_of_char)

lemma as_bytes_string_of_bytes [simp, bytes_simps]: "as_bytes (string_of_bytes bs) = bs"
proof -
  have "of_char (char_of (unat b) :: char) = b" for b :: u8
    using unsigned_less [of b, where ?'a = nat]
    by (intro word_unat_eq_iff [THEN iffD2]) (simp add: unat_of_char)
  then show ?thesis
    by (induction bs) (simp_all add: string_of_bytes_def as_bytes_def)
qed

lemma length_string_of_bytes [simp, bytes_simps]: "length (string_of_bytes bs) = length bs"
  by (simp add: string_of_bytes_def)

lemma from_utf8_eq_Some [bytes_simps]: "from_utf8 bs = Some s \<longleftrightarrow> rust_str s \<and> bs = as_bytes s"
  by (auto simp: from_utf8_def rust_str_def)

lemma from_utf8_as_bytes [simp, bytes_simps]:
  "from_utf8 (as_bytes s) = (if rust_str s then Some s else None)"
  by (simp add: from_utf8_def rust_str_def)

subsection \<open>Decimal rendering\<close>

fun show_nat :: "nat \<Rightarrow> string" where
  "show_nat n =
     (if n < 10 then [char_of (48 + n)] else show_nat (n div 10) @ [char_of (48 + n mod 10)])"

declare show_nat.simps [simp del]

text \<open>Hexadecimal digits: \<^verbatim>\<open>{:x}\<close> of a number and \<^verbatim>\<open>{:02x}\<close>, \<^verbatim>\<open>{:02X}\<close> of a byte.\<close>

definition hex_nibble :: "nat \<Rightarrow> char" where
  "hex_nibble n = (if n < 10 then char_of (48 + n) else char_of (87 + n))"

definition hex_nibble_upper :: "nat \<Rightarrow> char" where
  "hex_nibble_upper n = (if n < 10 then char_of (48 + n) else char_of (55 + n))"

fun show_hex :: "nat \<Rightarrow> string" where
  "show_hex n = (if n < 16 then [hex_nibble n] else show_hex (n div 16) @ [hex_nibble (n mod 16)])"

declare show_hex.simps [simp del]

definition fmt_02x :: "u8 \<Rightarrow> string" where
  "fmt_02x b = [hex_nibble (unat b div 16), hex_nibble (unat b mod 16)]"

definition fmt_02X :: "u8 \<Rightarrow> string" where
  "fmt_02X b = [hex_nibble_upper (unat b div 16), hex_nibble_upper (unat b mod 16)]"

fun join_with :: "string \<Rightarrow> string list \<Rightarrow> string" where
  "join_with sep [] = []"
| "join_with sep [x] = x"
| "join_with sep (x # y # xs) = x @ sep @ join_with sep (y # xs)"

subsection \<open>Input and output errors\<close>

text \<open>The error kinds of \<^verbatim>\<open>std::io::ErrorKind\<close> the sources distinguish; \<open>OtherKind\<close> is any
  other kind.\<close>

datatype ErrorKind =
    NotFound | PermissionDenied | ConnectionRefused | ConnectionReset | ConnectionAborted
  | HostUnreachable | NetworkUnreachable | NetworkDown | AddrNotAvailable
  | WouldBlock | Interrupted | TimedOut | InvalidInput | InvalidData | UnexpectedEof
  | AlreadyExists | OtherKind

record io_error =
  io_kind :: ErrorKind
  io_detail :: string
  io_raw_os_error :: "int option"

definition io_error_new :: "ErrorKind \<Rightarrow> string \<Rightarrow> io_error" where
  "io_error_new k msg = \<lparr>io_kind = k, io_detail = msg, io_raw_os_error = None\<rparr>"

text \<open>
  A byte source is a parameter \<open>rd\<close> of the definitions that read from one: \<open>rd n s\<close> is
  an exact read of \<open>n\<close> bytes. \<open>exact_reader\<close> says what such a read does: it hands out
  the next \<open>n\<close> bytes of what the peer still sends, or fails with the way the stream
  ends when fewer remain.
\<close>

definition exact_reader ::
    "(nat \<Rightarrow> 's \<Rightarrow> io_error + (u8 list \<times> 's)) \<Rightarrow> ('s \<Rightarrow> u8 list) \<Rightarrow> ('s \<Rightarrow> io_error) \<Rightarrow> bool"
  where
  "exact_reader rd content ended \<longleftrightarrow>
     (\<forall>n s. if n \<le> length (content s)
            then \<exists>s'. rd n s = Inr (take n (content s), s') \<and>
                      content s' = drop n (content s) \<and> ended s' = ended s
            else rd n s = Inl (ended s))"

lemma exact_reader_okE:
  assumes "exact_reader rd content ended" and "n \<le> length (content s)"
  obtains s' where "rd n s = Inr (take n (content s), s')"
    and "content s' = drop n (content s)" and "ended s' = ended s"
proof -
  from assms(1) have
    "if n \<le> length (content s)
     then \<exists>s'. rd n s = Inr (take n (content s), s') \<and>
               content s' = drop n (content s) \<and> ended s' = ended s
     else rd n s = Inl (ended s)"
    unfolding exact_reader_def by blast
  with assms(2) show ?thesis
    using that by auto
qed

lemma exact_reader_short:
  "exact_reader rd content ended \<Longrightarrow> length (content s) < n \<Longrightarrow> rd n s = Inl (ended s)"
  unfolding exact_reader_def by (metis not_le)

text \<open>A concrete byte source: the bytes still to come and the error that ends the stream.\<close>

definition buffered_read :: "nat \<Rightarrow> u8 list \<times> io_error \<Rightarrow> io_error + (u8 list \<times> u8 list \<times> io_error)"
  where
  "buffered_read n s =
     (if n \<le> length (fst s) then Inr (take n (fst s), drop n (fst s), snd s) else Inl (snd s))"

lemma exact_reader_buffered: "exact_reader buffered_read fst snd"
  by (auto simp: exact_reader_def buffered_read_def)

subsection \<open>Trimming\<close>

text \<open>
  \<^verbatim>\<open>str::trim\<close> removes leading and trailing characters with the Unicode property
  \<^verbatim>\<open>White_Space\<close>; these are their UTF-8 encodings.
\<close>

definition bytes_of_nats :: "nat list \<Rightarrow> string" where
  "bytes_of_nats ns = map char_of ns"

definition white_space :: "string list" where
  "white_space = map bytes_of_nats
     ([[9], [10], [11], [12], [13], [32], [194, 133], [194, 160], [225, 154, 128]]
      @ map (\<lambda>n. [226, 128, n]) [128..<139]
      @ [[226, 128, 168], [226, 128, 169], [226, 128, 175], [226, 129, 159], [227, 128, 128]])"

text \<open>Evaluated once, so that trimming computes.\<close>

lemma white_space_code [code]:
  "white_space =
     [[CHR 0x09], [CHR 0x0A], [CHR 0x0B], [CHR 0x0C], [CHR 0x0D], [CHR 0x20], [CHR 0xC2, CHR 0x85],
      [CHR 0xC2, CHR 0xA0], [CHR 0xE1, CHR 0x9A, CHR 0x80], [CHR 0xE2, CHR 0x80, CHR 0x80],
      [CHR 0xE2, CHR 0x80, CHR 0x81], [CHR 0xE2, CHR 0x80, CHR 0x82], [CHR 0xE2, CHR 0x80, CHR 0x83],
      [CHR 0xE2, CHR 0x80, CHR 0x84], [CHR 0xE2, CHR 0x80, CHR 0x85], [CHR 0xE2, CHR 0x80, CHR 0x86],
      [CHR 0xE2, CHR 0x80, CHR 0x87], [CHR 0xE2, CHR 0x80, CHR 0x88], [CHR 0xE2, CHR 0x80, CHR 0x89],
      [CHR 0xE2, CHR 0x80, CHR 0x8A], [CHR 0xE2, CHR 0x80, CHR 0xA8], [CHR 0xE2, CHR 0x80, CHR 0xA9],
      [CHR 0xE2, CHR 0x80, CHR 0xAF], [CHR 0xE2, CHR 0x81, CHR 0x9F], [CHR 0xE3, CHR 0x80, CHR 0x80]]"
  by code_simp

fun strip_prefix :: "string \<Rightarrow> string \<Rightarrow> string option" where
  "strip_prefix [] s = Some s"
| "strip_prefix (c # cs) [] = None"
| "strip_prefix (c # cs) (d # ds) = (if c = d then strip_prefix cs ds else None)"

fun strip_any :: "string list \<Rightarrow> string \<Rightarrow> string option" where
  "strip_any [] s = None"
| "strip_any (w # ws) s =
     (case strip_prefix w s of
        Some r \<Rightarrow> if length r < length s then Some r else strip_any ws s
      | None \<Rightarrow> strip_any ws s)"

lemma strip_any_shorter: "strip_any ws s = Some r \<Longrightarrow> length r < length s"
  by (induction ws) (auto split: option.splits if_splits)

function strip_while :: "string list \<Rightarrow> string \<Rightarrow> string" where
  "strip_while ws s = (case strip_any ws s of None \<Rightarrow> s | Some r \<Rightarrow> strip_while ws r)"
  by pat_completeness auto
termination
  by (relation "measure (\<lambda>(ws, s). length s)") (auto dest: strip_any_shorter)

declare strip_while.simps [simp del]

definition trim_start :: "string \<Rightarrow> string" where
  "trim_start s = strip_while white_space s"

definition trim_end :: "string \<Rightarrow> string" where
  "trim_end s = rev (strip_while (map rev white_space) (rev s))"

definition trim :: "string \<Rightarrow> string" where
  "trim s = trim_end (trim_start s)"

lemma strip_any_Nil [simp]: "strip_any ws [] = None"
  by (induction ws) (auto split: option.split)

lemma strip_prefix_hd: "strip_prefix (c # cs) s = Some r \<Longrightarrow> s \<noteq> [] \<and> hd s = c"
  by (cases s) (auto split: if_splits)

lemma strip_any_None:
  "(\<And>w. w \<in> set ws \<Longrightarrow> w \<noteq> [] \<and> (s \<noteq> [] \<longrightarrow> hd w \<noteq> hd s)) \<Longrightarrow> strip_any ws s = None"
proof (induction ws)
  case (Cons w ws)
  have "strip_prefix w s = None"
  proof (cases "strip_prefix w s")
    case (Some r)
    moreover obtain c cs where "w = c # cs"
      using Cons.prems [of w] by (cases w) auto
    ultimately show ?thesis
      using strip_prefix_hd [of c cs s r] Cons.prems [of w] by auto
  qed simp
  then show ?case
    using Cons by simp
qed simp

text \<open>A string whose first and last characters start no white space is left alone.\<close>

definition plain_char :: "char \<Rightarrow> bool" where
  "plain_char c \<longleftrightarrow> 32 < (of_char c :: nat) \<and> (of_char c :: nat) < 128"

lemma white_space_ends:
  "w \<in> set white_space \<Longrightarrow> w \<noteq> [] \<and> \<not> plain_char (hd w) \<and> \<not> plain_char (last w)"
proof -
  have "list_all (\<lambda>w. w \<noteq> [] \<and> \<not> plain_char (hd w) \<and> \<not> plain_char (last w)) white_space"
    by code_simp
  then show "w \<in> set white_space \<Longrightarrow> w \<noteq> [] \<and> \<not> plain_char (hd w) \<and> \<not> plain_char (last w)"
    unfolding list_all_iff by blast
qed

lemma trim_plain:
  assumes "list_all plain_char s"
  shows "trim s = s"
proof (cases s rule: rev_cases)
  case Nil
  then show ?thesis
    by (simp add: trim_def trim_start_def trim_end_def strip_while.simps)
next
  case (snoc t c)
  have "strip_any white_space s = None"
  proof (rule strip_any_None)
    fix w
    assume "w \<in> set white_space"
    moreover have "plain_char (hd s)"
      using assms snoc by (cases t) auto
    ultimately show "w \<noteq> [] \<and> (s \<noteq> [] \<longrightarrow> hd w \<noteq> hd s)"
      using white_space_ends by metis
  qed
  moreover have "strip_any (map rev white_space) (rev s) = None"
  proof (rule strip_any_None)
    fix w
    assume "w \<in> set (map rev white_space)"
    then obtain v where v: "w = rev v" "v \<in> set white_space"
      by auto
    moreover have "plain_char (hd (rev s))"
      using assms snoc by simp
    ultimately show "w \<noteq> [] \<and> (rev s \<noteq> [] \<longrightarrow> hd w \<noteq> hd (rev s))"
      using white_space_ends [OF v(2)] by (auto simp: hd_rev)
  qed
  ultimately show ?thesis
    by (simp add: trim_def trim_start_def trim_end_def strip_while.simps)
qed

lemma rust_str_ascii: "list_all (\<lambda>c. (of_char c :: nat) < 128) s \<Longrightarrow> rust_str s"
proof (induction s)
  case (Cons c s)
  have "(of_char c :: u8) \<le> 0x7F"
    using Cons.prems by (simp add: word_le_nat_alt unat_of_char)
  then show ?case
    using Cons by (simp add: rust_str_def as_bytes_def)
qed (simp add: rust_str_def)

lemma rust_str_plain: "list_all plain_char s \<Longrightarrow> rust_str s"
  by (rule rust_str_ascii) (auto simp: list_all_iff plain_char_def)

end
