(* ===== verification/Common_Framing.thy ===== *)
theory Common_Framing
  imports Vpn_Prelude
begin

text \<open>
  The destination header of \<^verbatim>\<open>crates/common/src/framing.rs\<close>: the encoder, the decoder on
  an in-memory buffer (an index or slice out of bounds would be a panic, the outer
  \<^term>\<open>None\<close>), and the reader and writer on a byte stream. The lemmas give the round
  trip, the absence of panics, the behaviour on every truncation of a header, and that
  the stream reader refines the buffer decoder.
\<close>

subsection \<open>Data\<close>

definition VERSION :: u8 where
  "VERSION = 1"

definition MAX_HOST_LEN :: nat where
  "MAX_HOST_LEN = 255"

datatype FramingError = UnsupportedVersion u8 | HostTooLong nat | InvalidUtf8

fun FramingError_display :: "FramingError \<Rightarrow> string" where
  "FramingError_display (UnsupportedVersion v) =
     ''unsupported framing version '' @ show_nat (unat v)"
| "FramingError_display (HostTooLong n) =
     ''host length '' @ show_nat n @ '' exceeds max '' @ show_nat MAX_HOST_LEN"
| "FramingError_display InvalidUtf8 = ''host is not valid utf-8''"

subsection \<open>Operations\<close>

definition encode_destination :: "string \<Rightarrow> u16 \<Rightarrow> FramingError + u8 list" where
  "encode_destination host port =
     (let host_bytes = as_bytes host in
      if length host_bytes > MAX_HOST_LEN then Inl (HostTooLong (length host_bytes))
      else Inr ([VERSION] @ u16_to_be_bytes (word_of_nat (length host_bytes))
                @ host_bytes @ u16_to_be_bytes port))"

definition decode_destination ::
    "u8 list \<Rightarrow> (FramingError + (string \<times> u16 \<times> nat) option) option" where
  "decode_destination buf =
     (if buf = [] then Some (Inr None)
      else do {
        version \<leftarrow> idx buf 0;
        if version \<noteq> VERSION then Some (Inl (UnsupportedVersion version))
        else if length buf < 3 then Some (Inr None)
        else do {
          b1 \<leftarrow> idx buf 1;
          b2 \<leftarrow> idx buf 2;
          let host_len = unat (u16_from_be_bytes b1 b2);
          if host_len > MAX_HOST_LEN then Some (Inl (HostTooLong host_len))
          else do {
            let needed = 3 + host_len + 2;
            if length buf < needed then Some (Inr None)
            else do {
              host_bytes \<leftarrow> subslice buf 3 (3 + host_len);
              case from_utf8 host_bytes of
                None \<Rightarrow> Some (Inl InvalidUtf8)
              | Some host \<Rightarrow> do {
                  p1 \<leftarrow> idx buf (3 + host_len);
                  p2 \<leftarrow> idx buf (3 + host_len + 1);
                  Some (Inr (Some (host, u16_from_be_bytes p1 p2, needed)))
                }
            }
          }
        }
      })"

text \<open>
  The stream versions: \<open>wr\<close> writes a whole buffer, \<open>rd\<close> reads an exact number of
  bytes; both are the runtime's.
\<close>

definition write_destination ::
    "(u8 list \<Rightarrow> 's \<Rightarrow> io_error + 's) \<Rightarrow> 's \<Rightarrow> string \<Rightarrow> u16 \<Rightarrow> io_error + 's" where
  "write_destination wr w host port =
     bind_r (map_err (\<lambda>e. io_error_new InvalidInput (FramingError_display e))
              (encode_destination host port))
       (\<lambda>buf. wr buf w)"

definition read_u8 ::
    "(nat \<Rightarrow> 's \<Rightarrow> io_error + (u8 list \<times> 's)) \<Rightarrow> 's \<Rightarrow> io_error + (u8 \<times> 's)" where
  "read_u8 rd s = bind_r (rd 1 s) (\<lambda>(bs, s'). Inr (bs ! 0, s'))"

definition read_u16 ::
    "(nat \<Rightarrow> 's \<Rightarrow> io_error + (u8 list \<times> 's)) \<Rightarrow> 's \<Rightarrow> io_error + (u16 \<times> 's)" where
  "read_u16 rd s = bind_r (rd 2 s) (\<lambda>(bs, s'). Inr (u16_from_be_bytes (bs ! 0) (bs ! 1), s'))"

definition read_destination ::
    "(nat \<Rightarrow> 's \<Rightarrow> io_error + (u8 list \<times> 's)) \<Rightarrow> 's \<Rightarrow> io_error + ((string \<times> u16) \<times> 's)" where
  "read_destination rd r =
     bind_r (read_u8 rd r) (\<lambda>(version, r).
       if version \<noteq> VERSION
       then Inl (io_error_new InvalidData (FramingError_display (UnsupportedVersion version)))
       else bind_r (read_u16 rd r) (\<lambda>(len, r).
         let host_len = unat len in
         if host_len > MAX_HOST_LEN
         then Inl (io_error_new InvalidData (FramingError_display (HostTooLong host_len)))
         else bind_r (rd host_len r) (\<lambda>(host_buf, r).
           bind_r (ok_or (io_error_new InvalidData (FramingError_display InvalidUtf8))
                     (from_utf8 host_buf)) (\<lambda>host.
             bind_r (read_u16 rd r) (\<lambda>(port, r). Inr ((host, port), r))))))"

subsection \<open>The decoder in one piece\<close>

text \<open>Every bounds check of the decoder succeeds; what is left is this case analysis.\<close>

lemma decode_destination_unfold:
  "decode_destination buf =
     Some (if buf = [] then Inr None
       else if buf ! 0 \<noteq> VERSION then Inl (UnsupportedVersion (buf ! 0))
       else if length buf < 3 then Inr None
       else let n = unat (u16_from_be_bytes (buf ! 1) (buf ! 2)) in
         if n > MAX_HOST_LEN then Inl (HostTooLong n)
         else if length buf < 3 + n + 2 then Inr None
         else case from_utf8 (take n (drop 3 buf)) of
             None \<Rightarrow> Inl InvalidUtf8
           | Some host \<Rightarrow>
               Inr (Some (host, u16_from_be_bytes (buf ! (3 + n)) (buf ! (4 + n)), 3 + n + 2)))"
  by (auto simp: decode_destination_def panic_simps Let_def split: option.splits)

lemma unat_host_len: "n \<le> MAX_HOST_LEN \<Longrightarrow> unat (word_of_nat n :: u16) = n"
  by (simp add: MAX_HOST_LEN_def unsigned_of_nat take_bit_eq_mod)

lemma encode_destination_ok_iff:
  "encode_destination host port = Inr buf \<longleftrightarrow>
   length host \<le> MAX_HOST_LEN \<and>
   buf = VERSION # u16_to_be_bytes (word_of_nat (length host)) @ as_bytes host @ u16_to_be_bytes port"
  by (auto simp: encode_destination_def Let_def)

lemma length_encode_destination:
  "encode_destination host port = Inr buf \<Longrightarrow> length buf = 5 + length host"
  by (auto simp: encode_destination_ok_iff)

lemma decode_encoded:
  assumes "rust_str host" and "encode_destination host port = Inr enc"
  shows "decode_destination (enc @ rest) = Some (Inr (Some (host, port, length enc)))"
  using assms
  by (auto simp: encode_destination_ok_iff decode_destination_unfold u16_be_roundtrip
        unat_host_len nth_append u16_to_be_bytes_def)

lemma split_buf:
  assumes "5 + n \<le> length buf"
  shows "take (5 + n) buf =
    buf ! 0 # [buf ! 1, buf ! 2] @ take n (drop 3 buf) @ [buf ! (3 + n), buf ! (4 + n)]"
proof (rule nth_equalityI)
  show "length (take (5 + n) buf) = length (buf ! 0 # [buf ! 1, buf ! 2] @ take n (drop 3 buf) @
      [buf ! (3 + n), buf ! (4 + n)])"
    using assms by simp
next
  fix i
  assume "i < length (take (5 + n) buf)"
  then have i: "i < 5 + n"
    by simp
  then consider "i = 0" | "i = 1" | "i = 2" | "3 \<le> i" "i < 3 + n" | "i = 3 + n" | "i = 4 + n"
    by linarith
  then consider "i = 0" | "i = 1" | "i = 2" | j where "i = 3 + j" "j < n" | "i = 3 + n" | "i = 4 + n"
    by cases (auto simp: le_iff_add)
  then show "take (5 + n) buf ! i = (buf ! 0 # [buf ! 1, buf ! 2] @ take n (drop 3 buf) @
      [buf ! (3 + n), buf ! (4 + n)]) ! i"
    using assms by cases (auto simp: nth_append nth_Cons' numeral_eq_Suc)
qed

lemma decoded_is_encoding:
  assumes "decode_destination buf = Some (Inr (Some (host, port, used)))"
  shows "rust_str host" "used \<le> length buf" "encode_destination host port = Inr (take used buf)"
proof -
  let ?n = "unat (u16_from_be_bytes (buf ! 1) (buf ! 2))"
  from assms have v: "buf ! 0 = VERSION" and n: "?n \<le> MAX_HOST_LEN" and len: "5 + ?n \<le> length buf"
    and host: "from_utf8 (take ?n (drop 3 buf)) = Some host"
    and port: "port = u16_from_be_bytes (buf ! (3 + ?n)) (buf ! (4 + ?n))"
    and used: "used = 5 + ?n"
    by (auto simp: decode_destination_unfold Let_def split: if_splits option.splits)
  from host have h: "rust_str host" "take ?n (drop 3 buf) = as_bytes host"
    by (simp_all add: from_utf8_eq_Some)
  have "length (take ?n (drop 3 buf)) = ?n"
    using len by simp
  then have hlen: "length host = ?n"
    by (simp only: h(2) length_as_bytes)
  show "rust_str host" "used \<le> length buf"
    using h len used by simp_all
  show "encode_destination host port = Inr (take used buf)"
    unfolding used split_buf [OF len] encode_destination_ok_iff h(2) v port hlen
    using n by (simp add: u16_be_roundtrip_bytes)
qed

subsection \<open>Truncated headers\<close>

lemma decode_truncated:
  assumes "encode_destination host port = Inr enc" and "k < length enc"
  shows "decode_destination (take k enc) = Some (Inr None)"
proof -
  let ?len = "word_of_nat (length host) :: u16"
  from assms(1) have n: "length host \<le> MAX_HOST_LEN"
    and enc: "enc = VERSION # ucast (drop_bit 8 ?len) # ucast ?len # as_bytes host @ u16_to_be_bytes port"
    by (auto simp: encode_destination_ok_iff u16_to_be_bytes_def)
  from enc assms(2) have k: "k < 5 + length host"
    by simp
  show ?thesis
  proof (cases "k < 3")
    case True
    then have "k = 0 \<or> k = 1 \<or> k = 2"
      by linarith
    then show ?thesis
      by (auto simp: decode_destination_unfold enc)
  next
    case False
    then have "take k enc ! 0 = VERSION" "take k enc ! 1 = ucast (drop_bit 8 ?len)"
      "take k enc ! 2 = ucast ?len" "length (take k enc) = k"
      using k enc by simp_all
    then show ?thesis
      using False k n by (simp add: decode_destination_unfold u16_be_roundtrip unat_host_len)
  qed
qed

subsection \<open>The stream reader\<close>

lemma read_u8_ok:
  assumes "exact_reader rd content ended" and "content s \<noteq> []"
  obtains s' where "read_u8 rd s = Inr (content s ! 0, s')"
    and "content s' = drop 1 (content s)" and "ended s' = ended s"
proof -
  have "1 \<le> length (content s)"
    using assms(2) by (cases "content s") simp_all
  from exact_reader_okE [OF assms(1) this] obtain s' where
    "rd 1 s = Inr (take 1 (content s), s')" "content s' = drop 1 (content s)" "ended s' = ended s" .
  then show ?thesis
    using assms(2) by (intro that [of s']) (simp_all add: read_u8_def)
qed

lemma read_u8_eof: "exact_reader rd content ended \<Longrightarrow> content s = [] \<Longrightarrow> read_u8 rd s = Inl (ended s)"
  by (simp add: read_u8_def exact_reader_short)

lemma read_u16_ok:
  assumes "exact_reader rd content ended" and "2 \<le> length (content s)"
  obtains s' where "read_u16 rd s = Inr (u16_from_be_bytes (content s ! 0) (content s ! 1), s')"
    and "content s' = drop 2 (content s)" and "ended s' = ended s"
proof -
  from exact_reader_okE [OF assms] obtain s' where
    "rd 2 s = Inr (take 2 (content s), s')" "content s' = drop 2 (content s)" "ended s' = ended s" .
  then show ?thesis
    using assms(2) by (intro that [of s']) (simp_all add: read_u16_def)
qed

lemma read_u16_eof:
  "exact_reader rd content ended \<Longrightarrow> length (content s) < 2 \<Longrightarrow> read_u16 rd s = Inl (ended s)"
  by (simp add: read_u16_def exact_reader_short)

lemma read_destination_after_len:
  assumes rd: "exact_reader rd content ended" and buf: "content r = buf"
    and len: "3 \<le> length buf" and v: "buf ! 0 = VERSION"
  obtains r' where "content r' = drop 3 buf" and "ended r' = ended r"
    and "read_destination rd r =
      (let host_len = unat (u16_from_be_bytes (buf ! 1) (buf ! 2)) in
       if host_len > MAX_HOST_LEN
       then Inl (io_error_new InvalidData (FramingError_display (HostTooLong host_len)))
       else bind_r (rd host_len r') (\<lambda>(host_buf, r).
         bind_r (ok_or (io_error_new InvalidData (FramingError_display InvalidUtf8))
                   (from_utf8 host_buf)) (\<lambda>host.
           bind_r (read_u16 rd r) (\<lambda>(port, r). Inr ((host, port), r)))))"
proof -
  have "content r \<noteq> []"
    using buf len by auto
  from read_u8_ok [OF rd this] obtain r1 where
    r1: "read_u8 rd r = Inr (buf ! 0, r1)" "content r1 = drop 1 buf" "ended r1 = ended r"
    unfolding buf .
  have "2 \<le> length (content r1)"
    using r1(2) len by simp
  from read_u16_ok [OF rd this] obtain r2 where
    r2: "read_u16 rd r1 = Inr (u16_from_be_bytes (drop 1 buf ! 0) (drop 1 buf ! 1), r2)"
      "content r2 = drop 2 (drop 1 buf)" "ended r2 = ended r1"
    unfolding r1(2) .
  have "drop 1 buf ! 0 = buf ! 1" "drop 1 buf ! 1 = buf ! 2" "drop 2 (drop 1 buf) = drop 3 buf"
    using len by (simp_all add: numeral_2_eq_2 numeral_3_eq_3)
  note r2 = r2 [unfolded this]
  show ?thesis
    by (rule that [of r2]) (use r1 r2 v in \<open>simp_all add: read_destination_def\<close>)
qed

lemma read_host_and_port:
  fixes rd :: "nat \<Rightarrow> 's \<Rightarrow> io_error + (u8 list \<times> 's)" and n :: nat and e :: io_error
  assumes rd: "exact_reader rd content ended" and c: "content r = bs"
  defines "res \<equiv> bind_r (rd n r) (\<lambda>(host_buf, r).
         bind_r (ok_or e (from_utf8 host_buf)) (\<lambda>host.
           bind_r (read_u16 rd r) (\<lambda>(port, r). Inr ((host, port), r))))"
  shows "length bs < n \<Longrightarrow> res = Inl (ended r)"
    and "n \<le> length bs \<Longrightarrow> from_utf8 (take n bs) = None \<Longrightarrow> res = Inl e"
    and "n \<le> length bs \<Longrightarrow> length bs < n + 2 \<Longrightarrow> from_utf8 (take n bs) = Some host \<Longrightarrow>
      res = Inl (ended r)"
    and "n + 2 \<le> length bs \<Longrightarrow> from_utf8 (take n bs) = Some host \<Longrightarrow>
      \<exists>r'. res = Inr ((host, u16_from_be_bytes (bs ! n) (bs ! (n + 1))), r') \<and>
           content r' = drop (n + 2) bs"
proof -
  show "length bs < n \<Longrightarrow> res = Inl (ended r)"
    using exact_reader_short [OF rd] by (simp add: res_def c)
  have ok: "\<exists>r'. rd n r = Inr (take n bs, r') \<and> content r' = drop n bs \<and> ended r' = ended r"
    if "n \<le> length bs"
    using exact_reader_okE [OF rd, of n r] that unfolding c by metis
  then show "n \<le> length bs \<Longrightarrow> from_utf8 (take n bs) = None \<Longrightarrow> res = Inl e"
    by (auto simp: res_def)
  show "res = Inl (ended r)"
    if "n \<le> length bs" "length bs < n + 2" "from_utf8 (take n bs) = Some host"
  proof -
    from ok that(1) obtain r' where r':
      "rd n r = Inr (take n bs, r')" "content r' = drop n bs" "ended r' = ended r"
      by blast
    then have "read_u16 rd r' = Inl (ended r)"
      using read_u16_eof [OF rd, of r'] that by simp
    with r' that show ?thesis
      by (simp add: res_def)
  qed
  show "\<exists>r'. res = Inr ((host, u16_from_be_bytes (bs ! n) (bs ! (n + 1))), r') \<and>
           content r' = drop (n + 2) bs"
    if "n + 2 \<le> length bs" "from_utf8 (take n bs) = Some host"
  proof -
    from ok that(1) obtain r' where r':
      "rd n r = Inr (take n bs, r')" "content r' = drop n bs" "ended r' = ended r"
      by auto
    then have "2 \<le> length (content r')"
      using that by simp
    from read_u16_ok [OF rd this] obtain r2 where
      "read_u16 rd r' = Inr (u16_from_be_bytes (drop n bs ! 0) (drop n bs ! 1), r2)"
      "content r2 = drop 2 (drop n bs)"
      unfolding r'(2) .
    with r' that show ?thesis
      by (simp add: res_def add.commute)
  qed
qed

lemma read_destination_long:
  assumes rd: "exact_reader rd content ended" and len: "3 \<le> length (content r)"
    and v: "content r ! 0 = VERSION"
  shows "case decode_destination (content r) of
      None \<Rightarrow> False
    | Some (Inl e) \<Rightarrow>
        read_destination rd r = Inl (io_error_new InvalidData (FramingError_display e))
    | Some (Inr None) \<Rightarrow>
        read_destination rd r \<in>
          {Inl (ended r), Inl (io_error_new InvalidData (FramingError_display InvalidUtf8))}
    | Some (Inr (Some (host, port, used))) \<Rightarrow>
        \<exists>r'. read_destination rd r = Inr ((host, port), r') \<and> content r' = drop used (content r)"
proof -
  let ?n = "unat (u16_from_be_bytes (content r ! 1) (content r ! 2))"
  let ?bs = "drop 3 (content r)"
  from read_destination_after_len [OF rd refl len v] obtain r' where
    r': "content r' = ?bs" "ended r' = ended r"
    and eq: "read_destination rd r =
      (let host_len = ?n in
       if host_len > MAX_HOST_LEN
       then Inl (io_error_new InvalidData (FramingError_display (HostTooLong host_len)))
       else bind_r (rd host_len r') (\<lambda>(host_buf, r).
         bind_r (ok_or (io_error_new InvalidData (FramingError_display InvalidUtf8))
                   (from_utf8 host_buf)) (\<lambda>host.
           bind_r (read_u16 rd r) (\<lambda>(port, r). Inr ((host, port), r)))))" .
  note tail = read_host_and_port [OF rd r'(1), unfolded r'(2)]
  have ne: "content r \<noteq> []"
    using len by auto
  consider "MAX_HOST_LEN < ?n" | "?n \<le> MAX_HOST_LEN" "length ?bs < ?n"
    | "?n \<le> MAX_HOST_LEN" "?n \<le> length ?bs" "length ?bs < ?n + 2"
    | "?n \<le> MAX_HOST_LEN" "?n + 2 \<le> length ?bs"
    by linarith
  then show ?thesis
  proof cases
    case 1
    with len v ne eq show ?thesis
      by (simp add: decode_destination_unfold Let_def)
  next
    case 2
    then have "length (content r) < 3 + ?n + 2"
      using len unfolding length_drop by linarith
    with 2(1) have "decode_destination (content r) = Some (Inr None)"
      using len v ne by (simp add: decode_destination_unfold Let_def)
    with 2 tail(1) [OF 2(2)] eq show ?thesis
      by (simp add: Let_def)
  next
    case 3
    then have "length (content r) < 3 + ?n + 2"
      using len unfolding length_drop by linarith
    with 3(1) have "decode_destination (content r) = Some (Inr None)"
      using len v ne by (simp add: decode_destination_unfold Let_def)
    with 3 tail(2) [OF 3(2)] tail(3) [OF 3(2,3)] eq show ?thesis
      by (cases "from_utf8 (take ?n ?bs)") (simp_all add: Let_def)
  next
    case 4
    then have n: "?n \<le> length ?bs" "\<not> length (content r) < 3 + ?n + 2"
      by simp_all
    show ?thesis
    proof (cases "from_utf8 (take ?n ?bs)")
      case None
      with len v ne n 4 tail(2) [OF n(1) None] eq show ?thesis
        by (simp add: decode_destination_unfold Let_def)
    next
      case (Some host)
      with len v ne n 4 have "decode_destination (content r) =
          Some (Inr (Some (host, u16_from_be_bytes (?bs ! ?n) (?bs ! (?n + 1)), ?n + 2 + 3)))"
        by (simp add: decode_destination_unfold Let_def algebra_simps)
      with 4 tail(4) [OF 4(2) Some] eq show ?thesis
        by (simp add: Let_def)
    qed
  qed
qed

lemma read_destination_short:
  assumes rd: "exact_reader rd content ended" and len: "length (content r) < 3"
  shows "read_destination rd r =
    (if content r \<noteq> [] \<and> content r ! 0 \<noteq> VERSION
     then Inl (io_error_new InvalidData (FramingError_display (UnsupportedVersion (content r ! 0))))
     else Inl (ended r))"
proof (cases "content r = []")
  case True
  then show ?thesis
    by (simp add: read_destination_def read_u8_eof [OF rd])
next
  case False
  from read_u8_ok [OF rd this] obtain r1 where
    r1: "read_u8 rd r = Inr (content r ! 0, r1)" "content r1 = drop 1 (content r)" "ended r1 = ended r" .
  moreover have "read_u16 rd r1 = Inl (ended r)"
    using read_u16_eof [OF rd, of r1] r1 len by simp
  ultimately show ?thesis
    using False by (simp add: read_destination_def)
qed

lemma read_destination_bad_version:
  assumes rd: "exact_reader rd content ended" and "content r \<noteq> []" and "content r ! 0 \<noteq> VERSION"
  shows "read_destination rd r =
    Inl (io_error_new InvalidData (FramingError_display (UnsupportedVersion (content r ! 0))))"
proof -
  from read_u8_ok [OF assms(1,2)] obtain r1 where "read_u8 rd r = Inr (content r ! 0, r1)" .
  with assms(3) show ?thesis
    by (simp add: read_destination_def)
qed

subsection \<open>Properties\<close>

text \<open>C10. The decoder returns a destination exactly when the buffer starts with the encoding of
  that destination, and it reports the length of that encoding as consumed: encoding
  then decoding is the identity whatever bytes follow the header, and every accepted
  header is the one the encoder writes (the wire format has no second representation).\<close>

theorem decode_destination_iff_encoded:
  "decode_destination buf = Some (Inr (Some (host, port, used))) \<longleftrightarrow>
   rust_str host \<and> used \<le> length buf \<and> encode_destination host port = Inr (take used buf)"
proof
  assume "decode_destination buf = Some (Inr (Some (host, port, used)))"
  then show "rust_str host \<and> used \<le> length buf \<and>
      encode_destination host port = Inr (take used buf)"
    using decoded_is_encoding by blast
next
  assume enc: "rust_str host \<and> used \<le> length buf \<and>
      encode_destination host port = Inr (take used buf)"
  then have "decode_destination (take used buf @ drop used buf) =
      Some (Inr (Some (host, port, length (take used buf))))"
    by (intro decode_encoded) simp_all
  with enc show "decode_destination buf = Some (Inr (Some (host, port, used)))"
    by (simp add: min_absorb2)
qed

text \<open>On no input does the decoder index or slice out of bounds. It asks for more
  bytes only while it has fewer than 260, and what it reports as consumed lies inside
  the buffer and is at most 260: a peer cannot make it buffer without bound.\<close>

theorem decode_destination_bounded:
  "decode_destination buf \<noteq> None \<and>
   (decode_destination buf = Some (Inr None) \<longrightarrow> length buf < 5 + MAX_HOST_LEN) \<and>
   (decode_destination buf = Some (Inr (Some (host, port, used))) \<longrightarrow>
      5 \<le> used \<and> used \<le> length buf \<and> used \<le> 5 + MAX_HOST_LEN \<and> length host \<le> MAX_HOST_LEN)"
proof (intro conjI impI)
  show "decode_destination buf \<noteq> None"
    by (simp add: decode_destination_unfold)
next
  assume "decode_destination buf = Some (Inr None)"
  then show "length buf < 5 + MAX_HOST_LEN"
    by (auto simp: decode_destination_unfold Let_def MAX_HOST_LEN_def
        split: if_splits option.splits)
next
  assume dec: "decode_destination buf = Some (Inr (Some (host, port, used)))"
  note enc = decoded_is_encoding [OF dec]
  have "length host \<le> MAX_HOST_LEN" "used = 5 + length host"
    using enc(2) length_encode_destination [OF enc(3)] enc(3)
    by (auto simp: encode_destination_ok_iff)
  with enc show "5 \<le> used" "used \<le> length buf" "used \<le> 5 + MAX_HOST_LEN"
    "length host \<le> MAX_HOST_LEN"
    by simp_all
qed

theorem decode_destination_bounded_witness:
  "length ([1, 0] :: u8 list) < 5 + MAX_HOST_LEN \<and> (5::nat) \<le> 6"
proof -
  have "decode_destination [1, 0] = Some (Inr None)"
    by code_simp
  moreover have "decode_destination [1, 0, 1, 97, 0, 80, 7] = Some (Inr (Some (''a'', 80, 6)))"
    by code_simp
  ultimately show ?thesis
    using decode_destination_bounded [of "[1, 0]"]
      decode_destination_bounded [of "[1, 0, 1, 97, 0, 80, 7]" "''a''" 80 6]
    by simp
qed

text \<open>Every proper prefix of an encoded header is reported as incomplete, never as an error
  and never as a (different) destination: a header that arrives in pieces is parsed
  once it is whole.\<close>

theorem decode_destination_prefix_incomplete:
  assumes "encode_destination host port = Inr enc" and "k < length enc"
  shows "decode_destination (take k enc) = Some (Inr None)"
  using assms by (rule decode_truncated)

theorem decode_destination_prefix_incomplete_witness:
  "decode_destination (take 5 [1, 0, 1, 97, 0, 80]) = Some (Inr None)"
  by (rule decode_destination_prefix_incomplete [of "''a''" 80]) code_simp+

text \<open>The stream reader agrees with the buffer decoder on the bytes the peer sends. A decoded
  destination is the one the reader returns, and it leaves exactly the bytes after the
  header on the stream; a framing error becomes \<open>InvalidData\<close> with the error's text; a
  header cut short becomes the error that ends the stream, except that the reader
  checks the host bytes before it has seen the port.\<close>

theorem read_destination_refines_decode:
  assumes "exact_reader rd content ended"
  shows "case decode_destination (content r) of
      None \<Rightarrow> False
    | Some (Inl e) \<Rightarrow>
        read_destination rd r = Inl (io_error_new InvalidData (FramingError_display e))
    | Some (Inr None) \<Rightarrow>
        read_destination rd r \<in>
          {Inl (ended r), Inl (io_error_new InvalidData (FramingError_display InvalidUtf8))}
    | Some (Inr (Some (host, port, used))) \<Rightarrow>
        \<exists>r'. read_destination rd r = Inr ((host, port), r') \<and> content r' = drop used (content r)"
proof (cases "length (content r) < 3")
  case True
  then show ?thesis
    using read_destination_short [OF assms True] by (auto simp: decode_destination_unfold)
next
  case long: False
  then have len: "3 \<le> length (content r)" "content r \<noteq> []"
    by auto
  show ?thesis
  proof (cases "content r ! 0 = VERSION")
    case False
    with len read_destination_bad_version [OF assms len(2) False] show ?thesis
      by (simp add: decode_destination_unfold)
  next
    case True
    show ?thesis
      by (rule read_destination_long [OF assms len(1) True])
  qed
qed

theorem read_destination_refines_decode_witness:
  "\<exists>r'. read_destination buffered_read ([1, 0, 1, 97, 0, 80, 7], io_error_new UnexpectedEof []) =
      Inr ((''a'', 80), r') \<and> fst r' = [7]"
proof -
  have "decode_destination [1, 0, 1, 97, 0, 80, 7] = Some (Inr (Some (''a'', 80, 6)))"
    by code_simp
  with read_destination_refines_decode [OF exact_reader_buffered,
      of "([1, 0, 1, 97, 0, 80, 7], io_error_new UnexpectedEof [])"]
  show ?thesis
    by simp
qed

end
