(* ===== verification/Network_State.thy ===== *)
theory Network_State
  imports Vpn_Prelude
begin

text \<open>
  The identifiers and coarse time values of \<^verbatim>\<open>crates/common/src/lib.rs\<close>, the failure taxonomy
  of \<^verbatim>\<open>crates/network-state\<close>, the data of the transport interface of
  \<^verbatim>\<open>crates/transport-api\<close>, and the telemetry schema of \<^verbatim>\<open>crates/telemetry\<close>.
\<close>

subsection \<open>Identifiers and time\<close>

datatype TransportId = TransportId (as_str: string)

datatype EndpointId = EndpointId string

fun TransportId_display :: "TransportId \<Rightarrow> string" where
  "TransportId_display (TransportId s) = s"

fun EndpointId_display :: "EndpointId \<Rightarrow> string" where
  "EndpointId_display (EndpointId s) = s"

type_synonym UnixSeconds = u64

definition saturating_add_secs :: "UnixSeconds \<Rightarrow> u64 \<Rightarrow> UnixSeconds" where
  "saturating_add_secs t secs = saturating_add t secs"

datatype DurationBucket = Under100Ms | Under500Ms | Under2s | Under10s | Over10s

definition DurationBucket_from_millis :: "128 word \<Rightarrow> DurationBucket" where
  "DurationBucket_from_millis ms =
     (if ms \<le> 99 then Under100Ms
      else if 100 \<le> ms \<and> ms \<le> 499 then Under500Ms
      else if 500 \<le> ms \<and> ms \<le> 1999 then Under2s
      else if 2000 \<le> ms \<and> ms \<le> 9999 then Under10s
      else Over10s)"

subsection \<open>Failure taxonomy\<close>

datatype FailureCategory =
    DnsFailure | TcpTimeout | TcpReset | TlsFailure | QuicFailure | UdpUnavailable
  | HandshakeTimeout | StallAfterConnect | EndpointUnreachable | ProviderDegradation
  | TransportDegradation | GeneralRouteFailure | PossibleShutdown | LocalNetworkFailure

definition is_remote_signal :: "FailureCategory \<Rightarrow> bool" where
  "is_remote_signal c \<longleftrightarrow> c \<noteq> LocalNetworkFailure"

fun is_transport_attributable :: "FailureCategory \<Rightarrow> bool" where
  "is_transport_attributable TcpReset = True"
| "is_transport_attributable TlsFailure = True"
| "is_transport_attributable QuicFailure = True"
| "is_transport_attributable UdpUnavailable = True"
| "is_transport_attributable TransportDegradation = True"
| "is_transport_attributable _ = False"

fun is_endpoint_attributable :: "FailureCategory \<Rightarrow> bool" where
  "is_endpoint_attributable EndpointUnreachable = True"
| "is_endpoint_attributable TcpTimeout = True"
| "is_endpoint_attributable HandshakeTimeout = True"
| "is_endpoint_attributable StallAfterConnect = True"
| "is_endpoint_attributable _ = False"

datatype Outcome = Success | Failure FailureCategory

record Observation =
  obs_transport :: TransportId
  obs_endpoint :: EndpointId
  obs_at :: UnixSeconds
  obs_outcome :: Outcome

subsection \<open>Transport interface\<close>

text \<open>Capabilities are a bit set; \<open>contains\<close> is the containment test of the flag type.\<close>

type_synonym Capabilities = u16

definition STREAM :: Capabilities where "STREAM = 1"

definition DATAGRAM :: Capabilities where "DATAGRAM = 2"

definition MIGRATION :: Capabilities where "MIGRATION = 4"

definition MULTIPLEXING :: Capabilities where "MULTIPLEXING = 8"

definition ZERO_RTT :: Capabilities where "ZERO_RTT = 16"

definition PROXY_CHAINING :: Capabilities where "PROXY_CHAINING = 32"

definition contains :: "Capabilities \<Rightarrow> Capabilities \<Rightarrow> bool" where
  "contains self other \<longleftrightarrow> and self other = other"

datatype ip_addr = V4 u32 | V6 "128 word"

record SocketAddr =
  sock_ip :: ip_addr
  sock_port :: u16

record Endpoint =
  ep_id :: EndpointId
  ep_address :: SocketAddr
  ep_provider_tag :: string
  ep_pinned_cert_sha256 :: "u8 list"

datatype TransportError =
    Connect FailureCategory string
  | Session FailureCategory string

fun TransportError_category :: "TransportError \<Rightarrow> FailureCategory" where
  "TransportError_category (Connect category detail) = category"
| "TransportError_category (Session category detail) = category"

record SessionHealth =
  alive :: bool
  rtt_estimate_ms :: "u32 option"

subsection \<open>Telemetry\<close>

datatype EndpointTag = EndpointTag string

datatype SessionEndReason = UserDisconnect | Stall | ResetByPeer | Migration

datatype LossBucket = NoLoss | Low | Moderate | High

datatype LatencyBucket = Under50Ms | Under150Ms | Under400Ms | Over400Ms

datatype TimeBucket = TimeBucket u8

datatype TelemetryEvent =
    ConnectionAttempt TransportId EndpointTag
  | ConnectionResult TransportId EndpointTag Outcome DurationBucket
  | SessionEnded TransportId DurationBucket SessionEndReason
  | StallObserved TransportId EndpointTag
  | NetworkConditionBucket LossBucket LatencyBucket TimeBucket

subsection \<open>Lemmas\<close>

lemma is_remote_signal_iff [simp]: "is_remote_signal c \<longleftrightarrow> c \<noteq> LocalNetworkFailure"
  by (simp add: is_remote_signal_def)

lemma attribution_disjoint: "\<not> (is_transport_attributable c \<and> is_endpoint_attributable c)"
  by (cases c) simp_all

lemma attributable_is_remote:
  "is_transport_attributable c \<or> is_endpoint_attributable c \<Longrightarrow> is_remote_signal c"
  by (cases c) simp_all

lemma saturating_add_secs_ge: "t \<le> saturating_add_secs t secs"
  by (simp add: saturating_add_secs_def saturating_add_ge)

end
