(* ===== verification/Ieee_Float.thy ===== *)
theory Ieee_Float
  imports Vpn_Prelude Complex_Main "HOL-Library.Log_Nat"
begin

text \<open>
  Binary floating point as the sources use it. A finite \<^verbatim>\<open>f32\<close> or \<^verbatim>\<open>f64\<close> value is the
  rational number it denotes, and every arithmetic operation is the exact operation
  followed by rounding to nearest, ties to even, into the format (\<open>f32\<close>, \<open>f64\<close>).
  Subnormals are covered by the least exponent; overflow to infinity is not modelled,
  and no value in the sources comes near it. The lemmas say that rounding fixes
  representable values and never crosses one, which is what keeps scores and token
  counts inside their bounds.
\<close>

subsection \<open>Rounding\<close>

definition rne :: "rat \<Rightarrow> int" where
  "rne x =
     (let f = \<lfloor>x\<rfloor>; r = x - of_int f in
      if r < 1 / 2 then f else if r > 1 / 2 then f + 1 else if even f then f else f + 1)"

definition ilog2 :: "rat \<Rightarrow> int" where
  "ilog2 x =
     (let (n, d) = quotient_of x; k = bitlen n - bitlen d in
      if 2 powi k \<le> x then k else k - 1)"

definition fl :: "nat \<Rightarrow> int \<Rightarrow> rat \<Rightarrow> rat" where
  "fl p emin x =
     (if x = 0 then 0
      else let u = 2 powi (max (ilog2 \<bar>x\<bar> - int p + 1) emin) in of_int (rne (x / u)) * u)"

definition f32 :: "rat \<Rightarrow> rat" where
  "f32 = fl 24 (- 149)"

definition f64 :: "rat \<Rightarrow> rat" where
  "f64 = fl 53 (- 1074)"

definition representable :: "nat \<Rightarrow> int \<Rightarrow> rat \<Rightarrow> bool" where
  "representable p emin y \<longleftrightarrow>
     (\<exists>m e. y = of_int m * 2 powi e \<and> \<bar>m\<bar> \<le> 2 ^ p \<and> emin \<le> e)"

abbreviation is_f32 :: "rat \<Rightarrow> bool" where
  "is_f32 \<equiv> representable 24 (- 149)"

abbreviation is_f64 :: "rat \<Rightarrow> bool" where
  "is_f64 \<equiv> representable 53 (- 1074)"

subsection \<open>Rounding to an integer\<close>

lemma rne_le: "x \<le> of_int n \<Longrightarrow> rne x \<le> n"
proof -
  assume x: "x \<le> of_int n"
  then have f: "\<lfloor>x\<rfloor> \<le> n"
    by (simp add: floor_le_iff)
  show ?thesis
  proof (cases "\<lfloor>x\<rfloor> = n")
    case True
    then have "x - of_int \<lfloor>x\<rfloor> \<le> 0"
      using x by simp
    then show ?thesis
      using f by (auto simp: rne_def Let_def)
  next
    case False
    then show ?thesis
      using f by (auto simp: rne_def Let_def)
  qed
qed

lemma le_rne: "of_int n \<le> x \<Longrightarrow> n \<le> rne x"
proof -
  assume "of_int n \<le> x"
  then have "n \<le> \<lfloor>x\<rfloor>"
    by (simp add: le_floor_iff)
  then show ?thesis
    by (auto simp: rne_def Let_def)
qed

lemma rne_of_int [simp]: "rne (of_int n) = n"
  by (simp add: rne_def Let_def)

subsection \<open>The binary exponent\<close>

lemma bitlen_powi:
  assumes "0 < n"
  shows "2 powi (bitlen n - 1) \<le> (of_int n :: rat)" "(of_int n :: rat) < 2 powi (bitlen n)"
proof -
  have pos: "0 < bitlen n"
    using assms bitlen_ge_iff_power [of 1 n] by simp
  have b: "2 ^ nat (bitlen n - 1) \<le> n" "n < 2 ^ nat (bitlen n)"
    using bitlen_bounds [OF assms] by auto
  have "of_int (2 ^ nat (bitlen n - 1)) \<le> (of_int n :: rat)"
    using b(1) by (simp only: of_int_le_iff)
  then show "2 powi (bitlen n - 1) \<le> (of_int n :: rat)"
    using pos by (simp add: power_int_def)
  have "(of_int n :: rat) < of_int (2 ^ nat (bitlen n))"
    using b(2) by (simp only: of_int_less_iff)
  then show "(of_int n :: rat) < 2 powi (bitlen n)"
    using pos by (simp add: power_int_def)
qed

lemma powi_add2: "(2::rat) powi (a + b) = 2 powi a * 2 powi b"
  by (simp add: power_int_add)

lemma powi_mono2: "a \<le> b \<Longrightarrow> (2::rat) powi a \<le> 2 powi b"
  by (rule power_int_increasing) simp_all

lemma ilog2_bounds:
  assumes "0 < x"
  shows "2 powi (ilog2 x) \<le> x" "x < 2 powi (ilog2 x + 1)"
proof -
  obtain n d where q: "quotient_of x = (n, d)"
    by (cases "quotient_of x")
  have d: "0 < d"
    using q by (rule quotient_of_denom_pos)
  have x: "x = of_int n / of_int d"
    using q by (rule quotient_of_div)
  have n: "0 < n"
    using assms x d by (simp add: zero_less_divide_iff)
  let ?k = "bitlen n - bitlen d"
  note bn = bitlen_powi [OF n] and bd = bitlen_powi [OF d]
  have dr: "(0::rat) < of_int d"
    using d by simp
  have up: "x < 2 powi (?k + 1)"
  proof -
    have "(of_int n :: rat) < 2 powi (?k + 1) * 2 powi (bitlen d - 1)"
      using bn(2) by (simp flip: power_int_add)
    also have "\<dots> \<le> 2 powi (?k + 1) * of_int d"
      using bd(1) by (intro mult_left_mono) simp_all
    finally show ?thesis
      using dr x by (simp add: pos_divide_less_eq)
  qed
  have lo: "2 powi (?k - 1) \<le> x"
  proof -
    have "2 powi (?k - 1) * (of_int d :: rat) \<le> 2 powi (?k - 1) * 2 powi (bitlen d)"
      using bd(2) by (intro mult_left_mono) simp_all
    also have "\<dots> = 2 powi (bitlen n - 1)"
      by (simp flip: power_int_add)
    also have "\<dots> \<le> of_int n"
      by (rule bn(1))
    finally show ?thesis
      using dr x by (simp add: pos_le_divide_eq)
  qed
  show "2 powi (ilog2 x) \<le> x" "x < 2 powi (ilog2 x + 1)"
    using up lo q by (auto simp: ilog2_def Let_def)
qed

subsection \<open>Rounding never crosses a representable value\<close>

lemma representable_0 [simp]: "representable p emin 0"
  by (auto simp: representable_def intro: exI [of _ 0] exI [of _ emin])

lemma representable_exact:
  "y = of_int m * 2 powi e \<Longrightarrow> \<bar>m\<bar> \<le> 2 ^ p \<Longrightarrow> emin \<le> e \<Longrightarrow> representable p emin y"
  by (auto simp: representable_def)

text \<open>The unit in the last place of the rounding of a positive \<open>x\<close>.\<close>

definition ulp_exp :: "nat \<Rightarrow> int \<Rightarrow> rat \<Rightarrow> int" where
  "ulp_exp p emin x = max (ilog2 x - int p + 1) emin"

lemma fl_pos: "0 < x \<Longrightarrow> fl p emin x = of_int (rne (x / 2 powi ulp_exp p emin x)) * 2 powi ulp_exp p emin x"
  by (simp add: fl_def ulp_exp_def Let_def)

lemma fl_0 [simp]: "fl p emin 0 = 0"
  by (simp add: fl_def)

lemma fl_le_multiple:
  "0 < x \<Longrightarrow> x \<le> of_int n * 2 powi ulp_exp p emin x \<Longrightarrow> fl p emin x \<le> of_int n * 2 powi ulp_exp p emin x"
  by (simp add: fl_pos rne_le pos_divide_le_eq)

lemma multiple_le_fl:
  "0 < x \<Longrightarrow> of_int n * 2 powi ulp_exp p emin x \<le> x \<Longrightarrow> of_int n * 2 powi ulp_exp p emin x \<le> fl p emin x"
  by (simp add: fl_pos le_rne pos_le_divide_eq)

lemma powi_as_multiple:
  assumes "E \<le> e"
  shows "of_int m * (2::rat) powi e = of_int (m * 2 ^ nat (e - E)) * 2 powi E"
proof -
  have "(2::rat) powi e = 2 powi (e - E) * 2 powi E"
    by (simp flip: powi_add2)
  then show ?thesis
    using assms by (simp add: power_int_def)
qed

lemma small_exponent_bound:
  assumes "0 < x" "of_int m * 2 powi e = y" "\<bar>m\<bar> \<le> 2 ^ p" "emin \<le> e" "e < ulp_exp p emin x" "1 \<le> p"
  shows "(y :: rat) \<le> 2 powi (ilog2 x)"
    and "2 powi (ilog2 x) = of_int (2 ^ (p - 1)) * (2::rat) powi ulp_exp p emin x"
proof -
  have E: "ulp_exp p emin x = ilog2 x - int p + 1"
    using assms(4,5) by (auto simp: ulp_exp_def)
  have "(of_int m :: rat) \<le> of_int (2 ^ p)"
    using assms(3) by (simp only: of_int_le_iff)
  then have m: "(of_int m :: rat) \<le> 2 powi (int p)"
    by simp
  have "y \<le> 2 powi (int p) * 2 powi e"
    using m assms(2) by (auto intro: mult_right_mono)
  also have "\<dots> = 2 powi (int p + e)"
    by (simp only: powi_add2)
  also have "\<dots> \<le> 2 powi (ilog2 x)"
    using assms(5) E by (intro powi_mono2) simp
  finally show "y \<le> 2 powi (ilog2 x)" .
  have "ilog2 x = int (p - 1) + ulp_exp p emin x"
    using E assms(6) by simp
  then have "(2::rat) powi (ilog2 x) = 2 powi (int (p - 1)) * 2 powi ulp_exp p emin x"
    by (simp only: powi_add2)
  then show "2 powi (ilog2 x) = of_int (2 ^ (p - 1)) * (2::rat) powi ulp_exp p emin x"
    by simp
qed

lemma fl_nonneg: "0 \<le> x \<Longrightarrow> 0 \<le> fl p emin x"
  using multiple_le_fl [of x 0 p emin] by (cases "x = 0") simp_all

lemma fl_le:
  assumes "representable p emin y" "0 \<le> x" "x \<le> y" "1 \<le> p"
  shows "fl p emin x \<le> y"
proof (cases "x = 0")
  case True
  with assms show ?thesis by simp
next
  case False
  with assms have x: "0 < x" by simp
  from assms(1) obtain m e where y: "y = of_int m * 2 powi e" "\<bar>m\<bar> \<le> 2 ^ p" "emin \<le> e"
    by (auto simp: representable_def)
  let ?E = "ulp_exp p emin x"
  show ?thesis
  proof (cases "?E \<le> e")
    case True
    show ?thesis
      using fl_le_multiple [OF x, of "m * 2 ^ nat (e - ?E)" p emin] assms(3)
      unfolding y(1) powi_as_multiple [OF True] .
  next
    case False
    note b = small_exponent_bound [OF x y(1) [symmetric] y(2,3) _ assms(4)]
    have "y \<le> 2 powi (ilog2 x)" and m: "2 powi (ilog2 x) = of_int (2 ^ (p - 1)) * (2::rat) powi ?E"
      using b False by auto
    then have "x = 2 powi (ilog2 x)" "y = x"
      using ilog2_bounds(1) [OF x] assms(3) by auto
    then show ?thesis
      using fl_le_multiple [OF x, of "2 ^ (p - 1)" p emin] m by simp
  qed
qed

lemma le_fl:
  assumes "representable p emin y" "0 \<le> x" "y \<le> x" "1 \<le> p"
  shows "y \<le> fl p emin x"
proof (cases "x = 0")
  case True
  with assms show ?thesis by simp
next
  case False
  with assms have x: "0 < x" by simp
  from assms(1) obtain m e where y: "y = of_int m * 2 powi e" "\<bar>m\<bar> \<le> 2 ^ p" "emin \<le> e"
    by (auto simp: representable_def)
  let ?E = "ulp_exp p emin x"
  show ?thesis
  proof (cases "?E \<le> e")
    case True
    show ?thesis
      using multiple_le_fl [OF x, of "m * 2 ^ nat (e - ?E)" p emin] assms(3)
      unfolding y(1) powi_as_multiple [OF True] .
  next
    case False
    then have "e < ?E"
      by simp
    note b = small_exponent_bound [OF x y(1) [symmetric] y(2,3) this assms(4)]
    have "y \<le> 2 powi (ilog2 x)"
      by (rule b(1))
    also have "\<dots> \<le> fl p emin x"
      using multiple_le_fl [OF x, of "2 ^ (p - 1)" p emin] b(2) ilog2_bounds(1) [OF x] by simp
    finally show ?thesis .
  qed
qed

lemma fl_exact: "representable p emin x \<Longrightarrow> 0 \<le> x \<Longrightarrow> 1 \<le> p \<Longrightarrow> fl p emin x = x"
  using fl_le le_fl by (simp add: order_antisym)

lemma representable_fl:
  assumes "0 \<le> x"
  shows "representable p emin (fl p emin x)"
proof (cases "x = 0")
  case False
  with assms have x: "0 < x" by simp
  let ?E = "ulp_exp p emin x"
  have "x \<le> 2 powi (ilog2 x + 1)"
    using ilog2_bounds(2) [OF x] by simp
  also have "\<dots> \<le> 2 powi (int p + ?E)"
    by (rule powi_mono2) (simp add: ulp_exp_def)
  also have "\<dots> = of_int (2 ^ p) * 2 powi ?E"
    by (simp add: powi_add2)
  finally have "rne (x / 2 powi ?E) \<le> 2 ^ p"
    by (intro rne_le) (simp add: pos_divide_le_eq)
  moreover have "0 \<le> rne (x / 2 powi ?E)"
    using x by (intro le_rne) simp
  ultimately show ?thesis
    using x by (intro representable_exact [OF fl_pos]) (simp_all add: ulp_exp_def)
qed simp

lemmas f32_le = fl_le [of 24 "- 149", folded f32_def, simplified]
lemmas le_f32 = le_fl [of 24 "- 149", folded f32_def, simplified]
lemmas f32_exact = fl_exact [of 24 "- 149", folded f32_def, simplified]
lemmas is_f32_f32 [simp] = representable_fl [of _ 24 "- 149", folded f32_def]
lemmas f32_nonneg [simp] = fl_nonneg [of _ 24 "- 149", folded f32_def]
lemmas f64_le = fl_le [of 53 "- 1074", folded f64_def, simplified]
lemmas le_f64 = le_fl [of 53 "- 1074", folded f64_def, simplified]
lemmas f64_exact = fl_exact [of 53 "- 1074", folded f64_def, simplified]
lemmas is_f64_f64 [simp] = representable_fl [of _ 53 "- 1074", folded f64_def]
lemmas f64_nonneg [simp] = fl_nonneg [of _ 53 "- 1074", folded f64_def]

lemma f32_0 [simp]: "f32 0 = 0" and f64_0 [simp]: "f64 0 = 0"
  by (simp_all add: f32_def f64_def)

lemma representable_of_nat:
  assumes "n \<le> 2 ^ p" "emin \<le> 0"
  shows "representable p emin (of_nat n)"
proof (rule representable_exact)
  show "of_nat n = of_int (int n) * (2::rat) powi 0"
    by simp
  have "int n \<le> int (2 ^ p)"
    using assms(1) by (simp only: of_nat_le_iff)
  then show "\<bar>int n\<bar> \<le> 2 ^ p"
    by simp
qed (use assms in simp)

lemma representable_numerals [simp]:
  "1 \<le> p \<Longrightarrow> emin \<le> 0 \<Longrightarrow> representable p emin 1"
  using representable_of_nat [of 1 p emin] by simp

subsection \<open>Time\<close>

text \<open>
  \<^verbatim>\<open>std::time::Duration\<close> and \<^verbatim>\<open>Instant\<close> are counts of nanoseconds; the difference of two
  instants saturates at zero. \<^verbatim>\<open>as_secs_f64\<close> adds the whole seconds and the fraction in
  \<^verbatim>\<open>f64\<close>.
\<close>

type_synonym duration = nat

type_synonym instant = nat

definition duration_from_secs :: "nat \<Rightarrow> duration" where
  "duration_from_secs s = s * 1000000000"

definition as_secs :: "duration \<Rightarrow> nat" where
  "as_secs d = d div 1000000000"

definition as_secs_f64 :: "duration \<Rightarrow> rat" where
  "as_secs_f64 d =
     f64 (f64 (of_nat (d div 1000000000)) + f64 (of_nat (d mod 1000000000) / 1000000000))"

definition duration_since :: "instant \<Rightarrow> instant \<Rightarrow> duration" where
  "duration_since later earlier = later - earlier"

lemma as_secs_f64_nonneg [simp]: "0 \<le> as_secs_f64 d"
  by (simp add: as_secs_f64_def)

lemma as_secs_f64_0 [simp]: "as_secs_f64 0 = 0"
  by (simp add: as_secs_f64_def f64_def)

end
