(* ===== verification/Failure_Classifier.thy ===== *)
theory Failure_Classifier
  imports Network_State Ieee_Float
begin

text \<open>
  \<^verbatim>\<open>crates/failure-classifier/src/lib.rs\<close>: the per-connection state machine and the guard
  that pauses transport switching when nearly every recent attempt failed. A trace of
  the state machine is a list of events; a trace of the guard is a list of the two
  calls the engine makes on it. The threshold and the failure fraction are \<^verbatim>\<open>f32\<close> values.
\<close>

subsection \<open>Connection state\<close>

datatype ConnectionState =
    Idle | Connecting | Connected | Healthy | Degraded | Failed FailureCategory | Closed

datatype Event =
    StartConnecting | ConnectSucceeded | ConnectFailed FailureCategory | DataFlowing
  | StallDetected | UserClose | Reset

fun transition :: "ConnectionState \<Rightarrow> Event \<Rightarrow> ConnectionState" where
  "transition _ UserClose = Closed"
| "transition _ Reset = Idle"
| "transition Idle StartConnecting = Connecting"
| "transition Connecting ConnectSucceeded = Connected"
| "transition Connecting (ConnectFailed cat) = Failed cat"
| "transition Connected DataFlowing = Healthy"
| "transition Connected StallDetected = Degraded"
| "transition Healthy StallDetected = Degraded"
| "transition Healthy DataFlowing = Healthy"
| "transition Degraded DataFlowing = Healthy"
| "transition (Failed _) StartConnecting = Connecting"
| "transition s _ = s"

subsection \<open>Shutdown guard\<close>

record ShutdownGuard =
  sg_window :: "(u64 \<times> bool) list"
  sg_window_size :: nat
  sg_failure_fraction_threshold :: rat
  sg_cooldown_ticks :: u64
  sg_cooldown_until :: "u64 option"

definition ShutdownGuard_new :: "nat \<Rightarrow> rat \<Rightarrow> u64 \<Rightarrow> ShutdownGuard" where
  "ShutdownGuard_new window_size failure_fraction_threshold cooldown_ticks =
     \<lparr>sg_window = [], sg_window_size = window_size,
      sg_failure_fraction_threshold = failure_fraction_threshold,
      sg_cooldown_ticks = cooldown_ticks, sg_cooldown_until = None\<rparr>"

definition guard_record :: "ShutdownGuard \<Rightarrow> u64 \<Rightarrow> bool \<Rightarrow> ShutdownGuard" where
  "guard_record g tick success =
     (let w = (if length (sg_window g) \<ge> sg_window_size g then tl (sg_window g) else sg_window g)
      in g\<lparr>sg_window := w @ [(tick, success)]\<rparr>)"

definition failure_fraction :: "ShutdownGuard \<Rightarrow> rat" where
  "failure_fraction g =
     (if sg_window g = [] then 0
      else let failures = length (filter (\<lambda>(_, ok). \<not> ok) (sg_window g)) in
        f32 (f32 (of_nat failures) / f32 (of_nat (length (sg_window g)))))"

definition should_suppress_switching :: "ShutdownGuard \<Rightarrow> u64 \<Rightarrow> bool \<times> ShutdownGuard" where
  "should_suppress_switching g tick =
     (let check = (\<lambda>g.
        if length (sg_window g) \<ge> max (sg_window_size g) 4 \<and>
           failure_fraction g \<ge> sg_failure_fraction_threshold g
        then (True, g\<lparr>sg_cooldown_until := Some (tick + sg_cooldown_ticks g)\<rparr>)
        else (False, g))
      in case sg_cooldown_until g of
           Some until \<Rightarrow>
             if tick < until then (True, g)
             else check (g\<lparr>sg_cooldown_until := None, sg_window := []\<rparr>)
         | None \<Rightarrow> check g)"

text \<open>The calls of the engine on its guard, in order.\<close>

datatype guard_op = Record u64 bool | Query u64

fun op_tick :: "guard_op \<Rightarrow> u64" where
  "op_tick (Record tick _) = tick"
| "op_tick (Query tick) = tick"

fun guard_step :: "ShutdownGuard \<Rightarrow> guard_op \<Rightarrow> bool option \<times> ShutdownGuard" where
  "guard_step g (Record tick ok) = (None, guard_record g tick ok)"
| "guard_step g (Query tick) =
     (let (b, g') = should_suppress_switching g tick in (Some b, g'))"

fun guard_run :: "ShutdownGuard \<Rightarrow> guard_op list \<Rightarrow> bool list \<times> ShutdownGuard" where
  "guard_run g [] = ([], g)"
| "guard_run g (p # ps) =
     (let (ans, g') = guard_step g p; (rest, g'') = guard_run g' ps
      in ((case ans of None \<Rightarrow> rest | Some b \<Rightarrow> b # rest), g''))"

subsection \<open>Lemmas on the state machine\<close>

abbreviation run_events :: "Event list \<Rightarrow> ConnectionState" where
  "run_events es \<equiv> foldl transition Idle es"

definition no_teardown :: "Event list \<Rightarrow> bool" where
  "no_teardown es \<longleftrightarrow> UserClose \<notin> set es \<and> Reset \<notin> set es"

definition attempt_open :: "Event list \<Rightarrow> bool" where
  "attempt_open es \<longleftrightarrow>
     no_teardown es \<and> ConnectSucceeded \<notin> set es \<and> (\<forall>c. ConnectFailed c \<notin> set es)"

lemma no_teardown_simps [simp]:
  "no_teardown []"
  "no_teardown (es @ [e]) \<longleftrightarrow> no_teardown es \<and> e \<noteq> UserClose \<and> e \<noteq> Reset"
  by (auto simp: no_teardown_def)

lemma attempt_open_simps [simp]:
  "attempt_open []"
  "attempt_open (es @ [e]) \<longleftrightarrow>
     attempt_open es \<and> e \<notin> {UserClose, Reset, ConnectSucceeded} \<and> (\<forall>c. e \<noteq> ConnectFailed c)"
  by (auto simp: attempt_open_def)

text \<open>\<open>resolved x P es\<close>: the last attempt of the history \<open>es\<close> ended with the event \<open>x\<close>, no
  teardown followed, and the events since then satisfy \<open>P\<close>.\<close>

definition resolved :: "Event \<Rightarrow> (Event list \<Rightarrow> bool) \<Rightarrow> Event list \<Rightarrow> bool" where
  "resolved x P es \<longleftrightarrow>
     (\<exists>pre mid post. es = pre @ StartConnecting # mid @ x # post \<and>
        attempt_open mid \<and> no_teardown post \<and> P post)"

text \<open>What the history of a state must contain.\<close>

fun justified :: "Event list \<Rightarrow> ConnectionState \<Rightarrow> bool" where
  "justified es Idle \<longleftrightarrow> True"
| "justified es Connecting \<longleftrightarrow> (\<exists>pre mid. es = pre @ StartConnecting # mid \<and> attempt_open mid)"
| "justified es (Failed c) \<longleftrightarrow> resolved (ConnectFailed c) (\<lambda>post. StartConnecting \<notin> set post) es"
| "justified es Connected \<longleftrightarrow>
     resolved ConnectSucceeded (\<lambda>post. DataFlowing \<notin> set post \<and> StallDetected \<notin> set post) es"
| "justified es Healthy \<longleftrightarrow> resolved ConnectSucceeded (\<lambda>post. DataFlowing \<in> set post) es"
| "justified es Degraded \<longleftrightarrow> resolved ConnectSucceeded (\<lambda>post. StallDetected \<in> set post) es"
| "justified es Closed \<longleftrightarrow> (\<exists>pre post. es = pre @ UserClose # post \<and> Reset \<notin> set post)"

lemma resolvedI:
  "es = pre @ StartConnecting # mid @ x # post \<Longrightarrow> attempt_open mid \<Longrightarrow> no_teardown post \<Longrightarrow>
   P post \<Longrightarrow> resolved x P es"
  by (auto simp: resolved_def)

lemma justified_connectingI:
  "es = pre @ StartConnecting # mid \<Longrightarrow> attempt_open mid \<Longrightarrow> justified es Connecting"
  by auto

lemma justified_closedI:
  "es = pre @ UserClose # post \<Longrightarrow> Reset \<notin> set post \<Longrightarrow> justified es Closed"
  by auto

lemma resolved_snoc:
  assumes "resolved x P es" "e \<noteq> UserClose" "e \<noteq> Reset" "\<And>post. P post \<Longrightarrow> Q (post @ [e])"
  shows "resolved x Q (es @ [e])"
proof -
  from assms(1) obtain pre mid post where
    "es = pre @ StartConnecting # mid @ x # post" "attempt_open mid" "no_teardown post" "P post"
    by (auto simp: resolved_def)
  with assms(2-4) show ?thesis
    by (intro resolvedI [of _ pre mid _ "post @ [e]"]) simp_all
qed

lemma resolved_now:
  assumes "justified es Connecting" "P []"
  shows "resolved x P (es @ [x])"
proof -
  from assms(1) obtain pre mid where "es = pre @ StartConnecting # mid" "attempt_open mid"
    by auto
  with assms(2) show ?thesis
    by (intro resolvedI [of _ pre mid _ "[]"]) simp_all
qed

lemma justified_closed_snoc:
  assumes "justified es Closed" "e \<noteq> Reset"
  shows "justified (es @ [e]) Closed"
proof -
  from assms(1) obtain pre post where "es = pre @ UserClose # post" "Reset \<notin> set post"
    by auto
  with assms(2) show ?thesis
    by (intro justified_closedI [of _ pre "post @ [e]"]) simp_all
qed

lemma justified_connecting_snoc:
  assumes "justified es Connecting" "attempt_open [e]"
  shows "justified (es @ [e]) Connecting"
proof -
  from assms(1) obtain pre mid where "es = pre @ StartConnecting # mid" "attempt_open mid"
    by auto
  with assms(2) show ?thesis
    by (intro justified_connectingI [of _ pre "mid @ [e]"])
      (auto simp: attempt_open_def no_teardown_def)
qed

lemma justified_step:
  assumes "justified es s"
  shows "justified (es @ [e]) (transition s e)"
proof (cases "e = UserClose \<or> e = Reset")
  case True
  then show ?thesis
    using justified_closedI [of "es @ [e]" es "[]"] by auto
next
  case quiet: False
  show ?thesis
  proof (cases s)
    case Idle
    then show ?thesis
      using quiet justified_connectingI [of "es @ [e]" es "[]"] by (cases e) simp_all
  next
    case Connecting
    then show ?thesis
      using quiet assms resolved_now [of es] justified_connecting_snoc [of es e]
      by (cases e) (simp_all add: attempt_open_def no_teardown_def)
  next
    case Connected
    then show ?thesis
      using quiet assms by (cases e) (auto intro: resolved_snoc)
  next
    case Healthy
    then show ?thesis
      using quiet assms by (cases e) (auto intro: resolved_snoc)
  next
    case Degraded
    then show ?thesis
      using quiet assms by (cases e) (auto intro: resolved_snoc)
  next
    case (Failed c)
    then show ?thesis
      using quiet assms justified_connectingI [of "es @ [e]" es "[]"]
      by (cases e) (auto intro: resolved_snoc)
  next
    case Closed
    then show ?thesis
      using quiet assms justified_closed_snoc [of es e] by (cases e) simp_all
  qed
qed

subsection \<open>Lemmas on the guard\<close>

lemma sg_record_simps [simp]:
  "sg_window_size (guard_record g t b) = sg_window_size g"
  "sg_failure_fraction_threshold (guard_record g t b) = sg_failure_fraction_threshold g"
  "sg_cooldown_ticks (guard_record g t b) = sg_cooldown_ticks g"
  "sg_cooldown_until (guard_record g t b) = sg_cooldown_until g"
  by (simp_all add: guard_record_def Let_def)

text \<open>The window never outgrows its size.\<close>

definition guard_ok :: "ShutdownGuard \<Rightarrow> bool" where
  "guard_ok g \<longleftrightarrow> length (sg_window g) \<le> max (sg_window_size g) 1"

lemma guard_ok_new: "guard_ok (ShutdownGuard_new n thr cd)"
  by (simp add: guard_ok_def ShutdownGuard_new_def)

lemma guard_ok_record: "guard_ok g \<Longrightarrow> guard_ok (guard_record g tick b)"
  by (auto simp: guard_ok_def guard_record_def Let_def)

lemma guard_ok_suppress: "guard_ok g \<Longrightarrow> guard_ok (snd (should_suppress_switching g tick))"
  by (auto simp: guard_ok_def should_suppress_switching_def Let_def split: option.split)

lemma suppress_in_cooldown:
  "sg_cooldown_until g = Some until \<Longrightarrow> tick < until \<Longrightarrow> should_suppress_switching g tick = (True, g)"
  by (simp add: should_suppress_switching_def)

lemma suppress_after_cooldown:
  "sg_cooldown_until g = Some until \<Longrightarrow> until \<le> tick \<Longrightarrow>
   should_suppress_switching g tick = (False, g\<lparr>sg_cooldown_until := None, sg_window := []\<rparr>)"
  by (auto simp: should_suppress_switching_def Let_def)

lemma suppress_no_cooldown:
  "sg_cooldown_until g = None \<Longrightarrow>
   fst (should_suppress_switching g tick) \<longleftrightarrow>
     max (sg_window_size g) 4 \<le> length (sg_window g) \<and>
     sg_failure_fraction_threshold g \<le> failure_fraction g"
  by (auto simp: should_suppress_switching_def Let_def)

lemma guard_run_in_cooldown:
  assumes "sg_cooldown_until g = Some until" and "list_all (\<lambda>p. op_tick p < until) ps"
  shows "list_all (\<lambda>b. b) (fst (guard_run g ps)) \<and>
         sg_cooldown_until (snd (guard_run g ps)) = Some until"
  using assms
proof (induction ps arbitrary: g)
  case (Cons p ps)
  then show ?case
    by (cases p) (simp_all add: suppress_in_cooldown case_prod_beta Let_def)
qed simp

lemma window_records:
  assumes "0 < n"
  shows "sg_window (foldl (\<lambda>g (t, ok). guard_record g t ok) (ShutdownGuard_new n thr cd) os) =
           drop (length os - n) os"
    and "sg_window_size (foldl (\<lambda>g (t, ok). guard_record g t ok) (ShutdownGuard_new n thr cd) os) = n"
    and "sg_failure_fraction_threshold
           (foldl (\<lambda>g (t, ok). guard_record g t ok) (ShutdownGuard_new n thr cd) os) = thr"
    and "sg_cooldown_until
           (foldl (\<lambda>g (t, ok). guard_record g t ok) (ShutdownGuard_new n thr cd) os) = None"
proof (induction os rule: rev_induct)
  case (snoc x os)
  {
    case 1
    show ?case
      using snoc.IH(1,2) assms
      by (cases x) (auto simp: guard_record_def Let_def tl_drop Suc_diff_le drop_Suc simp flip: drop_Suc)
  next
    case 2
    then show ?case
      using snoc.IH(2) by (cases x) simp
  next
    case 3
    then show ?case
      using snoc.IH(3) by (cases x) simp
  next
    case 4
    then show ?case
      using snoc.IH(4) by (cases x) simp
  }
qed (simp_all add: ShutdownGuard_new_def)

lemma guard_ok_records:
  "guard_ok g \<Longrightarrow> guard_ok (foldl (\<lambda>g (t, ok). guard_record g t ok) g os)"
  by (induction os arbitrary: g) (auto simp: guard_ok_record)

lemma sg_records_const:
  "sg_window_size (foldl (\<lambda>g (t, ok). guard_record g t ok) g os) = sg_window_size g"
  "sg_cooldown_until (foldl (\<lambda>g (t, ok). guard_record g t ok) g os) = sg_cooldown_until g"
  by (induction os arbitrary: g) auto

lemma suppress_small_window:
  assumes "guard_ok g" "sg_window_size g < 4" "sg_cooldown_until g = None"
  shows "\<not> fst (should_suppress_switching g tick)"
  using assms by (auto simp: suppress_no_cooldown guard_ok_def)

lemma guard_step_ok: "guard_ok g \<Longrightarrow> guard_ok (snd (guard_step g p))"
  by (cases p) (simp_all add: guard_ok_record guard_ok_suppress case_prod_beta Let_def)

lemma guard_run_ok: "guard_ok g \<Longrightarrow> guard_ok (snd (guard_run g ps))"
  by (induction ps arbitrary: g) (simp_all add: guard_step_ok case_prod_beta Let_def)

subsection \<open>Properties\<close>


text \<open>Once the guard has armed a cooldown, every query before its end answers ``suppress''
  whatever outcomes are recorded meanwhile, and the first query at or after its end
  releases and empties the window: suppression lasts exactly the cooldown, and the guard
  is never stuck in it.\<close>

theorem shutdown_cooldown_exact:
  assumes "should_suppress_switching g tick = (True, g')"
    and "sg_cooldown_until g' = Some until"
    and "list_all (\<lambda>p. op_tick p < until) ps" and "until \<le> later"
  shows "list_all (\<lambda>b. b) (fst (guard_run g' ps)) \<and>
         (let (b, g'') = should_suppress_switching (snd (guard_run g' ps)) later
          in \<not> b \<and> sg_window g'' = [] \<and> sg_cooldown_until g'' = None)"
  using guard_run_in_cooldown [OF assms(2,3)] suppress_after_cooldown [OF _ assms(4)] by simp

theorem shutdown_cooldown_exact_witness:
  "let g = \<lparr>sg_window = replicate 6 (0, False), sg_window_size = 6,
            sg_failure_fraction_threshold = 4 / 5, sg_cooldown_ticks = 10,
            sg_cooldown_until = None\<rparr>;
       g' = snd (should_suppress_switching g 6)
   in list_all (\<lambda>b. b) (fst (guard_run g' [Query 7, Record 8 True, Query 15])) \<and>
      \<not> fst (should_suppress_switching (snd (guard_run g' [Query 7, Record 8 True, Query 15])) 16)"
proof -
  let ?g = "\<lparr>sg_window = replicate 6 (0, False), sg_window_size = 6,
            sg_failure_fraction_threshold = 4 / 5, sg_cooldown_ticks = 10,
            sg_cooldown_until = None\<rparr>"
  let ?g' = "?g\<lparr>sg_cooldown_until := Some 16\<rparr>"
  have "should_suppress_switching ?g 6 = (True, ?g')"
    by code_simp
  with shutdown_cooldown_exact [OF this, of 16 "[Query 7, Record 8 True, Query 15]" 16]
  show ?thesis
    by (simp add: Let_def case_prod_beta)
qed

text \<open>A guard that has only recorded outcomes suppresses exactly when its window size is at
  least four, that many outcomes have been recorded, and the \<^verbatim>\<open>f32\<close> fraction of failures among
  the last \<open>n\<close> of them reaches the threshold; a guard built with a smaller window never
  suppresses.\<close>

theorem shutdown_guard_arms_iff:
  "fst (should_suppress_switching
          (foldl (\<lambda>g (t, ok). guard_record g t ok) (ShutdownGuard_new n thr cd) os) tick) \<longleftrightarrow>
   4 \<le> n \<and> n \<le> length os \<and>
   thr \<le> f32 (f32 (of_nat (length (filter (\<lambda>(_, ok). \<not> ok) (drop (length os - n) os)))) /
               f32 (of_nat n))"
proof (cases "4 \<le> n")
  case False
  have "guard_ok (foldl (\<lambda>g (t, ok). guard_record g t ok) (ShutdownGuard_new n thr cd) os)"
    by (intro guard_ok_records guard_ok_new)
  with False suppress_small_window [OF this, of tick] show ?thesis
    by (simp add: sg_records_const ShutdownGuard_new_def)
next
  case True
  then have "0 < n" by simp
  note w = window_records [OF this, where thr = thr and cd = cd and os = os]
  show ?thesis
    using True
    by (auto simp: suppress_no_cooldown [OF w(4)] w(1,2,3) failure_fraction_def Let_def max_def)
qed

end
