(* ===== verification/Policy.thy ===== *)
theory Policy
  imports Network_State Ieee_Float
begin

text \<open>
  \<^verbatim>\<open>crates/policy\<close>: the confidence score of a transport/endpoint pair, its quarantine, the
  board of all scores with weighted selection (\<^verbatim>\<open>src/lib.rs\<close>), and the kill switch
  (\<^verbatim>\<open>src/killswitch.rs\<close>). The clock reading of an operation is an argument; the random
  generator is a parameter (\<open>gen_range\<close>, \<open>weighted_sample\<close>) with its documented behaviour
  as a hypothesis. The interface \<open>observation_board\<close> says what a board promises its
  clients; \<^verbatim>\<open>ScoreBoard\<close> is interpreted as one. The interface \<open>switch_backend\<close> is the trait
  \<^verbatim>\<open>KillSwitchBackend\<close>.
\<close>

subsection \<open>Constants\<close>

definition EWMA_ALPHA :: rat where
  "EWMA_ALPHA = f32 (3 / 10)"

definition SCORE_FLOOR :: rat where
  "SCORE_FLOOR = f32 (5 / 100)"

definition QUARANTINE_THRESHOLD :: u16 where
  "QUARANTINE_THRESHOLD = 3"

definition QUARANTINE_MIN :: duration where
  "QUARANTINE_MIN = duration_from_secs 60"

definition QUARANTINE_MAX :: duration where
  "QUARANTINE_MAX = duration_from_secs 300"

subsection \<open>Score\<close>

record Score =
  ewma_success :: rat
  total_attempts :: u32
  consecutive_failures :: u16
  last_failure_category :: "FailureCategory option"
  quarantined_until :: "instant option"

definition Score_default :: Score where
  "Score_default =
     \<lparr>ewma_success = f32 (1 / 2), total_attempts = 0, consecutive_failures = 0,
      last_failure_category = None, quarantined_until = None\<rparr>"

definition record_success :: "Score \<Rightarrow> Score" where
  "record_success s =
     s\<lparr>total_attempts := saturating_add (total_attempts s) 1,
       consecutive_failures := 0,
       quarantined_until := None,
       ewma_success := f32 (f32 (EWMA_ALPHA * 1) + f32 (f32 (1 - EWMA_ALPHA) * ewma_success s))\<rparr>"

definition record_failure ::
    "(u64 \<Rightarrow> u64 \<Rightarrow> 'g \<Rightarrow> u64 \<times> 'g) \<Rightarrow> instant \<Rightarrow> Score \<Rightarrow> FailureCategory \<Rightarrow> 'g \<Rightarrow> Score \<times> 'g"
  where
  "record_failure gen_range now s category rng =
     (let s = s\<lparr>total_attempts := saturating_add (total_attempts s) 1,
                consecutive_failures := saturating_add (consecutive_failures s) 1,
                last_failure_category := Some category,
                ewma_success := f32 (f32 (EWMA_ALPHA * 0) +
                                     f32 (f32 (1 - EWMA_ALPHA) * ewma_success s))\<rparr>
      in if consecutive_failures s \<ge> QUARANTINE_THRESHOLD
         then let (jitter_secs, rng') =
                gen_range (word_of_nat (as_secs QUARANTINE_MIN)) (word_of_nat (as_secs QUARANTINE_MAX)) rng
              in (s\<lparr>quarantined_until := Some (now + duration_from_secs (unat jitter_secs))\<rparr>, rng')
         else (s, rng))"

definition is_quarantined :: "Score \<Rightarrow> instant \<Rightarrow> bool" where
  "is_quarantined s now =
     (case quarantined_until s of Some until \<Rightarrow> now < until | None \<Rightarrow> False)"

definition selection_weight :: "Score \<Rightarrow> rat" where
  "selection_weight s = max (ewma_success s) SCORE_FLOOR"

subsection \<open>Score board\<close>

record Candidate =
  cand_transport :: TransportId
  cand_endpoint :: EndpointId

type_synonym ScoreBoard = "Candidate \<Rightarrow> Score option"

definition ScoreBoard_new :: ScoreBoard where
  "ScoreBoard_new = (\<lambda>_. None)"

definition score_of :: "ScoreBoard \<Rightarrow> Candidate \<Rightarrow> Score" where
  "score_of b c = (case b c of Some s \<Rightarrow> s | None \<Rightarrow> Score_default)"

definition observe_success :: "ScoreBoard \<Rightarrow> Candidate \<Rightarrow> ScoreBoard" where
  "observe_success b c = b(c \<mapsto> record_success (score_of b c))"

definition observe_failure ::
    "(u64 \<Rightarrow> u64 \<Rightarrow> 'g \<Rightarrow> u64 \<times> 'g) \<Rightarrow> instant \<Rightarrow> ScoreBoard \<Rightarrow> Candidate \<Rightarrow> FailureCategory \<Rightarrow> 'g
      \<Rightarrow> ScoreBoard \<times> 'g" where
  "observe_failure gen_range now b c category rng =
     (if \<not> is_remote_signal category then (b, rng)
      else let (s, rng') = record_failure gen_range now (score_of b c) category rng
           in (b(c \<mapsto> s), rng'))"

text \<open>
  \<open>weighted_sample\<close> builds a weighted distribution over indices and draws from it; it is
  \<^term>\<open>None\<close> when no distribution exists for the weights. The result is \<^term>\<open>None\<close> when
  indexing the eligible candidates is out of bounds.
\<close>

definition select_next ::
    "(rat list \<Rightarrow> 'g \<Rightarrow> (nat \<times> 'g) option) \<Rightarrow> instant \<Rightarrow> ScoreBoard \<Rightarrow> Candidate list \<Rightarrow> 'g
      \<Rightarrow> (Candidate option \<times> 'g) option" where
  "select_next weighted_sample now b candidates rng =
     (let eligible = filter (\<lambda>c. \<not> is_quarantined (score_of b c) now) candidates in
      if eligible = [] then Some (None, rng)
      else let weights = map (\<lambda>c. selection_weight (score_of b c)) eligible in
        case weighted_sample weights rng of
          None \<Rightarrow> Some (None, rng)
        | Some (i, rng') \<Rightarrow> do { c \<leftarrow> idx eligible i; Some (Some c, rng') })"

subsection \<open>Kill switch\<close>

datatype RoutePolicy = SecureRouteActive | SecureRouteUnavailable

record MockBackend =
  mb_policy :: RoutePolicy
  mb_apply_log :: "RoutePolicy list"

definition MockBackend_new :: MockBackend where
  "MockBackend_new = \<lparr>mb_policy = SecureRouteUnavailable, mb_apply_log = []\<rparr>"

definition MockBackend_apply :: "RoutePolicy \<Rightarrow> MockBackend \<Rightarrow> MockBackend" where
  "MockBackend_apply policy b = b\<lparr>mb_policy := policy, mb_apply_log := mb_apply_log b @ [policy]\<rparr>"

record 'b KillSwitch =
  ks_backend :: 'b

definition KillSwitch_new :: "'b \<Rightarrow> 'b KillSwitch" where
  "KillSwitch_new backend = \<lparr>ks_backend = backend\<rparr>"

definition on_secure_route_established ::
    "(RoutePolicy \<Rightarrow> 'b \<Rightarrow> 'b) \<Rightarrow> 'b KillSwitch \<Rightarrow> 'b KillSwitch" where
  "on_secure_route_established apply_policy ks =
     ks\<lparr>ks_backend := apply_policy SecureRouteActive (ks_backend ks)\<rparr>"

definition on_secure_route_lost ::
    "(RoutePolicy \<Rightarrow> 'b \<Rightarrow> 'b) \<Rightarrow> 'b KillSwitch \<Rightarrow> 'b KillSwitch" where
  "on_secure_route_lost apply_policy ks =
     ks\<lparr>ks_backend := apply_policy SecureRouteUnavailable (ks_backend ks)\<rparr>"

definition KillSwitch_policy :: "('b \<Rightarrow> RoutePolicy) \<Rightarrow> 'b KillSwitch \<Rightarrow> RoutePolicy" where
  "KillSwitch_policy current_policy ks = current_policy (ks_backend ks)"

subsection \<open>The constants as numbers\<close>

lemma EWMA_ALPHA_eq: "EWMA_ALPHA = 5033165 / 16777216"
  by code_simp

lemma one_minus_alpha: "f32 (1 - EWMA_ALPHA) = 1 - EWMA_ALPHA"
  by code_simp

lemma SCORE_FLOOR_pos: "0 < SCORE_FLOOR"
  by code_simp

lemma alpha_bounds: "0 \<le> EWMA_ALPHA" "0 \<le> 1 - EWMA_ALPHA" "EWMA_ALPHA \<le> 1"
  by (simp_all add: EWMA_ALPHA_eq)

lemma is_f32_alpha: "is_f32 EWMA_ALPHA" "is_f32 (1 - EWMA_ALPHA)"
  using is_f32_f32 [of "3 / 10"] is_f32_f32 [OF alpha_bounds(2)]
  unfolding EWMA_ALPHA_def [symmetric] one_minus_alpha by simp_all

lemma quarantine_secs: "as_secs QUARANTINE_MIN = 60" "as_secs QUARANTINE_MAX = 300"
  by (simp_all add: as_secs_def QUARANTINE_MIN_def QUARANTINE_MAX_def duration_from_secs_def)

subsection \<open>Scores stay in the unit interval\<close>

definition unit_f32 :: "rat \<Rightarrow> bool" where
  "unit_f32 x \<longleftrightarrow> is_f32 x \<and> 0 \<le> x \<and> x \<le> 1"

lemma decayed_bounds:
  assumes "unit_f32 x"
  shows "0 \<le> f32 (f32 (1 - EWMA_ALPHA) * x)"
    and "f32 (f32 (1 - EWMA_ALPHA) * x) \<le> 1 - EWMA_ALPHA"
    and "f32 (f32 (1 - EWMA_ALPHA) * x) \<le> x"
proof -
  have x: "is_f32 x" "0 \<le> x" "x \<le> 1"
    using assms by (simp_all add: unit_f32_def)
  have nonneg: "0 \<le> (1 - EWMA_ALPHA) * x"
    using x alpha_bounds by simp
  then show "0 \<le> f32 (f32 (1 - EWMA_ALPHA) * x)"
    by (simp add: one_minus_alpha)
  show "f32 (f32 (1 - EWMA_ALPHA) * x) \<le> 1 - EWMA_ALPHA"
    unfolding one_minus_alpha
    using nonneg x alpha_bounds by (intro f32_le is_f32_alpha) (simp_all add: mult_left_le)
  show "f32 (f32 (1 - EWMA_ALPHA) * x) \<le> x"
    unfolding one_minus_alpha
    using nonneg x alpha_bounds by (intro f32_le) (simp_all add: mult_left_le_one_le)
qed

lemma ewma_success_step:
  assumes "unit_f32 (ewma_success s)"
  shows "unit_f32 (ewma_success (record_success s))" "EWMA_ALPHA \<le> ewma_success (record_success s)"
proof -
  let ?d = "f32 (f32 (1 - EWMA_ALPHA) * ewma_success s)"
  note d = decayed_bounds [OF assms]
  have a: "f32 (EWMA_ALPHA * 1) = EWMA_ALPHA"
    using f32_exact [OF is_f32_alpha(1)] alpha_bounds by simp
  have up: "f32 (EWMA_ALPHA + ?d) \<le> 1"
    using d alpha_bounds by (intro f32_le) simp_all
  have lo: "EWMA_ALPHA \<le> f32 (EWMA_ALPHA + ?d)"
    using d alpha_bounds by (intro le_f32 is_f32_alpha) simp_all
  show "unit_f32 (ewma_success (record_success s))" "EWMA_ALPHA \<le> ewma_success (record_success s)"
    using up lo d alpha_bounds a by (simp_all add: record_success_def unit_f32_def)
qed

lemma ewma_failure_step:
  assumes "unit_f32 (ewma_success s)"
  shows "unit_f32 (ewma_success (fst (record_failure gr now s c rng)))"
    and "ewma_success (fst (record_failure gr now s c rng)) \<le> ewma_success s"
proof -
  let ?d = "f32 (f32 (1 - EWMA_ALPHA) * ewma_success s)"
  note d = decayed_bounds [OF assms]
  have is_d: "is_f32 ?d"
    using assms alpha_bounds by (simp add: unit_f32_def one_minus_alpha)
  have "ewma_success (fst (record_failure gr now s c rng)) = f32 (f32 (EWMA_ALPHA * 0) + ?d)"
    by (simp add: record_failure_def Let_def case_prod_beta)
  also have "\<dots> = ?d"
    using d is_d by (simp add: f32_0 f32_exact)
  finally have "ewma_success (fst (record_failure gr now s c rng)) = ?d" .
  with is_d d assms show "unit_f32 (ewma_success (fst (record_failure gr now s c rng)))"
    and "ewma_success (fst (record_failure gr now s c rng)) \<le> ewma_success s"
    by (auto simp: unit_f32_def)
qed

subsection \<open>What a score says about the history of its candidate\<close>

text \<open>An attempt is \<^term>\<open>None\<close> for a success, or the time and category of a failure; a history
  has the newest attempt last.\<close>

type_synonym attempt = "(instant \<times> FailureCategory) option"

definition failures_since_success :: "attempt list \<Rightarrow> nat" where
  "failures_since_success hist = length (takeWhile (\<lambda>a. a \<noteq> None) (rev hist))"

definition score_spec :: "attempt list \<Rightarrow> Score \<Rightarrow> bool" where
  "score_spec hist s \<longleftrightarrow>
     unit_f32 (ewma_success s) \<and>
     unat (total_attempts s) = min (length hist) (2 ^ 32 - 1) \<and>
     unat (consecutive_failures s) = min (failures_since_success hist) (2 ^ 16 - 1) \<and>
     (case quarantined_until s of
        None \<Rightarrow> failures_since_success hist < 3
      | Some u \<Rightarrow> 3 \<le> failures_since_success hist \<and>
          (\<exists>t cat. last hist = Some (t, cat) \<and> t + QUARANTINE_MIN \<le> u \<and> u \<le> t + QUARANTINE_MAX))"

lemma failures_since_success_simps [simp]:
  "failures_since_success [] = 0"
  "failures_since_success (hist @ [None]) = 0"
  "failures_since_success (hist @ [Some f]) = Suc (failures_since_success hist)"
  by (simp_all add: failures_since_success_def)

definition gen_range_ok :: "(u64 \<Rightarrow> u64 \<Rightarrow> 'g \<Rightarrow> u64 \<times> 'g) \<Rightarrow> bool" where
  "gen_range_ok gen_range \<longleftrightarrow>
     (\<forall>lo hi rng. lo \<le> hi \<longrightarrow> lo \<le> fst (gen_range lo hi rng) \<and> fst (gen_range lo hi rng) \<le> hi)"

lemma score_spec_default: "score_spec [] Score_default"
proof -
  have "is_f32 (1 / 2)"
    by (rule representable_exact [of _ 1 "- 1"]) (simp_all add: power_int_def)
  then show ?thesis
    by (simp add: score_spec_def Score_default_def unit_f32_def f32_exact)
qed

lemma score_spec_success:
  assumes "score_spec hist s"
  shows "score_spec (hist @ [None]) (record_success s)"
proof -
  have "unit_f32 (ewma_success (record_success s))"
    using assms by (intro ewma_success_step) (simp add: score_spec_def)
  with assms show ?thesis
    by (simp add: score_spec_def record_success_def unat_saturating_add)
qed

lemma jitter_bounds:
  assumes "gen_range_ok gen_range"
    and "u = now + duration_from_secs (unat (fst (gen_range (60 :: u64) 300 rng)))"
  shows "now + QUARANTINE_MIN \<le> u" "u \<le> now + QUARANTINE_MAX"
proof -
  have "60 \<le> fst (gen_range (60 :: u64) 300 rng)" "fst (gen_range (60 :: u64) 300 rng) \<le> 300"
    using assms(1) by (auto simp: gen_range_ok_def)
  then have "60 \<le> unat (fst (gen_range (60 :: u64) 300 rng))"
    "unat (fst (gen_range (60 :: u64) 300 rng)) \<le> 300"
    by (simp_all add: word_le_nat_alt)
  then show "now + QUARANTINE_MIN \<le> u" "u \<le> now + QUARANTINE_MAX"
    using assms(2) by (simp_all add: QUARANTINE_MIN_def QUARANTINE_MAX_def duration_from_secs_def)
qed

lemma quarantined_until_failure:
  "quarantined_until (fst (record_failure gen_range now s cat rng)) =
     (if saturating_add (consecutive_failures s) 1 \<ge> QUARANTINE_THRESHOLD
      then Some (now + duration_from_secs (unat (fst (gen_range 60 300 rng))))
      else quarantined_until s)"
  by (simp add: record_failure_def Let_def case_prod_beta quarantine_secs)

lemma counters_failure:
  "total_attempts (fst (record_failure gen_range now s cat rng)) = saturating_add (total_attempts s) 1"
  "consecutive_failures (fst (record_failure gen_range now s cat rng)) =
     saturating_add (consecutive_failures s) 1"
  "last_failure_category (fst (record_failure gen_range now s cat rng)) = Some cat"
  by (simp_all add: record_failure_def Let_def case_prod_beta)

lemma score_spec_failure:
  assumes spec: "score_spec hist s" and gr: "gen_range_ok gen_range"
  shows "score_spec (hist @ [Some (now, cat)]) (fst (record_failure gen_range now s cat rng))"
proof -
  let ?n = "failures_since_success hist"
  have ewma: "unit_f32 (ewma_success (fst (record_failure gen_range now s cat rng)))"
    using spec by (intro ewma_failure_step) (simp add: score_spec_def)
  have consec: "unat (saturating_add (consecutive_failures s) 1) = min (Suc ?n) (2 ^ 16 - 1)"
    using spec by (simp add: score_spec_def unat_saturating_add)
  have thr: "saturating_add (consecutive_failures s) 1 \<ge> QUARANTINE_THRESHOLD \<longleftrightarrow> 3 \<le> Suc ?n"
    using consec by (simp add: QUARANTINE_THRESHOLD_def word_le_nat_alt)
  show ?thesis
  proof (cases "3 \<le> Suc ?n")
    case True
    then show ?thesis
      using ewma consec thr spec jitter_bounds [OF gr refl, of now rng]
      by (simp add: score_spec_def counters_failure quarantined_until_failure unat_saturating_add)
  next
    case False
    then have "quarantined_until s = None"
      using spec by (auto simp: score_spec_def split: option.splits)
    with False show ?thesis
      using ewma consec thr spec
      by (simp add: score_spec_def counters_failure quarantined_until_failure unat_saturating_add)
  qed
qed

lemma is_quarantined_spec:
  assumes "score_spec hist s"
  shows "is_quarantined s now \<Longrightarrow> 3 \<le> failures_since_success hist"
    and "is_quarantined s now \<Longrightarrow> last hist = Some (t, cat) \<Longrightarrow> now < t + QUARANTINE_MAX"
    and "3 \<le> failures_since_success hist \<Longrightarrow> last hist = Some (t, cat) \<Longrightarrow>
         now < t + QUARANTINE_MIN \<Longrightarrow> is_quarantined s now"
  using assms by (auto simp: score_spec_def is_quarantined_def split: option.splits)

subsection \<open>The board as its clients see it\<close>

datatype board_op = ObserveSuccess Candidate | ObserveFailure instant Candidate FailureCategory

fun board_step ::
    "('b \<Rightarrow> Candidate \<Rightarrow> 'b) \<Rightarrow> (instant \<Rightarrow> 'b \<Rightarrow> Candidate \<Rightarrow> FailureCategory \<Rightarrow> 'g \<Rightarrow> 'b \<times> 'g)
      \<Rightarrow> 'b \<times> 'g \<Rightarrow> board_op \<Rightarrow> 'b \<times> 'g" where
  "board_step succ fail (b, rng) (ObserveSuccess c) = (succ b c, rng)"
| "board_step succ fail (b, rng) (ObserveFailure now c cat) = fail now b c cat rng"

fun attempt_of :: "Candidate \<Rightarrow> board_op \<Rightarrow> attempt option" where
  "attempt_of c (ObserveSuccess c') = (if c' = c then Some None else None)"
| "attempt_of c (ObserveFailure now c' cat) =
     (if c' = c \<and> is_remote_signal cat then Some (Some (now, cat)) else None)"

definition candidate_history :: "Candidate \<Rightarrow> board_op list \<Rightarrow> attempt list" where
  "candidate_history c ops = List.map_filter (attempt_of c) ops"

lemma candidate_history_simps [simp]:
  "candidate_history c [] = []"
  "candidate_history c (ops @ [p]) =
     candidate_history c ops @ (case attempt_of c p of None \<Rightarrow> [] | Some a \<Rightarrow> [a])"
  by (simp_all add: candidate_history_def List.map_filter_def split: option.split)

locale observation_board =
  fixes score :: "'b \<Rightarrow> Candidate \<Rightarrow> Score"
    and succ :: "'b \<Rightarrow> Candidate \<Rightarrow> 'b"
    and fail :: "instant \<Rightarrow> 'b \<Rightarrow> Candidate \<Rightarrow> FailureCategory \<Rightarrow> 'g \<Rightarrow> 'b \<times> 'g"
    and gen_range :: "u64 \<Rightarrow> u64 \<Rightarrow> 'g \<Rightarrow> u64 \<times> 'g"
  assumes score_succ:
      "score (succ b c) c' = (if c' = c then record_success (score b c) else score b c')"
    and score_fail:
      "score (fst (fail now b c cat rng)) c' =
         (if c' = c \<and> is_remote_signal cat
          then fst (record_failure gen_range now (score b c) cat rng) else score b c')"
begin

lemma score_step:
  assumes "gen_range_ok gen_range" and "score_spec hist (score (fst st) c)"
  shows "score_spec (hist @ (case attempt_of c p of None \<Rightarrow> [] | Some a \<Rightarrow> [a]))
           (score (fst (board_step succ fail st p)) c)"
proof (cases p)
  case (ObserveSuccess c')
  then show ?thesis
    using assms by (cases st) (auto simp: score_succ score_spec_success)
next
  case (ObserveFailure now c' cat)
  then show ?thesis
    using assms by (cases st) (auto simp: score_fail score_spec_failure)
qed

lemma score_run:
  assumes "gen_range_ok gen_range" and "score_spec [] (score b c)"
  shows "score_spec (candidate_history c ops)
           (score (fst (foldl (board_step succ fail) (b, rng) ops)) c)"
proof (induction ops rule: rev_induct)
  case Nil
  then show ?case
    using assms(2) by simp
next
  case (snoc p ops)
  then show ?case
    using score_step [OF assms(1) snoc.IH, of p] by simp
qed

lemma quarantined_run:
  assumes "gen_range_ok gen_range" and "score_spec [] (score b c)"
    and "is_quarantined (score (fst (foldl (board_step succ fail) (b, rng) ops)) c) now"
  shows "3 \<le> failures_since_success (candidate_history c ops)"
  using is_quarantined_spec(1) [OF score_run [OF assms(1,2)] assms(3)] .

end

lemma score_of_update [simp]: "score_of (b(c \<mapsto> s)) c' = (if c' = c then s else score_of b c')"
  by (simp add: score_of_def)

interpretation sb: observation_board score_of observe_success "observe_failure gen_range" gen_range
  for gen_range
  by unfold_locales
    (auto simp: observe_success_def observe_failure_def case_prod_beta Let_def)

lemma score_of_new [simp]: "score_of ScoreBoard_new c = Score_default"
  by (simp add: score_of_def ScoreBoard_new_def)

subsection \<open>Selection\<close>

text \<open>A weighted draw returns a valid index when there is a weight, all are non-negative and
  not all are zero.\<close>

definition weighted_sample_ok :: "(rat list \<Rightarrow> 'g \<Rightarrow> (nat \<times> 'g) option) \<Rightarrow> bool" where
  "weighted_sample_ok ws \<longleftrightarrow>
     (\<forall>weights rng. weights \<noteq> [] \<and> list_all (\<lambda>w. 0 \<le> w) weights \<and> list_ex (\<lambda>w. 0 < w) weights \<longrightarrow>
        (\<exists>i rng'. ws weights rng = Some (i, rng') \<and> i < length weights))"

lemma selection_weight_pos: "0 < selection_weight s"
  using SCORE_FLOOR_pos by (simp add: selection_weight_def less_max_iff_disj)

lemma weighted_sample_eligible:
  assumes "weighted_sample_ok ws" "cs \<noteq> []"
  obtains i rng' where "ws (map (\<lambda>c. selection_weight (score_of b c)) cs) rng = Some (i, rng')"
    and "i < length cs"
proof -
  let ?w = "map (\<lambda>c. selection_weight (score_of b c)) cs"
  have "?w \<noteq> []" "list_all (\<lambda>w. 0 \<le> w) ?w" "list_ex (\<lambda>w. 0 < w) ?w"
    using assms(2) selection_weight_pos less_imp_le
    by (auto simp: list_all_iff list_ex_iff neq_Nil_conv)
  with assms(1) that show ?thesis
    unfolding weighted_sample_ok_def by (metis length_map)
qed

lemma select_next_cases:
  assumes "weighted_sample_ok ws"
  shows "(\<exists>c rng'. select_next ws now b cs rng = Some (Some c, rng') \<and> c \<in> set cs \<and>
            \<not> is_quarantined (score_of b c) now) \<or>
         (select_next ws now b cs rng = Some (None, rng) \<and>
            (\<forall>c\<in>set cs. is_quarantined (score_of b c) now))"
proof (cases "filter (\<lambda>c. \<not> is_quarantined (score_of b c) now) cs = []")
  case True
  then show ?thesis
    by (auto simp: select_next_def filter_empty_conv)
next
  case False
  let ?el = "filter (\<lambda>c. \<not> is_quarantined (score_of b c) now) cs"
  from weighted_sample_eligible [OF assms False] obtain i rng' where
    s: "ws (map (\<lambda>c. selection_weight (score_of b c)) ?el) rng = Some (i, rng')" "i < length ?el" .
  then have "select_next ws now b cs rng = Some (Some (?el ! i), rng')"
    using False by (simp add: select_next_def Let_def panic_simps)
  moreover have "?el ! i \<in> set ?el"
    using s(2) by (rule nth_mem)
  ultimately show ?thesis
    by auto
qed

subsection \<open>The kill switch over any backend\<close>

locale switch_backend =
  fixes apply_policy :: "RoutePolicy \<Rightarrow> 'b \<Rightarrow> 'b"
    and current_policy :: "'b \<Rightarrow> RoutePolicy"
  assumes current_apply: "current_policy (apply_policy p b) = p"
begin

lemma policy_established:
  "KillSwitch_policy current_policy (on_secure_route_established apply_policy ks) = SecureRouteActive"
  by (simp add: KillSwitch_policy_def on_secure_route_established_def current_apply)

lemma policy_lost:
  "KillSwitch_policy current_policy (on_secure_route_lost apply_policy ks) = SecureRouteUnavailable"
  by (simp add: KillSwitch_policy_def on_secure_route_lost_def current_apply)

end

interpretation mock: switch_backend MockBackend_apply mb_policy
  by unfold_locales (simp add: MockBackend_apply_def)

datatype route_signal = Established | Lost

fun ks_step :: "MockBackend KillSwitch \<Rightarrow> route_signal \<Rightarrow> MockBackend KillSwitch" where
  "ks_step ks Established = on_secure_route_established MockBackend_apply ks"
| "ks_step ks Lost = on_secure_route_lost MockBackend_apply ks"

fun signal_policy :: "route_signal \<Rightarrow> RoutePolicy" where
  "signal_policy Established = SecureRouteActive"
| "signal_policy Lost = SecureRouteUnavailable"

lemma ks_step_log:
  "mb_apply_log (ks_backend (ks_step ks sig)) = mb_apply_log (ks_backend ks) @ [signal_policy sig]"
  by (cases sig) (simp_all add: on_secure_route_established_def on_secure_route_lost_def
      MockBackend_apply_def)

lemma ks_step_policy: "KillSwitch_policy mb_policy (ks_step ks sig) = signal_policy sig"
  by (cases sig) (simp_all add: mock.policy_established mock.policy_lost)

subsection \<open>Properties\<close>

text \<open>C3. After any sequence of observations of any candidates, a candidate's score is what its own
  remote observations say: the success average is an \<^verbatim>\<open>f32\<close> in [0,1] despite rounding, the
  attempt and failure counters are the saturated counts, and a quarantine exists exactly
  when the last three or more attempts failed, ending between 60 and 300 seconds after
  the last failure. Observations of other candidates and local network failures leave it
  untouched.\<close>

theorem score_board_refines_history:
  assumes "gen_range_ok gen_range"
  shows "score_spec (candidate_history c ops)
    (score_of (fst (foldl (board_step observe_success (observe_failure gen_range))
       (ScoreBoard_new, rng) ops)) c)"
  by (rule sb.score_run [OF assms]) (simp add: score_spec_default)

definition low_jitter :: "u64 \<Rightarrow> u64 \<Rightarrow> unit \<Rightarrow> u64 \<times> unit" where
  "low_jitter lo hi rng = (lo, rng)"

lemma low_jitter_ok: "gen_range_ok low_jitter"
  by (simp add: gen_range_ok_def low_jitter_def)

theorem score_board_refines_history_witness:
  "let c = \<lparr>cand_transport = TransportId ''direct-tls'', cand_endpoint = EndpointId ''r1''\<rparr>;
       ops = [ObserveSuccess c, ObserveFailure 5 c TcpReset, ObserveFailure 6 c LocalNetworkFailure]
   in unat (total_attempts (score_of (fst (foldl (board_step observe_success
        (observe_failure low_jitter)) (ScoreBoard_new, ()) ops)) c)) = 2"
  using score_board_refines_history [OF low_jitter_ok, of
      "\<lparr>cand_transport = TransportId ''direct-tls'', cand_endpoint = EndpointId ''r1''\<rparr>"
      "[ObserveSuccess \<lparr>cand_transport = TransportId ''direct-tls'', cand_endpoint = EndpointId ''r1''\<rparr>,
        ObserveFailure 5 \<lparr>cand_transport = TransportId ''direct-tls'', cand_endpoint = EndpointId ''r1''\<rparr> TcpReset,
        ObserveFailure 6 \<lparr>cand_transport = TransportId ''direct-tls'', cand_endpoint = EndpointId ''r1''\<rparr>
          LocalNetworkFailure]"]
  by (simp add: Let_def score_spec_def candidate_history_def List.map_filter_def)

text \<open>After any sequence of observations, three or more failures since the last success keep a
  candidate quarantined for at least 60 seconds after the last of them, at most 300
  seconds; a candidate whose last attempt succeeded is never quarantined.\<close>

theorem quarantine_window:
  assumes "gen_range_ok gen_range"
    and "s = score_of (fst (foldl (board_step observe_success (observe_failure gen_range))
               (ScoreBoard_new, rng) ops)) c"
    and "last (candidate_history c ops) = Some (t, cat)"
  shows "(is_quarantined s now \<longrightarrow>
            3 \<le> failures_since_success (candidate_history c ops) \<and> now < t + QUARANTINE_MAX) \<and>
         (3 \<le> failures_since_success (candidate_history c ops) \<and> now < t + QUARANTINE_MIN \<longrightarrow>
            is_quarantined s now)"
proof -
  have "score_spec (candidate_history c ops) s"
    unfolding assms(2) by (rule sb.score_run [OF assms(1)]) (simp add: score_spec_default)
  from is_quarantined_spec [OF this] assms(3) show ?thesis
    by blast
qed

theorem quarantine_window_witness:
  "let c = \<lparr>cand_transport = TransportId ''direct-tls'', cand_endpoint = EndpointId ''r1''\<rparr>
   in is_quarantined (score_of (fst (foldl (board_step observe_success (observe_failure low_jitter))
        (ScoreBoard_new, ()) (replicate 3 (ObserveFailure 7 c TcpTimeout)))) c) 59999999999"
  using quarantine_window [OF low_jitter_ok refl, of
      "\<lparr>cand_transport = TransportId ''direct-tls'', cand_endpoint = EndpointId ''r1''\<rparr>"
      "replicate 3 (ObserveFailure 7
         \<lparr>cand_transport = TransportId ''direct-tls'', cand_endpoint = EndpointId ''r1''\<rparr> TcpTimeout)"
      7 TcpTimeout "()" 59999999999]
  by (simp add: candidate_history_def List.map_filter_def failures_since_success_def
      numeral_3_eq_3 QUARANTINE_MIN_def duration_from_secs_def Let_def)

text \<open>Selection never indexes out of bounds; it returns a candidate of the list that is not
  quarantined whenever there is one, and nothing exactly when every candidate is
  quarantined (or the list is empty).\<close>

theorem select_next_eligible:
  assumes "weighted_sample_ok ws"
  shows "(\<exists>c rng'. select_next ws now b cs rng = Some (Some c, rng') \<and> c \<in> set cs \<and>
            \<not> is_quarantined (score_of b c) now) \<or>
         (select_next ws now b cs rng = Some (None, rng) \<and>
            (\<forall>c\<in>set cs. is_quarantined (score_of b c) now))"
  using assms by (rule select_next_cases)

definition first_index :: "rat list \<Rightarrow> unit \<Rightarrow> (nat \<times> unit) option" where
  "first_index weights rng = (if weights = [] then None else Some (0, rng))"

lemma first_index_ok: "weighted_sample_ok first_index"
  by (auto simp: weighted_sample_ok_def first_index_def)

theorem select_next_eligible_witness:
  "\<exists>c rng'. select_next first_index 3 ScoreBoard_new
       [\<lparr>cand_transport = TransportId ''direct-tls'', cand_endpoint = EndpointId ''r1''\<rparr>] () =
     Some (Some c, rng') \<and> \<not> is_quarantined (score_of ScoreBoard_new c) 3"
  using select_next_eligible [OF first_index_ok, of 3 ScoreBoard_new
      "[\<lparr>cand_transport = TransportId ''direct-tls'', cand_endpoint = EndpointId ''r1''\<rparr>]" "()"]
  by (auto simp: is_quarantined_def Score_default_def)

text \<open>For every sequence of route signals, the kill switch blocks unless the last signal was
  that a secure route is up (so it blocks before the first signal), and the backend saw
  every signal exactly once, in order.\<close>

theorem kill_switch_blocks_without_route:
  "let ks = foldl ks_step (KillSwitch_new MockBackend_new) sigs
   in (KillSwitch_policy mb_policy ks = SecureRouteActive \<longleftrightarrow> (\<exists>pre. sigs = pre @ [Established])) \<and>
      mb_apply_log (ks_backend ks) = map signal_policy sigs"
proof (induction sigs rule: rev_induct)
  case Nil
  then show ?case
    by (simp add: KillSwitch_new_def MockBackend_new_def KillSwitch_policy_def)
next
  case (snoc sig sigs)
  then show ?case
    by (cases sig) (simp_all add: Let_def ks_step_policy ks_step_log del: ks_step.simps)
qed

end
