(* ===== verification/File_System.thy ===== *)
theory File_System
  imports Vpn_Prelude "HOL-Library.Sublist"
begin

unbundle bit_operations_syntax

text \<open>
  The file system as the sources use it through \<^verbatim>\<open>std::fs\<close>. A path is the list of its
  normal components from the root; a node has its content, permission bits and owner. An
  operation takes the world and returns its result with the new world. Every operation
  first consults the list of pending faults: a fault makes it fail with that error, after
  an arbitrary part of a write, which is how a full disk, a permission denial or an I/O
  error at any point of a sequence enters the model. The lemmas give what each operation
  changes and what it leaves alone.
\<close>

subsection \<open>Paths\<close>

type_synonym path = "string list"

definition path_parent :: "path \<Rightarrow> path option" where
  "path_parent p = (if p = [] then None else Some (butlast p))"

definition path_file_name :: "path \<Rightarrow> string option" where
  "path_file_name p = (if p = [] then None else Some (last p))"

definition path_set_file_name :: "path \<Rightarrow> string \<Rightarrow> path" where
  "path_set_file_name p name = (if p = [] then [name] else butlast p @ [name])"

definition path_join :: "path \<Rightarrow> path \<Rightarrow> path" where
  "path_join p q = p @ q"

text \<open>\<^verbatim>\<open>path.file_name().and_then(|n| n.to_str()).unwrap_or(d)\<close>\<close>

definition file_name_or :: "string \<Rightarrow> path \<Rightarrow> string" where
  "file_name_or d p =
     (case path_file_name p of None \<Rightarrow> d | Some n \<Rightarrow> if rust_str n then n else d)"

subsection \<open>Nodes and the world\<close>

text \<open>Permission bits, named by their octal value.\<close>

abbreviation mode_0600 :: u32 where "mode_0600 \<equiv> 384"
abbreviation mode_0640 :: u32 where "mode_0640 \<equiv> 416"
abbreviation mode_0644 :: u32 where "mode_0644 \<equiv> 420"
abbreviation mode_0666 :: u32 where "mode_0666 \<equiv> 438"
abbreviation mode_0700 :: u32 where "mode_0700 \<equiv> 448"
abbreviation mode_0750 :: u32 where "mode_0750 \<equiv> 488"
abbreviation mode_0777 :: u32 where "mode_0777 \<equiv> 511"
abbreviation mode_0077 :: u32 where "mode_0077 \<equiv> 63"
abbreviation mode_2000 :: u32 where "mode_2000 \<equiv> 1024"

record inode =
  i_dir :: bool
  i_content :: "u8 list"
  i_mode :: u32
  i_uid :: u32
  i_gid :: u32

datatype fault = NoFault | Fault io_error nat

record world =
  w_fs :: "path \<Rightarrow> inode option"
  w_faults :: "fault list"
  w_pid :: nat
  w_unix_time :: u64
  w_euid :: u32
  w_egid :: u32
  w_umask :: u32

type_synonym 'a io = "world \<Rightarrow> (io_error + 'a) \<times> world"

text \<open>The combinators sequence operations over any state \<open>'w\<close>.\<close>

definition return_io :: "'a \<Rightarrow> 'w \<Rightarrow> ('e + 'a) \<times> 'w" where
  "return_io x w = (Inr x, w)"

definition fail_io :: "'e \<Rightarrow> 'w \<Rightarrow> ('e + 'a) \<times> 'w" where
  "fail_io e w = (Inl e, w)"

definition bind_io ::
    "('w \<Rightarrow> ('e + 'a) \<times> 'w) \<Rightarrow> ('a \<Rightarrow> 'w \<Rightarrow> ('e + 'b) \<times> 'w) \<Rightarrow> 'w \<Rightarrow> ('e + 'b) \<times> 'w"
  where
  "bind_io m f w = (case m w of (Inl e, w') \<Rightarrow> (Inl e, w') | (Inr x, w') \<Rightarrow> f x w')"

definition map_err_io ::
    "('e \<Rightarrow> 'f) \<Rightarrow> ('w \<Rightarrow> ('e + 'a) \<times> 'w) \<Rightarrow> 'w \<Rightarrow> ('f + 'a) \<times> 'w" where
  "map_err_io h m w = (case m w of (r, w') \<Rightarrow> (map_err h r, w'))"

text \<open>\<^verbatim>\<open>let _ = m;\<close> and matching on the result of a fallible step.\<close>

definition ignore_io :: "('w \<Rightarrow> ('e + 'a) \<times> 'w) \<Rightarrow> 'w \<Rightarrow> ('f + unit) \<times> 'w" where
  "ignore_io m w = (Inr (), snd (m w))"

definition try_io ::
    "('w \<Rightarrow> ('e + 'a) \<times> 'w) \<Rightarrow> (('e + 'a) \<Rightarrow> 'w \<Rightarrow> ('f + 'b) \<times> 'w)
      \<Rightarrow> 'w \<Rightarrow> ('f + 'b) \<times> 'w" where
  "try_io m f w = (case m w of (r, w') \<Rightarrow> f r w')"

definition lift_r :: "('e + 'a) \<Rightarrow> 'w \<Rightarrow> ('e + 'a) \<times> 'w" where
  "lift_r r w = (r, w)"

subsection \<open>Primitive operations\<close>

text \<open>\<open>prim partial run\<close> takes the next pending fault; without one it does \<open>run\<close>, with one it
  fails after \<open>partial\<close> of the work.\<close>

definition prim ::
    "(nat \<Rightarrow> world \<Rightarrow> world) \<Rightarrow> (world \<Rightarrow> (io_error + 'a) \<times> world) \<Rightarrow> 'a io" where
  "prim part run w =
     (case w_faults w of
        [] \<Rightarrow> run w
      | NoFault # fs \<Rightarrow> run (w\<lparr>w_faults := fs\<rparr>)
      | Fault e k # fs \<Rightarrow> (Inl e, part k (w\<lparr>w_faults := fs\<rparr>)))"

definition enoent :: io_error where
  "enoent = io_error_new NotFound ''No such file or directory (os error 2)''"

definition eexist :: io_error where
  "eexist = io_error_new AlreadyExists ''File exists (os error 17)''"

definition eisdir :: io_error where
  "eisdir = io_error_new OtherKind ''Is a directory (os error 21)''"

definition put_node :: "path \<Rightarrow> inode option \<Rightarrow> world \<Rightarrow> world" where
  "put_node p n w = w\<lparr>w_fs := (w_fs w)(p := n)\<rparr>"

definition is_dir_at :: "path \<Rightarrow> world \<Rightarrow> bool" where
  "is_dir_at p w \<longleftrightarrow> (case w_fs w p of Some n \<Rightarrow> i_dir n | None \<Rightarrow> False)"

text \<open>A new node belongs to the process; in a directory with the set-group-ID bit it takes
  the group of the directory.\<close>

definition new_node :: "path \<Rightarrow> bool \<Rightarrow> u32 \<Rightarrow> world \<Rightarrow> inode" where
  "new_node p dir mode w =
     \<lparr>i_dir = dir, i_content = [], i_mode = mode AND NOT (w_umask w), i_uid = w_euid w,
      i_gid = (case w_fs w (butlast p) of
                 Some d \<Rightarrow> if i_mode d AND mode_2000 \<noteq> 0 then i_gid d else w_egid w
               | None \<Rightarrow> w_egid w)\<rparr>"

text \<open>\<^verbatim>\<open>Path::exists\<close> answers \<^verbatim>\<open>false\<close> on an error.\<close>

definition path_exists :: "path \<Rightarrow> world \<Rightarrow> ('e + bool) \<times> world" where
  "path_exists p =
     try_io (prim (\<lambda>_ w. w) (\<lambda>w. (Inr (w_fs w p \<noteq> None), w)))
       (\<lambda>r. return_io (case r of Inl _ \<Rightarrow> False | Inr b \<Rightarrow> b))"

definition metadata :: "path \<Rightarrow> inode io" where
  "metadata p = prim (\<lambda>_ w. w) (\<lambda>w. (ok_or enoent (w_fs w p), w))"

definition fs_read :: "path \<Rightarrow> (u8 list) io" where
  "fs_read p = prim (\<lambda>_ w. w)
     (\<lambda>w. (case w_fs w p of
             None \<Rightarrow> Inl enoent
           | Some n \<Rightarrow> if i_dir n then Inl eisdir else Inr (i_content n), w))"

text \<open>\<^verbatim>\<open>open\<close> with \<^verbatim>\<open>write\<close>, \<^verbatim>\<open>create\<close> and \<^verbatim>\<open>truncate\<close>: the mode only applies to a file it creates.\<close>

definition open_truncate :: "path \<Rightarrow> u32 \<Rightarrow> unit io" where
  "open_truncate p mode = prim (\<lambda>_ w. w)
     (\<lambda>w. case w_fs w p of
            Some n \<Rightarrow> if i_dir n then (Inl eisdir, w)
                     else (Inr (), put_node p (Some (n\<lparr>i_content := []\<rparr>)) w)
          | None \<Rightarrow> if is_dir_at (butlast p) w
                    then (Inr (), put_node p (Some (new_node p False mode w)) w)
                    else (Inl enoent, w))"

definition open_create_new :: "path \<Rightarrow> u32 \<Rightarrow> unit io" where
  "open_create_new p mode = prim (\<lambda>_ w. w)
     (\<lambda>w. case w_fs w p of
            Some n \<Rightarrow> (Inl eexist, w)
          | None \<Rightarrow> if is_dir_at (butlast p) w
                    then (Inr (), put_node p (Some (new_node p False mode w)) w)
                    else (Inl enoent, w))"

definition append_bytes :: "path \<Rightarrow> u8 list \<Rightarrow> world \<Rightarrow> world" where
  "append_bytes p bs w =
     (case w_fs w p of
        Some n \<Rightarrow> put_node p (Some (n\<lparr>i_content := i_content n @ bs\<rparr>)) w
      | None \<Rightarrow> w)"

definition write_all :: "path \<Rightarrow> u8 list \<Rightarrow> unit io" where
  "write_all p bs =
     prim (\<lambda>k. append_bytes p (take k bs)) (\<lambda>w. (Inr (), append_bytes p bs w))"

definition sync_all :: "path \<Rightarrow> unit io" where
  "sync_all p = prim (\<lambda>_ w. w) (\<lambda>w. (Inr (), w))"

definition fs_rename :: "path \<Rightarrow> path \<Rightarrow> unit io" where
  "fs_rename a b = prim (\<lambda>_ w. w)
     (\<lambda>w. case w_fs w a of
            None \<Rightarrow> (Inl enoent, w)
          | Some n \<Rightarrow>
              if is_dir_at b w then (Inl eisdir, w)
              else if \<not> is_dir_at (butlast b) w then (Inl enoent, w)
              else (Inr (), w\<lparr>w_fs := (w_fs w)(a := None, b := Some n)\<rparr>))"

definition remove_file :: "path \<Rightarrow> unit io" where
  "remove_file p = prim (\<lambda>_ w. w)
     (\<lambda>w. case w_fs w p of
            None \<Rightarrow> (Inl enoent, w)
          | Some n \<Rightarrow> if i_dir n then (Inl eisdir, w) else (Inr (), put_node p None w))"

definition chown :: "path \<Rightarrow> u32 \<Rightarrow> u32 \<Rightarrow> unit io" where
  "chown p uid gid = prim (\<lambda>_ w. w)
     (\<lambda>w. case w_fs w p of
            None \<Rightarrow> (Inl enoent, w)
          | Some n \<Rightarrow> (Inr (), put_node p (Some (n\<lparr>i_uid := uid, i_gid := gid\<rparr>)) w))"

definition set_permissions :: "path \<Rightarrow> u32 \<Rightarrow> unit io" where
  "set_permissions p mode = prim (\<lambda>_ w. w)
     (\<lambda>w. case w_fs w p of
            None \<Rightarrow> (Inl enoent, w)
          | Some n \<Rightarrow> (Inr (), put_node p (Some (n\<lparr>i_mode := mode\<rparr>)) w))"

text \<open>\<^verbatim>\<open>create_dir_all\<close> makes every missing directory on the way; one fault may stop it after
  some of them.\<close>

fun mkdirs :: "path list \<Rightarrow> world \<Rightarrow> (io_error + unit) \<times> world" where
  "mkdirs [] w = (Inr (), w)"
| "mkdirs (p # ps) w =
     (case w_fs w p of
        Some n \<Rightarrow> if i_dir n then mkdirs ps w else (Inl eexist, w)
      | None \<Rightarrow> mkdirs ps (put_node p (Some (new_node p True mode_0777 w)) w))"

definition create_dir_all :: "path \<Rightarrow> unit io" where
  "create_dir_all p =
     prim (\<lambda>k w. snd (mkdirs (take k (prefixes p)) w)) (mkdirs (prefixes p))"

text \<open>\<^verbatim>\<open>std::fs::write\<close> creates or truncates with the default mode and writes.\<close>

definition fs_write :: "path \<Rightarrow> u8 list \<Rightarrow> unit io" where
  "fs_write p bs = bind_io (open_truncate p mode_0666) (\<lambda>_. write_all p bs)"

subsection \<open>Frames: what an operation may touch\<close>

definition frame :: "path set \<Rightarrow> (world \<Rightarrow> ('e + 'a) \<times> world) \<Rightarrow> bool" where
  "frame S m \<longleftrightarrow>
     (\<forall>w. (\<forall>p. p \<notin> S \<longrightarrow> w_fs (snd (m w)) p = w_fs w p) \<and>
          w_pid (snd (m w)) = w_pid w \<and> w_unix_time (snd (m w)) = w_unix_time w \<and>
          w_euid (snd (m w)) = w_euid w \<and> w_egid (snd (m w)) = w_egid w \<and>
          w_umask (snd (m w)) = w_umask w)"

named_theorems frame_intros \<open>frames of the operations\<close>

lemma frame_untouched: "frame S m \<Longrightarrow> p \<notin> S \<Longrightarrow> w_fs (snd (m w)) p = w_fs w p"
  by (simp add: frame_def)

lemma frame_pid: "frame S m \<Longrightarrow> w_pid (snd (m w)) = w_pid w"
  by (simp add: frame_def)

lemma frame_mono: "frame S m \<Longrightarrow> S \<subseteq> T \<Longrightarrow> frame T m"
  by (auto simp: frame_def)

lemma frame_return [frame_intros]: "frame S (return_io x)"
  by (simp add: frame_def return_io_def)

lemma frame_fail [frame_intros]: "frame S (fail_io x)"
  by (simp add: frame_def fail_io_def)

lemma frame_lift_r [frame_intros]: "frame S (lift_r r)"
  by (simp add: frame_def lift_r_def)

lemma frame_bind [frame_intros]:
  "frame S m \<Longrightarrow> (\<And>x. frame S (f x)) \<Longrightarrow> frame S (bind_io m f)"
  by (auto simp: frame_def bind_io_def split: prod.split sum.split)
    (metis snd_conv)+

lemma frame_map_err [frame_intros]: "frame S m \<Longrightarrow> frame S (map_err_io h m)"
  by (auto simp: frame_def map_err_io_def split: prod.split) (metis snd_conv)+

lemma frame_ignore [frame_intros]: "frame S m \<Longrightarrow> frame S (ignore_io m)"
  by (auto simp: frame_def ignore_io_def)

lemma frame_try [frame_intros]:
  "frame S m \<Longrightarrow> (\<And>r. frame S (f r)) \<Longrightarrow> frame S (try_io m f)"
  by (auto simp: frame_def try_io_def split: prod.split) (metis snd_conv)+

lemma frame_prim:
  assumes "\<And>k w. (\<forall>p. p \<notin> S \<longrightarrow> w_fs (part k w) p = w_fs w p) \<and> w_pid (part k w) = w_pid w \<and>
      w_unix_time (part k w) = w_unix_time w \<and> w_euid (part k w) = w_euid w \<and>
      w_egid (part k w) = w_egid w \<and> w_umask (part k w) = w_umask w"
    and "frame S run"
  shows "frame S (prim part run)"
  using assms
  by (auto simp: frame_def prim_def split: list.split fault.split)

lemma put_node_simps [simp]:
  "w_fs (put_node p n w) = (w_fs w)(p := n)"
  "w_pid (put_node p n w) = w_pid w"
  "w_unix_time (put_node p n w) = w_unix_time w"
  "w_euid (put_node p n w) = w_euid w"
  "w_egid (put_node p n w) = w_egid w"
  "w_umask (put_node p n w) = w_umask w"
  "w_faults (put_node p n w) = w_faults w"
  by (simp_all add: put_node_def)

lemma frame_metadata [frame_intros]: "frame S (metadata p)"
  unfolding metadata_def by (rule frame_prim) (simp_all add: frame_def)

lemma frame_path_exists [frame_intros]: "frame S (path_exists p)"
  unfolding path_exists_def
  by (intro frame_intros, rule frame_prim) (simp_all add: frame_def)

lemma frame_read [frame_intros]: "frame S (fs_read p)"
  unfolding fs_read_def by (rule frame_prim) (simp_all add: frame_def)

lemma frame_sync [frame_intros]: "frame S (sync_all p)"
  unfolding sync_all_def by (rule frame_prim) (simp_all add: frame_def)

lemma frame_open_truncate [frame_intros]: "p \<in> S \<Longrightarrow> frame S (open_truncate p mode)"
  unfolding open_truncate_def
  by (rule frame_prim) (auto simp: frame_def split: option.split)

lemma frame_open_create_new [frame_intros]: "p \<in> S \<Longrightarrow> frame S (open_create_new p mode)"
  unfolding open_create_new_def
  by (rule frame_prim) (auto simp: frame_def split: option.split)

lemma frame_write_all [frame_intros]: "p \<in> S \<Longrightarrow> frame S (write_all p bs)"
  unfolding write_all_def
  by (rule frame_prim) (auto simp: frame_def append_bytes_def split: option.split)

lemma frame_rename [frame_intros]: "a \<in> S \<Longrightarrow> b \<in> S \<Longrightarrow> frame S (fs_rename a b)"
  unfolding fs_rename_def
  by (rule frame_prim) (auto simp: frame_def split: option.split)

lemma frame_remove_file [frame_intros]: "p \<in> S \<Longrightarrow> frame S (remove_file p)"
  unfolding remove_file_def
  by (rule frame_prim) (auto simp: frame_def split: option.split)

lemma frame_chown [frame_intros]: "p \<in> S \<Longrightarrow> frame S (chown p u g)"
  unfolding chown_def by (rule frame_prim) (auto simp: frame_def split: option.split)

lemma frame_set_permissions [frame_intros]: "p \<in> S \<Longrightarrow> frame S (set_permissions p m)"
  unfolding set_permissions_def by (rule frame_prim) (auto simp: frame_def split: option.split)

lemma mkdirs_untouched: "p \<notin> set ps \<Longrightarrow> w_fs (snd (mkdirs ps w)) p = w_fs w p"
  by (induction ps w rule: mkdirs.induct) (auto split: option.split)

lemma mkdirs_const:
  "w_pid (snd (mkdirs ps w)) = w_pid w" "w_unix_time (snd (mkdirs ps w)) = w_unix_time w"
  "w_euid (snd (mkdirs ps w)) = w_euid w" "w_egid (snd (mkdirs ps w)) = w_egid w"
  "w_umask (snd (mkdirs ps w)) = w_umask w"
  by (induction ps w rule: mkdirs.induct; auto split: option.split)+

lemma frame_create_dir_all [frame_intros]:
  "set (prefixes p) \<subseteq> S \<Longrightarrow> frame S (create_dir_all p)"
  unfolding create_dir_all_def
  by (rule frame_prim) (auto simp: frame_def mkdirs_const dest: in_set_takeD
      intro!: mkdirs_untouched)

lemma frame_fs_write [frame_intros]: "p \<in> S \<Longrightarrow> frame S (fs_write p bs)"
  unfolding fs_write_def by (intro frame_intros)

subsection \<open>Results\<close>

lemma fs_write_content:
  "fs_write p bs w = (Inr (), w') \<Longrightarrow> \<exists>n. w_fs w' p = Some n \<and> \<not> i_dir n \<and> i_content n = bs"
  by (auto simp: fs_write_def bind_io_def open_truncate_def write_all_def prim_def
      append_bytes_def new_node_def
      split: prod.splits sum.splits list.splits fault.splits option.splits if_splits)

lemma fs_read_result:
  assumes "fs_read p w = (Inr bs, w')"
  shows "\<exists>n. w_fs w p = Some n \<and> i_content n = bs" "w_fs w' = w_fs w" "w_unix_time w' = w_unix_time w"
  using assms
  by (auto simp: fs_read_def prim_def split: list.splits fault.splits option.splits if_splits)

lemma path_exists_result:
  assumes "path_exists p w = (r, w')"
  shows "w_fs w' = w_fs w" "w_unix_time w' = w_unix_time w" "\<exists>b. r = Inr b"
  using assms
  by (auto simp: path_exists_def try_io_def prim_def return_io_def
      split: list.splits fault.splits)

named_theorems io_simps \<open>when a composed operation succeeds\<close>

lemma bind_io_eq_Inr [io_simps]:
  "bind_io m f w = (Inr y, w') \<longleftrightarrow> (\<exists>x w1. m w = (Inr x, w1) \<and> f x w1 = (Inr y, w'))"
  by (auto simp: bind_io_def split: prod.splits sum.splits)

lemma map_err_io_eq_Inr [io_simps]: "map_err_io h m w = (Inr y, w') \<longleftrightarrow> m w = (Inr y, w')"
  by (auto simp: map_err_io_def map_err_eq_Inr split: prod.splits)

lemma lift_r_eq_Inr [io_simps]: "lift_r r w = (Inr y, w') \<longleftrightarrow> r = Inr y \<and> w' = w"
  by (auto simp: lift_r_def)

lemma return_io_eq_Inr [io_simps]: "return_io x w = (Inr y, w') \<longleftrightarrow> y = x \<and> w' = w"
  by (auto simp: return_io_def)

lemma fail_io_neq_Inr [io_simps]: "fail_io e w = (Inr y, w') \<longleftrightarrow> False"
  by (simp add: fail_io_def)

lemma ignore_io_eq_Inr [io_simps]: "ignore_io m w = (Inr y, w') \<longleftrightarrow> w' = snd (m w)"
  by (auto simp: ignore_io_def)

lemma try_io_eq [io_simps]: "try_io m f w = r \<longleftrightarrow> (\<exists>x w1. m w = (x, w1) \<and> f x w1 = r)"
  by (auto simp: try_io_def split: prod.splits)

lemma open_create_new_result:
  assumes "open_create_new p mode w = (Inr (), w')"
  shows "w_fs w p = None" "w_fs w' p = Some (new_node p False mode w)"
  using assms
  by (auto simp: open_create_new_def prim_def new_node_def
      split: list.splits fault.splits option.splits if_splits)

lemma open_truncate_result:
  assumes "open_truncate p mode w = (Inr (), w')"
  shows "w_fs w' p = Some (case w_fs w p of None \<Rightarrow> new_node p False mode w | Some n \<Rightarrow> n\<lparr>i_content := []\<rparr>)"
    and "w_fs w p = Some n \<Longrightarrow> \<not> i_dir n"
  using assms
  by (auto simp: open_truncate_def prim_def new_node_def
      split: list.splits fault.splits option.splits if_splits)

lemma write_all_result:
  assumes "write_all p bs w = (Inr (), w')" "w_fs w p = Some n"
  shows "w_fs w' p = Some (n\<lparr>i_content := i_content n @ bs\<rparr>)"
  using assms
  by (auto simp: write_all_def prim_def append_bytes_def split: list.splits fault.splits)

lemma new_node_simps [simp]:
  "i_dir (new_node p d m w) = d" "i_content (new_node p d m w) = []"
  "i_mode (new_node p d m w) = m AND NOT (w_umask w)"
  by (simp_all add: new_node_def)

lemma mode_0600_private: "(mode_0600 AND NOT u) AND mode_0077 = 0" for u :: u32
proof -
  have "(mode_0600 AND NOT u) AND mode_0077 = NOT u AND (mode_0600 AND mode_0077)"
    by (simp only: ac_simps)
  then show ?thesis
    by simp
qed

lemma frame_step:
  "frame S m \<Longrightarrow> m w = (r, w') \<Longrightarrow> p \<notin> S \<Longrightarrow> w_fs w' p = w_fs w p"
  using frame_untouched [of S m p w] by simp

end
