(* ===== verification/Crypto_Hierarchy.thy ===== *)
theory Crypto_Hierarchy
  imports File_System
begin

text \<open>
  \<^verbatim>\<open>crates/crypto\<close>: key pairs, signature checks, key files, and the certificates of the
  three-tier signing hierarchy. The signature scheme and the hexadecimal codec are
  third-party code: they are the parameters \<open>ed\<close> and \<open>hx\<close>, and \<open>ed25519_ok\<close> and \<open>hex_ok\<close> state
  the documented behaviour the sources rely on. A 32-byte key or 64-byte signature is the
  list of its bytes.
\<close>

subsection \<open>External primitives\<close>

record ed25519 =
  ed_public :: "u8 list \<Rightarrow> u8 list"
  ed_sign :: "u8 list \<Rightarrow> u8 list \<Rightarrow> u8 list"
  ed_check_key :: "u8 list \<Rightarrow> string option"
  ed_verify :: "u8 list \<Rightarrow> u8 list \<Rightarrow> u8 list \<Rightarrow> bool"

text \<open>\<open>ed_check_key\<close> is the error of decoding a public key, if any.\<close>

definition ed25519_ok :: "ed25519 \<Rightarrow> bool" where
  "ed25519_ok ed \<longleftrightarrow>
     (\<forall>sk. length sk = 32 \<longrightarrow>
        length (ed_public ed sk) = 32 \<and> ed_check_key ed (ed_public ed sk) = None \<and>
        (\<forall>m. length (ed_sign ed sk m) = 64 \<and> ed_verify ed (ed_public ed sk) m (ed_sign ed sk m)))"

record hex_codec =
  hex_encode :: "u8 list \<Rightarrow> string"
  hex_decode :: "string \<Rightarrow> string + u8 list"

definition hex_ok :: "hex_codec \<Rightarrow> bool" where
  "hex_ok hx \<longleftrightarrow>
     (\<forall>bs. list_all plain_char (hex_encode hx bs) \<and> hex_decode hx (hex_encode hx bs) = Inr bs)"

subsection \<open>Keys\<close>

type_synonym PublicKey = "u8 list"

type_synonym KeyPair = "u8 list"

datatype CryptoError =
    InvalidSignature
  | MalformedKey string
  | InsecureKeyPermissions string

definition to_hex :: "hex_codec \<Rightarrow> PublicKey \<Rightarrow> string" where
  "to_hex hx k = hex_encode hx k"

definition from_hex :: "ed25519 \<Rightarrow> hex_codec \<Rightarrow> string \<Rightarrow> CryptoError + PublicKey" where
  "from_hex ed hx s =
     bind_r (map_err (\<lambda>e. MalformedKey (''bad hex public key: '' @ e)) (hex_decode hx (trim s)))
       (\<lambda>bytes.
         if length bytes \<noteq> 32 then Inl (MalformedKey ''public key must be 32 bytes'')
         else case ed_check_key ed bytes of
                Some e \<Rightarrow> Inl (MalformedKey e)
              | None \<Rightarrow> Inr bytes)"

definition KeyPair_from_bytes :: "u8 list \<Rightarrow> KeyPair" where
  "KeyPair_from_bytes bytes = bytes"

definition public_key :: "ed25519 \<Rightarrow> KeyPair \<Rightarrow> PublicKey" where
  "public_key ed kp = ed_public ed kp"

definition sign :: "ed25519 \<Rightarrow> KeyPair \<Rightarrow> u8 list \<Rightarrow> u8 list" where
  "sign ed kp message = ed_sign ed kp message"

definition KeyPair_to_bytes :: "KeyPair \<Rightarrow> u8 list" where
  "KeyPair_to_bytes kp = kp"

definition verify :: "ed25519 \<Rightarrow> PublicKey \<Rightarrow> u8 list \<Rightarrow> u8 list \<Rightarrow> CryptoError + unit" where
  "verify ed pk message signature =
     (case ed_check_key ed pk of
        Some e \<Rightarrow> Inl (MalformedKey e)
      | None \<Rightarrow> if ed_verify ed pk message signature then Inr () else Inl InvalidSignature)"

text \<open>Key files. \<open>dbg\<close> renders a path, \<open>oct\<close> a mode, for error texts.\<close>

definition save_to_file ::
    "hex_codec \<Rightarrow> (path \<Rightarrow> string) \<Rightarrow> KeyPair \<Rightarrow> path \<Rightarrow> world \<Rightarrow> (CryptoError + unit) \<times> world" where
  "save_to_file hx dbg kp path =
     bind_io (map_err_io (\<lambda>e. MalformedKey (''cannot create '' @ dbg path @ '': '' @ io_detail e))
                (open_create_new path mode_0600))
       (\<lambda>_. map_err_io (\<lambda>e. MalformedKey (''cannot write '' @ dbg path @ '': '' @ io_detail e))
              (write_all path (as_bytes (hex_encode hx (KeyPair_to_bytes kp)))))"

definition read_to_string :: "path \<Rightarrow> string io" where
  "read_to_string p =
     bind_io (fs_read p) (\<lambda>bs. lift_r
       (ok_or (io_error_new InvalidData ''stream did not contain valid UTF-8'') (from_utf8 bs)))"

definition load_from_file ::
    "hex_codec \<Rightarrow> (path \<Rightarrow> string) \<Rightarrow> (u32 \<Rightarrow> string) \<Rightarrow> path \<Rightarrow> world \<Rightarrow> (CryptoError + KeyPair) \<times> world"
  where
  "load_from_file hx dbg oct path =
     bind_io (map_err_io (\<lambda>e. MalformedKey (''cannot stat '' @ dbg path @ '': '' @ io_detail e))
                (metadata path))
       (\<lambda>meta.
         if i_mode meta AND mode_0077 \<noteq> 0
         then fail_io (InsecureKeyPermissions
                (dbg path @ '' has mode '' @ oct (i_mode meta) @ '', expected 0600 or stricter''))
         else bind_io (map_err_io (\<lambda>e. MalformedKey (''cannot read '' @ dbg path @ '': '' @ io_detail e))
                         (read_to_string path))
           (\<lambda>hex_str.
             bind_io (lift_r (map_err (\<lambda>e. MalformedKey (''bad hex in '' @ dbg path @ '': '' @ e))
                        (hex_decode hx (trim hex_str))))
               (\<lambda>bytes.
                 if length bytes \<noteq> 32
                 then fail_io (MalformedKey (dbg path @ '' is not 32 bytes''))
                 else return_io (KeyPair_from_bytes bytes))))"

subsection \<open>Certificates\<close>

record KeyCertificate =
  kc_child_key :: PublicKey
  kc_issued_at :: u64
  kc_signature :: "u8 list"

definition cert_signing_bytes :: "PublicKey \<Rightarrow> u64 \<Rightarrow> u8 list" where
  "cert_signing_bytes child_key issued_at = child_key @ u64_to_be_bytes issued_at"

definition KeyCertificate_issue :: "ed25519 \<Rightarrow> KeyPair \<Rightarrow> PublicKey \<Rightarrow> u64 \<Rightarrow> KeyCertificate" where
  "KeyCertificate_issue ed parent child_key issued_at =
     \<lparr>kc_child_key = child_key, kc_issued_at = issued_at,
      kc_signature = sign ed parent (cert_signing_bytes child_key issued_at)\<rparr>"

definition verify_against :: "ed25519 \<Rightarrow> KeyCertificate \<Rightarrow> PublicKey \<Rightarrow> CryptoError + unit" where
  "verify_against ed cert parent_public =
     verify ed parent_public (cert_signing_bytes (kc_child_key cert) (kc_issued_at cert))
       (kc_signature cert)"

subsection \<open>Lemmas\<close>

lemma verify_eq_Inr:
  "verify ed pk m s = Inr () \<longleftrightarrow> ed_check_key ed pk = None \<and> ed_verify ed pk m s"
  by (auto simp: verify_def split: option.split)

lemma verify_sign:
  "ed25519_ok ed \<Longrightarrow> length kp = 32 \<Longrightarrow> verify ed (public_key ed kp) m (sign ed kp m) = Inr ()"
  by (simp add: verify_eq_Inr ed25519_ok_def public_key_def sign_def)

lemma length_public_key: "ed25519_ok ed \<Longrightarrow> length kp = 32 \<Longrightarrow> length (public_key ed kp) = 32"
  by (simp add: ed25519_ok_def public_key_def)

lemma verify_issued:
  "ed25519_ok ed \<Longrightarrow> length parent = 32 \<Longrightarrow>
   verify_against ed (KeyCertificate_issue ed parent child t) (public_key ed parent) = Inr ()"
  by (simp add: verify_against_def KeyCertificate_issue_def verify_sign)

lemma issued_simps [simp]:
  "kc_child_key (KeyCertificate_issue ed parent child t) = child"
  "kc_issued_at (KeyCertificate_issue ed parent child t) = t"
  by (simp_all add: KeyCertificate_issue_def)

lemma cert_signing_bytes_inject:
  "length k = 32 \<Longrightarrow> length k' = 32 \<Longrightarrow>
   cert_signing_bytes k t = cert_signing_bytes k' t' \<longleftrightarrow> k = k' \<and> t = t'"
  by (simp add: cert_signing_bytes_def)

lemma from_hex_to_hex:
  assumes "hex_ok hx" "ed25519_ok ed" "length kp = 32"
  shows "from_hex ed hx (to_hex hx (public_key ed kp)) = Inr (public_key ed kp)"
proof -
  have "trim (hex_encode hx (public_key ed kp)) = hex_encode hx (public_key ed kp)"
    using assms(1) by (intro trim_plain) (simp add: hex_ok_def)
  then show ?thesis
    using assms by (simp add: from_hex_def to_hex_def hex_ok_def ed25519_ok_def public_key_def)
qed

subsection \<open>Key files\<close>

lemma save_to_file_result:
  assumes "save_to_file hx dbg kp p w = (Inr (), w')"
  shows "w_fs w p = None"
    and "w_fs w' p = Some ((new_node p False mode_0600 w)\<lparr>i_content := as_bytes (hex_encode hx kp)\<rparr>)"
  using assms
  by (auto simp: save_to_file_def bind_io_def map_err_io_def open_create_new_def write_all_def
      prim_def append_bytes_def KeyPair_to_bytes_def new_node_def
      split: prod.splits sum.splits list.splits fault.splits option.splits if_splits)

lemma load_from_file_saved:
  assumes "hex_ok hx" "length kp = 32" "w_faults w = []"
    and "w_fs w p = Some n" "\<not> i_dir n" "i_mode n AND mode_0077 = 0"
    and "i_content n = as_bytes (hex_encode hx kp)"
  shows "load_from_file hx dbg oct p w = (Inr kp, w)"
proof -
  have "list_all plain_char (hex_encode hx kp)" and dec: "hex_decode hx (hex_encode hx kp) = Inr kp"
    using assms(1) by (auto simp: hex_ok_def)
  then have "trim (hex_encode hx kp) = hex_encode hx kp" "rust_str (hex_encode hx kp)"
    by (auto intro: trim_plain rust_str_plain)
  with assms dec show ?thesis
    by (simp add: load_from_file_def bind_io_def map_err_io_def metadata_def read_to_string_def
        fs_read_def prim_def lift_r_def return_io_def KeyPair_from_bytes_def)
qed

text \<open>A codec for the witnesses.\<close>

definition hex_digits :: string where
  "hex_digits = ''0123456789abcdef''"

definition hex_value :: "char \<Rightarrow> nat option" where
  "hex_value c = map_option fst (find (\<lambda>(i, d). d = c) (enumerate 0 hex_digits))"

definition hex_byte :: "u8 \<Rightarrow> string" where
  "hex_byte b = [hex_digits ! (unat b div 16), hex_digits ! (unat b mod 16)]"

fun hex_parse :: "string \<Rightarrow> string + u8 list" where
  "hex_parse [] = Inr []"
| "hex_parse [c] = Inl ''Odd number of digits''"
| "hex_parse (c # d # s) =
     (case (hex_value c, hex_value d) of
        (Some h, Some l) \<Rightarrow> bind_r (hex_parse s) (\<lambda>bs. Inr (word_of_nat (16 * h + l) # bs))
      | _ \<Rightarrow> Inl ''Invalid character'')"

definition plain_hex :: hex_codec where
  "plain_hex = \<lparr>hex_encode = (\<lambda>bs. concat (map hex_byte bs)), hex_decode = hex_parse\<rparr>"

lemma hex_digit_facts: "n < 16 \<Longrightarrow> plain_char (hex_digits ! n) \<and> hex_value (hex_digits ! n) = Some n"
proof -
  have "list_all (\<lambda>n. plain_char (hex_digits ! n) \<and> hex_value (hex_digits ! n) = Some n) [0..<16]"
    by code_simp
  then show "n < 16 \<Longrightarrow> plain_char (hex_digits ! n) \<and> hex_value (hex_digits ! n) = Some n"
    unfolding list_all_iff set_upt by auto
qed

lemma byte_nibbles:
  fixes b :: u8
  shows "unat b div 16 < 16" "unat b mod 16 < 16"
    "(word_of_nat (16 * (unat b div 16) + unat b mod 16) :: u8) = b"
proof -
  have "unat b < 256"
    using unsigned_less [of b, where ?'a = nat] by simp
  then show "unat b div 16 < 16" "unat b mod 16 < 16"
    by simp_all
  have "16 * (unat b div 16) + unat b mod 16 = unat b"
    by simp
  then show "(word_of_nat (16 * (unat b div 16) + unat b mod 16) :: u8) = b"
    by (simp only: of_nat_unat ucast_id)
qed

lemma plain_hex_ok: "hex_ok plain_hex"
proof -
  have "list_all plain_char (concat (map hex_byte bs)) \<and> hex_parse (concat (map hex_byte bs)) = Inr bs"
    for bs
  proof (induction bs)
    case (Cons b bs)
    then show ?case
      using hex_digit_facts [OF byte_nibbles(1), of b] hex_digit_facts [OF byte_nibbles(2), of b]
        byte_nibbles(3) [of b]
      by (simp add: hex_byte_def)
  qed simp
  then show ?thesis
    by (simp add: hex_ok_def plain_hex_def)
qed

subsection \<open>Properties\<close>

text \<open>A private key that was saved successfully is read back unchanged, from a file that
  neither group nor others can access and that did not exist before: saving never
  overwrites a key, and loading accepts what saving wrote.\<close>

theorem key_file_round_trip:
  assumes "hex_ok hx" and "length kp = 32"
    and "save_to_file hx dbg kp p w = (Inr (), w')" and "w_faults w' = []"
  shows "fst (load_from_file hx dbg oct p w') = Inr kp \<and> w_fs w p = None \<and>
         (\<exists>n. w_fs w' p = Some n \<and> i_mode n AND mode_0077 = 0)"
proof -
  note saved = save_to_file_result [OF assms(3)]
  have "load_from_file hx dbg oct p w' = (Inr kp, w')"
    by (rule load_from_file_saved [OF assms(1,2,4) saved(2)])
      (simp_all add: new_node_def mode_0600_private)
  then show ?thesis
    using saved by (simp add: new_node_def mode_0600_private)
qed

definition empty_world :: world where
  "empty_world =
     \<lparr>w_fs = (\<lambda>p. if p = [] then Some \<lparr>i_dir = True, i_content = [], i_mode = mode_0750,
                  i_uid = 0, i_gid = 7\<rparr> else None),
      w_faults = [], w_pid = 1, w_unix_time = 0, w_euid = 0, w_egid = 0, w_umask = 18\<rparr>"

theorem key_file_round_trip_witness:
  "fst (load_from_file plain_hex concat (\<lambda>_. []) [''root.key'']
     (snd (save_to_file plain_hex concat (replicate 32 5) [''root.key''] empty_world))) =
   Inr (replicate 32 5)"
proof -
  let ?w' = "snd (save_to_file plain_hex concat (replicate 32 5) [''root.key''] empty_world)"
  have "save_to_file plain_hex concat (replicate 32 5) [''root.key''] empty_world = (Inr (), ?w')"
    "w_faults ?w' = []"
    by (simp_all add: save_to_file_def bind_io_def map_err_io_def open_create_new_def write_all_def
        prim_def append_bytes_def empty_world_def is_dir_at_def)
  from key_file_round_trip [OF plain_hex_ok _ this] show ?thesis
    by simp
qed

end
