(* ===== verification/Config_Bundle.thy ===== *)
theory Config_Bundle
  imports Crypto_Hierarchy Network_State
begin

text \<open>
  \<^verbatim>\<open>crates/config\<close>: the signed relay bundle and its verification (\<^verbatim>\<open>src/lib.rs\<close>) and the
  signed revocation list (\<^verbatim>\<open>src/revocation.rs\<close>). The JSON codec is third-party code: it is
  the parameter pair \<open>to_vec\<close>, \<open>from_slice\<close>, with the round trip as hypothesis. The lemmas
  give the exact outcome on an honestly signed bundle, the authenticity of an accepted
  one, and the effect of revocation.
\<close>

subsection \<open>Data\<close>

definition CURRENT_SCHEMA_VERSION :: u32 where
  "CURRENT_SCHEMA_VERSION = 1"

definition SUPPORTED_SCHEMA_VERSIONS :: "u32 list" where
  "SUPPORTED_SCHEMA_VERSIONS = [1]"

datatype ConfigError =
    BundleInvalidSignature
  | InvalidCertChain
  | Expired u64 u64
  | NotYetValid u64 u64
  | UnsupportedSchemaVersion u32
  | RevokedKey
  | MalformedPayload string

record EndpointDescriptor =
  ed_id :: string
  ed_transport :: string
  ed_address :: string
  ed_provider_tag :: string
  ed_capabilities :: "string list"
  ed_cert_sha256_hex :: string

record RelayBundlePayload =
  rb_schema_version :: u32
  rb_issued_at :: u64
  rb_expires_at :: u64
  rb_nonce :: string
  rb_endpoints :: "EndpointDescriptor list"

record TrustRoot =
  root_public_key :: PublicKey

record SignedBundle =
  payload_bytes :: "u8 list"
  bundle_signature :: "u8 list"
  bundle_signing_key :: PublicKey
  bundle_key_cert :: KeyCertificate
  release_key_cert :: KeyCertificate

subsection \<open>Revocation list\<close>

record RevocationList =
  rl_revoked :: "PublicKey set"

definition RevocationList_empty :: RevocationList where
  "RevocationList_empty = \<lparr>rl_revoked = {}\<rparr>"

definition RevocationList_from_keys :: "PublicKey list \<Rightarrow> RevocationList" where
  "RevocationList_from_keys ks = \<lparr>rl_revoked = set ks\<rparr>"

definition revoke :: "RevocationList \<Rightarrow> PublicKey \<Rightarrow> RevocationList" where
  "revoke rl key = rl\<lparr>rl_revoked := insert key (rl_revoked rl)\<rparr>"

definition RevocationList_contains :: "RevocationList \<Rightarrow> PublicKey \<Rightarrow> bool" where
  "RevocationList_contains rl key \<longleftrightarrow> key \<in> rl_revoked rl"

record SignedRevocationList =
  srl_issued_at :: u64
  srl_revoked_keys :: "PublicKey list"
  srl_release_key_cert :: KeyCertificate
  srl_signature :: "u8 list"

definition revocation_signing_bytes :: "PublicKey list \<Rightarrow> u64 \<Rightarrow> u8 list" where
  "revocation_signing_bytes revoked_keys issued_at = u64_to_be_bytes issued_at @ concat revoked_keys"

definition SignedRevocationList_issue ::
    "ed25519 \<Rightarrow> KeyPair \<Rightarrow> KeyCertificate \<Rightarrow> PublicKey list \<Rightarrow> u64 \<Rightarrow> SignedRevocationList" where
  "SignedRevocationList_issue ed release_key cert revoked_keys issued_at =
     \<lparr>srl_issued_at = issued_at, srl_revoked_keys = revoked_keys, srl_release_key_cert = cert,
      srl_signature = sign ed release_key (revocation_signing_bytes revoked_keys issued_at)\<rparr>"

definition SignedRevocationList_verify ::
    "ed25519 \<Rightarrow> SignedRevocationList \<Rightarrow> TrustRoot \<Rightarrow> ConfigError + RevocationList" where
  "SignedRevocationList_verify ed srl trust_root =
     bind_r (map_err (\<lambda>_. InvalidCertChain)
               (verify_against ed (srl_release_key_cert srl) (root_public_key trust_root))) (\<lambda>_.
     bind_r (map_err (\<lambda>_. BundleInvalidSignature)
               (verify ed (kc_child_key (srl_release_key_cert srl))
                  (revocation_signing_bytes (srl_revoked_keys srl) (srl_issued_at srl))
                  (srl_signature srl))) (\<lambda>_.
     Inr (RevocationList_from_keys (srl_revoked_keys srl))))"

subsection \<open>Bundles\<close>

definition SignedBundle_sign ::
    "ed25519 \<Rightarrow> (RelayBundlePayload \<Rightarrow> string + u8 list) \<Rightarrow> RelayBundlePayload \<Rightarrow> KeyPair \<Rightarrow>
     KeyCertificate \<Rightarrow> KeyCertificate \<Rightarrow> ConfigError + SignedBundle" where
  "SignedBundle_sign ed to_vec payload bundle_key bundle_cert release_cert =
     bind_r (map_err MalformedPayload (to_vec payload)) (\<lambda>bytes.
       Inr \<lparr>payload_bytes = bytes, bundle_signature = sign ed bundle_key bytes,
            bundle_signing_key = public_key ed bundle_key,
            bundle_key_cert = bundle_cert, release_key_cert = release_cert\<rparr>)"

definition verify_bundle ::
    "ed25519 \<Rightarrow> (u8 list \<Rightarrow> string + RelayBundlePayload) \<Rightarrow> SignedBundle \<Rightarrow> TrustRoot \<Rightarrow>
     RevocationList \<Rightarrow> UnixSeconds \<Rightarrow> ConfigError + RelayBundlePayload" where
  "verify_bundle ed from_slice bundle trust_root revoked now =
     bind_r (map_err (\<lambda>_. InvalidCertChain)
               (verify_against ed (release_key_cert bundle) (root_public_key trust_root))) (\<lambda>_.
     if RevocationList_contains revoked (kc_child_key (release_key_cert bundle)) then Inl RevokedKey
     else bind_r (map_err (\<lambda>_. InvalidCertChain)
               (verify_against ed (bundle_key_cert bundle)
                  (kc_child_key (release_key_cert bundle)))) (\<lambda>_.
     if kc_child_key (bundle_key_cert bundle) \<noteq> bundle_signing_key bundle then Inl InvalidCertChain
     else if RevocationList_contains revoked (bundle_signing_key bundle) then Inl RevokedKey
     else bind_r (map_err (\<lambda>_. BundleInvalidSignature)
               (verify ed (bundle_signing_key bundle) (payload_bytes bundle)
                  (bundle_signature bundle))) (\<lambda>_.
     bind_r (map_err MalformedPayload (from_slice (payload_bytes bundle))) (\<lambda>payload.
     if rb_schema_version payload \<notin> set SUPPORTED_SCHEMA_VERSIONS
     then Inl (UnsupportedSchemaVersion (rb_schema_version payload))
     else if now < rb_issued_at payload then Inl (NotYetValid (rb_issued_at payload) now)
     else if now \<ge> rb_expires_at payload then Inl (Expired (rb_expires_at payload) now)
     else Inr payload))))"

subsection \<open>Lemmas\<close>

lemma verify_bundle_eq_Inr:
  "verify_bundle ed from_slice b tr rl now = Inr p \<longleftrightarrow>
     verify_against ed (release_key_cert b) (root_public_key tr) = Inr () \<and>
     kc_child_key (release_key_cert b) \<notin> rl_revoked rl \<and>
     verify_against ed (bundle_key_cert b) (kc_child_key (release_key_cert b)) = Inr () \<and>
     kc_child_key (bundle_key_cert b) = bundle_signing_key b \<and>
     bundle_signing_key b \<notin> rl_revoked rl \<and>
     verify ed (bundle_signing_key b) (payload_bytes b) (bundle_signature b) = Inr () \<and>
     from_slice (payload_bytes b) = Inr p \<and>
     rb_schema_version p \<in> set SUPPORTED_SCHEMA_VERSIONS \<and>
     rb_issued_at p \<le> now \<and> now < rb_expires_at p"
  (is "?acc \<longleftrightarrow> ?chain")
proof
  assume ?acc
  then show ?chain
    by (auto simp: verify_bundle_def RevocationList_contains_def result_simps split: if_splits)
next
  assume ?chain
  then show ?acc
    by (simp add: verify_bundle_def RevocationList_contains_def not_less not_le)
qed

lemma concat_keys_inject:
  "list_all (\<lambda>k. length k = 32) ks \<Longrightarrow> list_all (\<lambda>k. length k = 32) ks' \<Longrightarrow>
   concat ks = concat ks' \<longleftrightarrow> ks = ks'" for ks ks' :: "u8 list list"
proof (induction ks arbitrary: ks')
  case Nil
  then show ?case
    by (cases ks') auto
next
  case (Cons k ks)
  then show ?case
    by (cases ks') (auto simp: append_eq_append_conv)
qed

lemma revocation_signing_bytes_inject:
  assumes "list_all (\<lambda>k. length k = 32) ks" "list_all (\<lambda>k. length k = 32) ks'"
  shows "revocation_signing_bytes ks t = revocation_signing_bytes ks' t' \<longleftrightarrow> ks = ks' \<and> t = t'"
  using concat_keys_inject [OF assms] by (auto simp: revocation_signing_bytes_def)

lemma revocation_verify_eq_Inr:
  "SignedRevocationList_verify ed srl tr = Inr rl \<longleftrightarrow>
     verify_against ed (srl_release_key_cert srl) (root_public_key tr) = Inr () \<and>
     verify ed (kc_child_key (srl_release_key_cert srl))
       (revocation_signing_bytes (srl_revoked_keys srl) (srl_issued_at srl)) (srl_signature srl) = Inr () \<and>
     rl = RevocationList_from_keys (srl_revoked_keys srl)"
  by (auto simp: SignedRevocationList_verify_def result_simps)

subsection \<open>Properties\<close>

text \<open>The JSON codec reads back what it wrote.\<close>

definition json_ok :: "('a \<Rightarrow> string + u8 list) \<Rightarrow> (u8 list \<Rightarrow> string + 'a) \<Rightarrow> bool" where
  "json_ok to_vec from_slice \<longleftrightarrow> (\<forall>x bs. to_vec x = Inr bs \<longrightarrow> from_slice bs = Inr x)"

lemma signed_bundle_outcome:
  assumes "ed25519_ok ed" and "json_ok to_vec from_slice"
    and "length root = 32" and "length rel = 32" and "length bun = 32"
    and "SignedBundle_sign ed to_vec payload bun
           (KeyCertificate_issue ed rel (public_key ed bun) t2)
           (KeyCertificate_issue ed root (public_key ed rel) t1) = Inr b"
  shows "verify_bundle ed from_slice b \<lparr>root_public_key = public_key ed root\<rparr> rl now =
    (if public_key ed rel \<in> rl_revoked rl \<or> public_key ed bun \<in> rl_revoked rl then Inl RevokedKey
     else if rb_schema_version payload \<noteq> 1
       then Inl (UnsupportedSchemaVersion (rb_schema_version payload))
     else if now < rb_issued_at payload then Inl (NotYetValid (rb_issued_at payload) now)
     else if rb_expires_at payload \<le> now then Inl (Expired (rb_expires_at payload) now)
     else Inr payload)"
proof -
  from assms(6) obtain bytes where bytes: "to_vec payload = Inr bytes"
    and b: "b = \<lparr>payload_bytes = bytes, bundle_signature = sign ed bun bytes,
            bundle_signing_key = public_key ed bun,
            bundle_key_cert = KeyCertificate_issue ed rel (public_key ed bun) t2,
            release_key_cert = KeyCertificate_issue ed root (public_key ed rel) t1\<rparr>"
    by (auto simp: SignedBundle_sign_def result_simps)
  have "from_slice bytes = Inr payload"
    using assms(2) bytes by (auto simp: json_ok_def)
  then show ?thesis
    using assms(1,3,4,5)
    by (simp add: verify_bundle_def b verify_issued verify_sign RevocationList_contains_def
        SUPPORTED_SCHEMA_VERSIONS_def)
qed

text \<open>
  Unforgeability, as an idealised property of the scheme: \<open>sigs\<close> holds the secret key
  and message of every signature that the owners of the keys \<open>honest\<close> have made, and only
  those verify.
\<close>

definition unforgeable :: "ed25519 \<Rightarrow> KeyPair set \<Rightarrow> (KeyPair \<times> u8 list) set \<Rightarrow> bool" where
  "unforgeable ed honest sigs \<longleftrightarrow>
     (\<forall>sk\<in>honest. \<forall>m s. ed_verify ed (public_key ed sk) m s \<longrightarrow> (sk, m) \<in> sigs)"

lemma verify_against_signed:
  "unforgeable ed honest sigs \<Longrightarrow> sk \<in> honest \<Longrightarrow> parent = public_key ed sk \<Longrightarrow>
   verify_against ed cert parent = Inr () \<Longrightarrow>
   (sk, cert_signing_bytes (kc_child_key cert) (kc_issued_at cert)) \<in> sigs"
  by (auto simp: unforgeable_def verify_against_def verify_eq_Inr)

text \<open>C1. A bundle is accepted only with a complete chain of authority. If the root key, the
  certified release key and the certified bundle key are honest, then the root signed
  the release key, the release key signed the bundle key, the bundle key signed exactly
  the payload bytes, the payload returned is the parse of those bytes, and the clock is
  inside its validity window. A compromise of any online party that holds none of these
  keys yields no accepted bundle.\<close>

theorem verify_bundle_authentic:
  assumes "unforgeable ed honest sigs"
    and "root_sk \<in> honest" and "root_public_key tr = public_key ed root_sk"
    and "verify_bundle ed from_slice b tr rl now = Inr p"
  shows "(root_sk, cert_signing_bytes (kc_child_key (release_key_cert b))
            (kc_issued_at (release_key_cert b))) \<in> sigs \<and>
    (\<forall>rel_sk\<in>honest. kc_child_key (release_key_cert b) = public_key ed rel_sk \<longrightarrow>
       (rel_sk, cert_signing_bytes (bundle_signing_key b) (kc_issued_at (bundle_key_cert b))) \<in> sigs) \<and>
    (\<forall>bun_sk\<in>honest. bundle_signing_key b = public_key ed bun_sk \<longrightarrow>
       (bun_sk, payload_bytes b) \<in> sigs) \<and>
    from_slice (payload_bytes b) = Inr p \<and> rb_issued_at p \<le> now \<and> now < rb_expires_at p"
proof -
  note acc = assms(4) [unfolded verify_bundle_eq_Inr]
  have rel: "\<forall>rel_sk\<in>honest. kc_child_key (release_key_cert b) = public_key ed rel_sk \<longrightarrow>
       (rel_sk, cert_signing_bytes (bundle_signing_key b) (kc_issued_at (bundle_key_cert b))) \<in> sigs"
    using verify_against_signed [OF assms(1) _ _ conjunct1 [OF conjunct2 [OF conjunct2 [OF acc]]]] acc
    by metis
  have bun: "\<forall>bun_sk\<in>honest. bundle_signing_key b = public_key ed bun_sk \<longrightarrow>
       (bun_sk, payload_bytes b) \<in> sigs"
    using assms(1) acc unfolding unforgeable_def verify_eq_Inr by metis
  show ?thesis
    using acc verify_against_signed [OF assms(1,2,3)] rel bun by blast
qed

text \<open>A scheme for the witnesses: a signature is the public key, and the secret key is the
  public key.\<close>

definition echo_scheme :: ed25519 where
  "echo_scheme =
     \<lparr>ed_public = (\<lambda>sk. sk), ed_sign = (\<lambda>sk m. sk @ sk), ed_check_key = (\<lambda>_. None),
      ed_verify = (\<lambda>pk m s. s = pk @ pk)\<rparr>"

lemma echo_scheme_ok: "ed25519_ok echo_scheme"
  by (simp add: ed25519_ok_def echo_scheme_def)

definition demo_payload :: RelayBundlePayload where
  "demo_payload =
     \<lparr>rb_schema_version = 1, rb_issued_at = 100, rb_expires_at = 1000, rb_nonce = ''n'',
      rb_endpoints = []\<rparr>"

definition demo_bundle :: SignedBundle where
  "demo_bundle =
     (let root = replicate 32 1; rel = replicate 32 2; bun = replicate 32 3 in
      \<lparr>payload_bytes = [7], bundle_signature = sign echo_scheme bun [7], bundle_signing_key = bun,
       bundle_key_cert = KeyCertificate_issue echo_scheme rel bun 2,
       release_key_cert = KeyCertificate_issue echo_scheme root rel 1\<rparr>)"

text \<open>A scheme in which exactly the signatures of a ledger verify, and a ledger with the
  three signatures of a bundle.\<close>

definition ledger_scheme :: "(KeyPair \<times> u8 list) list \<Rightarrow> ed25519" where
  "ledger_scheme l = echo_scheme\<lparr>ed_verify := \<lambda>pk m s. (pk, m) \<in> set l\<rparr>"

definition demo_ledger :: "(KeyPair \<times> u8 list) list" where
  "demo_ledger =
     [(replicate 32 1, cert_signing_bytes (replicate 32 2) 1),
      (replicate 32 2, cert_signing_bytes (replicate 32 3) 2), (replicate 32 3, [7])]"

lemma ledger_unforgeable: "unforgeable (ledger_scheme l) UNIV (set l)"
  by (simp add: unforgeable_def ledger_scheme_def echo_scheme_def public_key_def)

theorem verify_bundle_authentic_witness:
  "(replicate 32 1, cert_signing_bytes (replicate 32 2) 1) \<in> set demo_ledger \<and>
   (replicate 32 2, cert_signing_bytes (replicate 32 3) 2) \<in> set demo_ledger \<and>
   (replicate 32 3, [7]) \<in> set demo_ledger \<and>
   rb_issued_at demo_payload \<le> 500 \<and> (500::u64) < rb_expires_at demo_payload"
proof -
  have "verify_bundle (ledger_scheme demo_ledger) (\<lambda>_. Inr demo_payload) demo_bundle
      \<lparr>root_public_key = replicate 32 1\<rparr> RevocationList_empty 500 = Inr demo_payload"
    by code_simp
  note acc = verify_bundle_authentic [OF ledger_unforgeable UNIV_I _ this, of "replicate 32 1"]
  have pub: "public_key (ledger_scheme demo_ledger) sk = sk" for sk
    by (simp add: ledger_scheme_def echo_scheme_def public_key_def)
  show ?thesis
    using acc by (simp add: pub demo_bundle_def KeyCertificate_issue_def Let_def)
qed

text \<open>C38. An honestly signed bundle is accepted with exactly its own payload from the second it
  is issued until, and not including, the second it expires, as long as neither tier's
  key is revoked; each way of missing that gives its own error, in the order revocation,
  schema, too early, too late.\<close>

theorem sign_then_verify_bundle:
  assumes "ed25519_ok ed" and "json_ok to_vec from_slice"
    and "length root = 32" and "length rel = 32" and "length bun = 32"
    and "SignedBundle_sign ed to_vec payload bun
           (KeyCertificate_issue ed rel (public_key ed bun) t2)
           (KeyCertificate_issue ed root (public_key ed rel) t1) = Inr b"
  shows "verify_bundle ed from_slice b \<lparr>root_public_key = public_key ed root\<rparr> rl now =
    (if public_key ed rel \<in> rl_revoked rl \<or> public_key ed bun \<in> rl_revoked rl then Inl RevokedKey
     else if rb_schema_version payload \<noteq> 1
       then Inl (UnsupportedSchemaVersion (rb_schema_version payload))
     else if now < rb_issued_at payload then Inl (NotYetValid (rb_issued_at payload) now)
     else if rb_expires_at payload \<le> now then Inl (Expired (rb_expires_at payload) now)
     else Inr payload)"
  using assms by (rule signed_bundle_outcome)

theorem sign_then_verify_bundle_witness:
  "verify_bundle echo_scheme (\<lambda>_. Inr demo_payload) demo_bundle
     \<lparr>root_public_key = replicate 32 1\<rparr> RevocationList_empty 1000 = Inl (Expired 1000 1000)"
  using sign_then_verify_bundle [OF echo_scheme_ok,
      where to_vec = "\<lambda>p. if p = demo_payload then Inr [7] else Inl ''other''"
        and from_slice = "\<lambda>_. Inr demo_payload" and payload = demo_payload and b = demo_bundle
        and root = "replicate 32 1" and rel = "replicate 32 2" and bun = "replicate 32 3"
        and ?t1.0 = 1 and ?t2.0 = 2 and rl = RevocationList_empty and now = 1000]
  by (simp add: json_ok_def SignedBundle_sign_def demo_bundle_def Let_def public_key_def
      echo_scheme_def RevocationList_empty_def demo_payload_def)

text \<open>Revocation only ever removes bundles: a bundle accepted after a further key is
  revoked was accepted, with the same payload, before, and uses that key in neither
  tier.\<close>

theorem revocation_is_final:
  assumes "verify_bundle ed from_slice b tr (revoke rl k) now = Inr p"
  shows "verify_bundle ed from_slice b tr rl now = Inr p \<and>
         kc_child_key (release_key_cert b) \<noteq> k \<and> bundle_signing_key b \<noteq> k"
  using assms by (auto simp: verify_bundle_eq_Inr revoke_def)

theorem revocation_is_final_witness:
  "bundle_signing_key demo_bundle \<noteq> replicate 32 9"
proof -
  have "verify_bundle echo_scheme (\<lambda>_. Inr demo_payload) demo_bundle
      \<lparr>root_public_key = replicate 32 1\<rparr> (revoke RevocationList_empty (replicate 32 9)) 500 =
      Inr demo_payload"
    by code_simp
  from revocation_is_final [OF this] show ?thesis
    by simp
qed

text \<open>A revocation list issued by a release key that the root certified verifies, and what it
  yields revokes exactly the listed keys. Two lists of whole keys have the same signed
  bytes only if they list the same keys in the same order with the same time, so no
  entry can be added, dropped or reordered under the same signature.\<close>

theorem revocation_list_round_trip:
  assumes "ed25519_ok ed" and "length root = 32" and "length rel = 32"
  shows "(let srl = SignedRevocationList_issue ed rel
                (KeyCertificate_issue ed root (public_key ed rel) t) ks t'
          in \<exists>rl. SignedRevocationList_verify ed srl \<lparr>root_public_key = public_key ed root\<rparr> = Inr rl \<and>
               (\<forall>k. RevocationList_contains rl k \<longleftrightarrow> k \<in> set ks)) \<and>
         (list_all (\<lambda>k. length k = 32) ks \<and> list_all (\<lambda>k. length k = 32) ks' \<and>
          revocation_signing_bytes ks t' = revocation_signing_bytes ks' t'' \<longrightarrow> ks = ks' \<and> t' = t'')"
  using assms
  by (auto simp: SignedRevocationList_issue_def SignedRevocationList_verify_def verify_issued
      verify_sign RevocationList_from_keys_def RevocationList_contains_def Let_def
      revocation_signing_bytes_inject)

theorem revocation_list_round_trip_witness:
  "\<exists>rl. SignedRevocationList_verify echo_scheme
     (SignedRevocationList_issue echo_scheme (replicate 32 2)
        (KeyCertificate_issue echo_scheme (replicate 32 1) (replicate 32 2) 1) [replicate 32 9] 5)
     \<lparr>root_public_key = replicate 32 1\<rparr> = Inr rl \<and> RevocationList_contains rl (replicate 32 9)"
proof -
  have "public_key echo_scheme k = k" for k
    by (simp add: public_key_def echo_scheme_def)
  with revocation_list_round_trip [OF echo_scheme_ok, of "replicate 32 1" "replicate 32 2" 1
      "[replicate 32 9]" 5 "[]" 0]
  show ?thesis
    unfolding Let_def by auto
qed

subsection \<open>Certificates and revocation lists share one message space\<close>

lemma cert_bytes_are_list_bytes:
  assumes "length child = 32"
  obtains t' where "cert_signing_bytes child t =
    revocation_signing_bytes [drop 8 child @ u64_to_be_bytes t] t'"
proof -
  obtain t' where "u64_to_be_bytes t' = take 8 child"
    using u64_bytes_surj [of "take 8 child"] assms by auto
  then have "revocation_signing_bytes [drop 8 child @ u64_to_be_bytes t] t' = cert_signing_bytes child t"
    by (simp add: revocation_signing_bytes_def cert_signing_bytes_def)
  then show ?thesis
    using that by metis
qed

lemma certificate_passes_as_revocation_list:
  assumes "ed25519_ok ed" and "length root = 32" and "length rel = 32" and "length child = 32"
  shows "\<exists>t'. SignedRevocationList_verify ed
      \<lparr>srl_issued_at = t', srl_revoked_keys = [drop 8 child @ u64_to_be_bytes t],
       srl_release_key_cert = KeyCertificate_issue ed root (public_key ed rel) t1,
       srl_signature = kc_signature (KeyCertificate_issue ed rel child t)\<rparr>
      \<lparr>root_public_key = public_key ed root\<rparr> =
    Inr (RevocationList_from_keys [drop 8 child @ u64_to_be_bytes t])"
proof -
  obtain t' where "cert_signing_bytes child t =
      revocation_signing_bytes [drop 8 child @ u64_to_be_bytes t] t'"
    using cert_bytes_are_list_bytes [OF assms(4)] .
  then show ?thesis
    using assms(1-3)
    by (intro exI [of _ t'])
      (simp add: SignedRevocationList_verify_def verify_issued KeyCertificate_issue_def verify_sign
        verify_against_def)
qed

end
