(* ===== verification/Rate_Limiter.thy ===== *)
theory Rate_Limiter
  imports Ieee_Float Network_State "HOL-Library.AList" "HOL-Library.Multiset"
begin

text \<open>
  The token-bucket limiters of \<^verbatim>\<open>services/rendezvous/src/lib.rs\<close> and
  \<^verbatim>\<open>services/subscription/src/lib.rs\<close>. Token counts are \<^verbatim>\<open>f64\<close> values. The bucket table is
  the list of its entries in the order the table iterates over them; where the code
  iterates (eviction), that order is the parameter \<open>iter\<close>. The interface \<open>token_bucket\<close> is
  the contract both limiters keep; the burst bound and the recovery after idling are
  proved once from it.
\<close>

subsection \<open>The limiters\<close>

type_synonym bucket_table = "(ip_addr \<times> rat \<times> instant) list"

record RateLimiter =
  lim_buckets :: bucket_table
  lim_capacity :: rat
  lim_refill_per_sec :: rat

definition RateLimiter_new :: "rat \<Rightarrow> rat \<Rightarrow> RateLimiter" where
  "RateLimiter_new capacity refill_per_sec =
     \<lparr>lim_buckets = [], lim_capacity = capacity, lim_refill_per_sec = refill_per_sec\<rparr>"

definition rv_allow :: "RateLimiter \<Rightarrow> instant \<Rightarrow> ip_addr \<Rightarrow> bool \<times> RateLimiter" where
  "rv_allow l now ip =
     (let (tokens, last_seen) =
        (case map_of (lim_buckets l) ip of Some b \<Rightarrow> b | None \<Rightarrow> (lim_capacity l, now));
        elapsed = as_secs_f64 (duration_since now last_seen);
        tokens = min (f64 (tokens + f64 (elapsed * lim_refill_per_sec l))) (lim_capacity l)
      in if tokens \<ge> 1
         then (True, l\<lparr>lim_buckets := AList.update ip (f64 (tokens - 1), now) (lim_buckets l)\<rparr>)
         else (False, l\<lparr>lim_buckets := AList.update ip (tokens, now) (lim_buckets l)\<rparr>))"

definition MAX_BUCKETS :: nat where
  "MAX_BUCKETS = 8192"

definition TRIM_TO :: nat where
  "TRIM_TO = MAX_BUCKETS div 2"

definition f64_MIN_POSITIVE :: rat where
  "f64_MIN_POSITIVE = 2 powi (- 1022)"

definition evict_full_buckets ::
    "(bucket_table \<Rightarrow> bucket_table) \<Rightarrow> RateLimiter \<Rightarrow> instant \<Rightarrow> RateLimiter" where
  "evict_full_buckets iter l now =
     (if length (lim_buckets l) \<le> MAX_BUCKETS then l
      else
        let idle_for = max (f64 (lim_capacity l / max (lim_refill_per_sec l) f64_MIN_POSITIVE)) 1;
            kept = filter (\<lambda>(ip, tokens, last_seen). tokens < lim_capacity l \<or>
                     as_secs_f64 (duration_since now last_seen) < idle_for) (lim_buckets l)
        in if length kept > TRIM_TO
           then let seen = map (\<lambda>(ip, tokens, last_seen). (ip, last_seen)) (iter kept);
                    by_recency = sort_key (\<lambda>(ip, last_seen). - int last_seen) seen;
                    keep = set (map fst (take TRIM_TO by_recency))
                in l\<lparr>lim_buckets := filter (\<lambda>(ip, _). ip \<in> keep) kept\<rparr>
           else l\<lparr>lim_buckets := kept\<rparr>)"

definition sub_allow ::
    "(bucket_table \<Rightarrow> bucket_table) \<Rightarrow> RateLimiter \<Rightarrow> instant \<Rightarrow> ip_addr \<Rightarrow> bool \<times> RateLimiter" where
  "sub_allow iter l now ip =
     (let (tokens, last_seen) =
        (case map_of (lim_buckets l) ip of Some b \<Rightarrow> b | None \<Rightarrow> (lim_capacity l, now));
        elapsed = as_secs_f64 (duration_since now last_seen);
        tokens = min (f64 (tokens + f64 (elapsed * lim_refill_per_sec l))) (lim_capacity l);
        (allowed, tokens) = (if tokens \<ge> 1 then (True, f64 (tokens - 1)) else (False, tokens));
        l = l\<lparr>lim_buckets := AList.update ip (tokens, now) (lim_buckets l)\<rparr>
      in (allowed, evict_full_buckets iter l now))"

definition bucket_count :: "RateLimiter \<Rightarrow> nat" where
  "bucket_count l = length (lim_buckets l)"

subsection \<open>The contract of a limiter\<close>

text \<open>The tokens a request of \<open>ip\<close> at \<open>now\<close> finds.\<close>

definition tokens_at :: "RateLimiter \<Rightarrow> instant \<Rightarrow> ip_addr \<Rightarrow> rat" where
  "tokens_at l now ip =
     (let (tokens, last_seen) =
        (case map_of (lim_buckets l) ip of Some b \<Rightarrow> b | None \<Rightarrow> (lim_capacity l, now))
      in min (f64 (tokens + f64 (as_secs_f64 (duration_since now last_seen) * lim_refill_per_sec l)))
             (lim_capacity l))"

definition limiter_ok :: "RateLimiter \<Rightarrow> bool" where
  "limiter_ok l \<longleftrightarrow>
     is_f64 (lim_capacity l) \<and> 1 \<le> lim_capacity l \<and> lim_capacity l \<le> 2 ^ 53 \<and>
     0 \<le> lim_refill_per_sec l \<and> distinct (map fst (lim_buckets l)) \<and>
     (\<forall>(ip, tokens, last_seen)\<in>set (lim_buckets l).
        is_f64 tokens \<and> 0 \<le> tokens \<and> tokens \<le> lim_capacity l)"

text \<open>How many of a list of requests of one peer are granted.\<close>

fun granted :: "('l \<Rightarrow> instant \<Rightarrow> ip_addr \<Rightarrow> bool \<times> 'l) \<Rightarrow> 'l \<Rightarrow> ip_addr \<Rightarrow> instant list \<Rightarrow> nat" where
  "granted allow l ip [] = 0"
| "granted allow l ip (t # ts) =
     (let (b, l') = allow l t ip in (if b then 1 else 0) + granted allow l' ip ts)"

locale token_bucket =
  fixes allow :: "'l \<Rightarrow> instant \<Rightarrow> ip_addr \<Rightarrow> bool \<times> 'l"
    and inv :: "'l \<Rightarrow> bool"
    and room :: "'l \<Rightarrow> ip_addr \<Rightarrow> bool"
    and tokens :: "'l \<Rightarrow> instant \<Rightarrow> ip_addr \<Rightarrow> rat"
  assumes inv_allow: "inv l \<Longrightarrow> inv (snd (allow l now ip))"
    and room_allow: "room l ip \<Longrightarrow> room (snd (allow l now ip)) ip"
    and allow_iff: "inv l \<Longrightarrow> fst (allow l now ip) \<longleftrightarrow> 1 \<le> tokens l now ip"
    and tokens_le: "inv l \<Longrightarrow> tokens l now ip \<le> 2 ^ 53"
    and tokens_spent: "inv l \<Longrightarrow> room l ip \<Longrightarrow> n \<le> 2 ^ 53 \<Longrightarrow> fst (allow l now ip) \<Longrightarrow>
          tokens l now ip \<le> of_nat (Suc n) \<Longrightarrow> tokens (snd (allow l now ip)) now ip \<le> of_nat n"
    and tokens_kept: "inv l \<Longrightarrow> room l ip \<Longrightarrow> \<not> fst (allow l now ip) \<Longrightarrow>
          tokens (snd (allow l now ip)) now ip = tokens l now ip"
begin

lemma granted_burst:
  assumes "inv l" "room l ip" "n \<le> 2 ^ 53" "tokens l now ip \<le> of_nat n"
  shows "granted allow l ip (replicate k now) \<le> n"
  using assms
proof (induction k arbitrary: l n)
  case (Suc k)
  let ?l' = "snd (allow l now ip)"
  note next_ok = inv_allow [OF Suc.prems(1), of now ip] room_allow [OF Suc.prems(2), of now]
  show ?case
  proof (cases "fst (allow l now ip)")
    case True
    then have "1 \<le> tokens l now ip"
      using allow_iff Suc.prems(1) by simp
    then obtain m where m: "n = Suc m"
      using Suc.prems(4) by (cases n) auto
    have "tokens ?l' now ip \<le> of_nat m"
      using tokens_spent [OF Suc.prems(1,2) _ True] Suc.prems(3,4) m by simp
    then have "granted allow ?l' ip (replicate k now) \<le> m"
      using Suc.IH next_ok Suc.prems(3) m by simp
    with True m show ?thesis
      by (simp add: case_prod_beta Let_def)
  next
    case False
    then have "granted allow ?l' ip (replicate k now) \<le> n"
      using Suc.IH [OF next_ok Suc.prems(3)] Suc.prems(4) tokens_kept [OF Suc.prems(1,2) False]
      by simp
    with False show ?thesis
      by (simp add: case_prod_beta Let_def)
  qed
qed simp

end

subsection \<open>Lemmas\<close>

lemma rv_allow_eq:
  "rv_allow l now ip =
     (let t = tokens_at l now ip in
      if 1 \<le> t then (True, l\<lparr>lim_buckets := AList.update ip (f64 (t - 1), now) (lim_buckets l)\<rparr>)
      else (False, l\<lparr>lim_buckets := AList.update ip (t, now) (lim_buckets l)\<rparr>))"
  by (auto simp: rv_allow_def tokens_at_def Let_def split: option.split prod.split)

lemma sub_allow_eq:
  "sub_allow iter l now ip =
     (fst (rv_allow l now ip), evict_full_buckets iter (snd (rv_allow l now ip)) now)"
  by (auto simp: sub_allow_def rv_allow_def Let_def split: option.split prod.split)

lemma tokens_at_bounds:
  assumes "limiter_ok l"
  shows "is_f64 (tokens_at l now ip)" "0 \<le> tokens_at l now ip" "tokens_at l now ip \<le> lim_capacity l"
proof -
  obtain tokens last_seen where b:
    "(case map_of (lim_buckets l) ip of Some b \<Rightarrow> b | None \<Rightarrow> (lim_capacity l, now)) = (tokens, last_seen)"
    by (cases "case map_of (lim_buckets l) ip of Some b \<Rightarrow> b | None \<Rightarrow> (lim_capacity l, now)")
  have cap: "is_f64 (lim_capacity l)" "1 \<le> lim_capacity l" "0 \<le> lim_refill_per_sec l"
    using assms by (auto simp: limiter_ok_def)
  have "0 \<le> tokens"
    using b cap assms by (auto simp: limiter_ok_def split: option.splits dest!: map_of_SomeD)
  then have "0 \<le> tokens + f64 (as_secs_f64 (duration_since now last_seen) * lim_refill_per_sec l)"
    using cap by simp
  then show "is_f64 (tokens_at l now ip)" "0 \<le> tokens_at l now ip" "tokens_at l now ip \<le> lim_capacity l"
    using cap b by (auto simp: tokens_at_def min_def)
qed

lemma set_update_subset: "set (AList.update k v al) \<subseteq> insert (k, v) (set al)"
  by (induction al) auto

lemma limiter_ok_update:
  assumes "limiter_ok l" "is_f64 t" "0 \<le> t" "t \<le> lim_capacity l"
  shows "limiter_ok (l\<lparr>lim_buckets := AList.update ip (t, now) (lim_buckets l)\<rparr>)"
  using assms set_update_subset [of ip "(t, now)" "lim_buckets l"]
  by (auto simp: limiter_ok_def distinct_update)

lemma spent_bounds:
  assumes "limiter_ok l" "1 \<le> tokens_at l now ip"
  shows "is_f64 (f64 (tokens_at l now ip - 1))" "0 \<le> f64 (tokens_at l now ip - 1)"
    "f64 (tokens_at l now ip - 1) \<le> lim_capacity l"
  using assms tokens_at_bounds [OF assms(1), of now ip]
  by (auto simp: limiter_ok_def intro: f64_le)

lemma limiter_ok_rv_allow: "limiter_ok l \<Longrightarrow> limiter_ok (snd (rv_allow l now ip))"
  using tokens_at_bounds [of l now ip] spent_bounds [of l now ip]
  by (auto simp: rv_allow_eq Let_def intro!: limiter_ok_update)

lemma limiter_ok_filter:
  "limiter_ok l \<Longrightarrow> limiter_ok (l\<lparr>lim_buckets := filter P (lim_buckets l)\<rparr>)"
  by (auto simp: limiter_ok_def distinct_map_filter)

lemma evict_is_filter:
  "\<exists>P. evict_full_buckets iter l now = l\<lparr>lim_buckets := filter P (lim_buckets l)\<rparr>"
proof -
  have "\<exists>P. l = l\<lparr>lim_buckets := filter P (lim_buckets l)\<rparr>"
    by (rule exI [of _ "\<lambda>_. True"]) simp
  then show ?thesis
    by (auto simp: evict_full_buckets_def Let_def)
qed

lemma limiter_ok_sub_allow: "limiter_ok l \<Longrightarrow> limiter_ok (snd (sub_allow iter l now ip))"
  using limiter_ok_rv_allow [of l now ip] limiter_ok_filter
    evict_is_filter [of iter "snd (rv_allow l now ip)" now]
  by (auto simp: sub_allow_eq)

lemma tokens_at_same_instant:
  assumes "is_f64 t" "0 \<le> t" "t \<le> lim_capacity l" "map_of (lim_buckets l) ip = Some (t, now)"
  shows "tokens_at l now ip = t"
  using assms by (simp add: tokens_at_def duration_since_def f64_exact)

lemma tokens_after_rv_allow:
  assumes "limiter_ok l"
  shows "tokens_at (snd (rv_allow l now ip)) now ip =
    (if 1 \<le> tokens_at l now ip then f64 (tokens_at l now ip - 1) else tokens_at l now ip)"
  using tokens_at_bounds [OF assms, of now ip] spent_bounds [OF assms, of now ip]
  by (auto simp: rv_allow_eq Let_def update_conv intro!: tokens_at_same_instant)

lemma tokens_le_2p53: "limiter_ok l \<Longrightarrow> tokens_at l now ip \<le> 2 ^ 53"
  using tokens_at_bounds(3) [of l now ip] by (auto simp: limiter_ok_def)

lemma f64_spent_le:
  assumes "1 \<le> t" "t \<le> of_nat (Suc n)" "n \<le> 2 ^ 53"
  shows "f64 (t - 1) \<le> of_nat n"
  using assms by (intro f64_le) (simp_all add: representable_of_nat)

interpretation rv: token_bucket rv_allow limiter_ok "\<lambda>_ _. True" tokens_at
proof unfold_locales
  fix l now ip n
  assume ok: "limiter_ok l"
  show "limiter_ok (snd (rv_allow l now ip))"
    using ok by (rule limiter_ok_rv_allow)
  show "fst (rv_allow l now ip) \<longleftrightarrow> 1 \<le> tokens_at l now ip"
    by (simp add: rv_allow_eq Let_def)
  show "tokens_at l now ip \<le> 2 ^ 53"
    using ok by (rule tokens_le_2p53)
  show "tokens_at (snd (rv_allow l now ip)) now ip \<le> of_nat n"
    if "n \<le> 2 ^ 53" "fst (rv_allow l now ip)" "tokens_at l now ip \<le> of_nat (Suc n)"
    using that f64_spent_le [of "tokens_at l now ip" n] tokens_after_rv_allow [OF ok]
    by (auto simp: rv_allow_eq Let_def split: if_splits)
  show "tokens_at (snd (rv_allow l now ip)) now ip = tokens_at l now ip"
    if "\<not> fst (rv_allow l now ip)"
    using that tokens_after_rv_allow [OF ok] by (auto simp: rv_allow_eq Let_def split: if_splits)
qed simp_all

subsection \<open>The bounded table\<close>

definition sub_room :: "RateLimiter \<Rightarrow> ip_addr \<Rightarrow> bool" where
  "sub_room l ip \<longleftrightarrow>
     length (lim_buckets l) + (if ip \<in> fst ` set (lim_buckets l) then 0 else 1) \<le> MAX_BUCKETS"

lemma length_update:
  "length (AList.update k v al) = length al + (if k \<in> fst ` set al then 0 else 1)"
  by (induction al) auto

lemma length_rv_allow:
  "length (lim_buckets (snd (rv_allow l now ip))) =
     length (lim_buckets l) + (if ip \<in> fst ` set (lim_buckets l) then 0 else 1)"
  by (simp add: rv_allow_eq Let_def length_update)

lemma sub_allow_room: "sub_room l ip \<Longrightarrow> sub_allow iter l now ip = rv_allow l now ip"
  by (simp add: sub_allow_eq evict_full_buckets_def length_rv_allow sub_room_def)

lemma ip_in_rv_allow: "ip \<in> fst ` set (lim_buckets (snd (rv_allow l now ip)))"
  by (simp add: rv_allow_eq Let_def update_conv' flip: dom_map_of_conv_image_fst)

lemma sub_room_allow: "sub_room l ip \<Longrightarrow> sub_room (snd (rv_allow l now ip)) ip"
  using ip_in_rv_allow [of ip l now] by (simp add: sub_room_def length_rv_allow)

interpretation sub: token_bucket "sub_allow iter" limiter_ok sub_room tokens_at for iter
proof unfold_locales
  fix l now ip n
  show "sub_room l ip \<Longrightarrow> sub_room (snd (sub_allow iter l now ip)) ip"
    by (simp add: sub_allow_room sub_room_allow)
  assume ok: "limiter_ok l"
  show "limiter_ok (snd (sub_allow iter l now ip))"
    using ok by (rule limiter_ok_sub_allow)
  show "fst (sub_allow iter l now ip) \<longleftrightarrow> 1 \<le> tokens_at l now ip"
    using rv.allow_iff [OF ok] by (simp add: sub_allow_eq)
  show "tokens_at l now ip \<le> 2 ^ 53"
    using ok by (rule tokens_le_2p53)
  assume room: "sub_room l ip"
  show "tokens_at (snd (sub_allow iter l now ip)) now ip \<le> of_nat n"
    if "n \<le> 2 ^ 53" "fst (sub_allow iter l now ip)" "tokens_at l now ip \<le> of_nat (Suc n)"
    using rv.tokens_spent [OF ok] that by (simp add: sub_allow_room [OF room])
  show "tokens_at (snd (sub_allow iter l now ip)) now ip = tokens_at l now ip"
    if "\<not> fst (sub_allow iter l now ip)"
    using rv.tokens_kept [OF ok] that by (simp add: sub_allow_room [OF room])
qed

lemma filter_keys_length:
  assumes "distinct (map fst xs)" "finite K"
  shows "length (filter (\<lambda>(ip, _). ip \<in> K) xs) \<le> card K"
proof -
  have "length (filter (\<lambda>(ip, _). ip \<in> K) xs) = card (fst ` set (filter (\<lambda>(ip, _). ip \<in> K) xs))"
    using assms(1) distinct_card [of "map fst (filter (\<lambda>(ip, _). ip \<in> K) xs)"]
    by (simp add: distinct_map_filter)
  also have "\<dots> \<le> card K"
    using assms(2) by (intro card_mono) auto
  finally show ?thesis .
qed

lemma evict_length:
  assumes "distinct (map fst (lim_buckets l))"
  shows "length (lim_buckets (evict_full_buckets iter l now)) \<le> MAX_BUCKETS"
proof -
  have trim: "TRIM_TO \<le> MAX_BUCKETS"
    by (simp add: TRIM_TO_def)
  have "length (filter (\<lambda>(ip, _). ip \<in> set (map fst (take TRIM_TO xs))) (filter P (lim_buckets l)))
      \<le> TRIM_TO" for P and xs :: "(ip_addr \<times> instant) list"
  proof -
    have "length (filter (\<lambda>(ip, _). ip \<in> set (map fst (take TRIM_TO xs))) (filter P (lim_buckets l)))
        \<le> card (set (map fst (take TRIM_TO xs)))"
      using assms by (intro filter_keys_length) (simp_all add: distinct_map_filter)
    also have "\<dots> \<le> length (map fst (take TRIM_TO xs))"
      by (rule card_length)
    finally show ?thesis
      by simp
  qed
  then show ?thesis
    using trim by (auto simp: evict_full_buckets_def Let_def intro: order_trans)
qed

lemma limiter_ok_new:
  "is_f64 cap \<Longrightarrow> 1 \<le> cap \<Longrightarrow> cap \<le> 2 ^ 53 \<Longrightarrow> 0 \<le> refill \<Longrightarrow> limiter_ok (RateLimiter_new cap refill)"
  by (simp add: limiter_ok_def RateLimiter_new_def)

definition limiter_requests ::
    "(RateLimiter \<Rightarrow> instant \<Rightarrow> ip_addr \<Rightarrow> bool \<times> RateLimiter) \<Rightarrow> RateLimiter \<Rightarrow>
     (instant \<times> ip_addr) list \<Rightarrow> RateLimiter" where
  "limiter_requests allow l reqs = foldl (\<lambda>l (now, ip). snd (allow l now ip)) l reqs"

lemma limiter_ok_requests:
  "limiter_ok l \<Longrightarrow> limiter_ok (limiter_requests rv_allow l reqs)"
  "limiter_ok l \<Longrightarrow> limiter_ok (limiter_requests (sub_allow iter) l reqs)"
  by (induction reqs arbitrary: l)
    (auto simp: limiter_requests_def limiter_ok_rv_allow limiter_ok_sub_allow)

lemma sub_requests_bounded:
  assumes "limiter_ok l" "bucket_count l \<le> MAX_BUCKETS"
  shows "bucket_count (limiter_requests (sub_allow iter) l reqs) \<le> MAX_BUCKETS"
  using assms
proof (induction reqs arbitrary: l)
  case (Cons r reqs)
  obtain now ip where r: "r = (now, ip)"
    by (cases r)
  have "distinct (map fst (lim_buckets (snd (rv_allow l now ip))))"
    using limiter_ok_rv_allow [OF Cons.prems(1)] by (simp add: limiter_ok_def)
  then have "bucket_count (snd (sub_allow iter l now ip)) \<le> MAX_BUCKETS"
    unfolding bucket_count_def sub_allow_eq snd_conv by (rule evict_length)
  then show ?case
    using Cons.IH [OF limiter_ok_sub_allow [OF Cons.prems(1)]] r
    by (simp add: limiter_requests_def)
qed (simp add: limiter_requests_def)

subsection \<open>Properties\<close>

text \<open>Whatever requests a rendezvous limiter of integral capacity has served, from whatever
  addresses at whatever times, at most that many requests of one address are granted at
  one instant, rounding of the token count included.\<close>

theorem rendezvous_burst_bounded:
  assumes "1 \<le> cap" "cap \<le> 2 ^ 53" "0 \<le> refill"
    and "l = limiter_requests rv_allow (RateLimiter_new (of_nat cap) refill) reqs"
  shows "granted rv_allow l ip (replicate k now) \<le> cap"
proof -
  have ok: "limiter_ok l"
    unfolding assms(4)
  proof (intro limiter_ok_requests limiter_ok_new)
    show "(of_nat cap :: rat) \<le> 2 ^ 53"
      using assms(2) of_nat_mono [of cap "2 ^ 53", where ?'a = rat] by simp
  qed (use assms(1-3) in \<open>simp_all add: representable_of_nat\<close>)
  have "lim_capacity l = of_nat cap"
    unfolding assms(4) limiter_requests_def
    by (induction reqs rule: rev_induct) (auto simp: RateLimiter_new_def rv_allow_eq Let_def)
  then have "tokens_at l now ip \<le> of_nat cap"
    using tokens_at_bounds(3) [OF ok, of now ip] by simp
  then show ?thesis
    using rv.granted_burst [OF ok _ assms(2)] by simp
qed

theorem rendezvous_burst_bounded_witness:
  "granted rv_allow (RateLimiter_new (of_nat 20) 5) (V4 0) (replicate 100 7) \<le> 20"
  by (rule rendezvous_burst_bounded [of 20 5 _ "[]"]) (simp_all add: limiter_requests_def)



text \<open>A peer that has waited long enough for one token to accrue is granted its next request
  by either limiter, whatever happened before: no peer is locked out for good.\<close>

theorem limiter_recovers:
  assumes "limiter_ok l"
    and "map_of (lim_buckets l) ip = Some (tokens, last_seen)"
    and "1 \<le> as_secs_f64 (duration_since now last_seen) * lim_refill_per_sec l"
  shows "fst (rv_allow l now ip) \<and> fst (sub_allow iter l now ip)"
proof -
  let ?r = "as_secs_f64 (duration_since now last_seen) * lim_refill_per_sec l"
  have "0 \<le> tokens" "1 \<le> lim_capacity l"
    using assms(1) map_of_SomeD [OF assms(2)] by (auto simp: limiter_ok_def)
  moreover have "1 \<le> f64 ?r"
    using assms(3) by (intro le_f64) simp_all
  ultimately have "1 \<le> f64 (tokens + f64 ?r)"
    by (intro le_f64) simp_all
  then have "1 \<le> tokens_at l now ip"
    using assms(2) \<open>1 \<le> lim_capacity l\<close> by (simp add: tokens_at_def)
  then show ?thesis
    using rv.allow_iff [OF assms(1)] sub.allow_iff [OF assms(1)] by simp
qed

theorem limiter_recovers_witness:
  "fst (rv_allow \<lparr>lim_buckets = [(V4 9, 0, 0)], lim_capacity = 20, lim_refill_per_sec = 5\<rparr>
          1000000000 (V4 9))"
proof -
  have "limiter_ok \<lparr>lim_buckets = [(V4 9, 0, 0)], lim_capacity = 20, lim_refill_per_sec = 5\<rparr>"
    using representable_of_nat [of 20 53 "- 1074"] by (simp add: limiter_ok_def)
  moreover have "as_secs_f64 1000000000 = 1"
    by (simp add: as_secs_f64_def f64_exact)
  then have "1 \<le> as_secs_f64 (duration_since 1000000000 0) * 5"
    by (simp add: duration_since_def)
  ultimately show ?thesis
    using limiter_recovers [of "\<lparr>lim_buckets = [(V4 9, 0, 0)], lim_capacity = 20,
        lim_refill_per_sec = 5\<rparr>" "V4 9" 0 0 1000000000] by simp
qed

end
