(* ===== verification/Rendezvous.thy ===== *)
theory Rendezvous
  imports Config_Bundle Rate_Limiter
begin

text \<open>
  The rendezvous service (\<^verbatim>\<open>services/rendezvous\<close>) and its client (\<^verbatim>\<open>crates/rendezvous-client\<close>):
  the handlers that issue signed relay subsets and serve the revocation list, the loading
  of the signing keys at start-up, and the client's fetch, verification and cache. The
  random choices (\<open>choose_multiple\<close>, \<open>fill_bytes\<close>) and the HTTP client (\<open>http_get\<close>) are parameters.
  The lemmas show that what the service issues is what the client accepts, and that the
  client returns nothing it has not verified, from the network or from its cache.
\<close>

subsection \<open>Service state\<close>

record RelayPoolEntry =
  rp_id :: string
  rp_transport :: string
  rp_address :: string
  rp_provider_tag :: string
  rp_capabilities :: "string list"
  rp_cert_sha256_hex :: string

definition EndpointDescriptor_from :: "RelayPoolEntry \<Rightarrow> EndpointDescriptor" where
  "EndpointDescriptor_from e =
     \<lparr>ed_id = rp_id e, ed_transport = rp_transport e, ed_address = rp_address e,
      ed_provider_tag = rp_provider_tag e, ed_capabilities = rp_capabilities e,
      ed_cert_sha256_hex = rp_cert_sha256_hex e\<rparr>"

record AppState =
  st_bundle_key :: KeyPair
  st_bundle_key_cert :: KeyCertificate
  st_release_key_cert :: KeyCertificate
  st_pool :: "RelayPoolEntry list"
  st_subset_size :: nat
  st_ttl_secs :: u64
  st_rate_limiter :: RateLimiter
  st_revocation_list_bytes :: "u8 list option"

datatype rv_response =
    RvText nat string
  | RvBundle SignedBundle
  | RvBytes nat string "u8 list"

record 'g rv_rng =
  choose_multiple :: "RelayPoolEntry list \<Rightarrow> nat \<Rightarrow> 'g \<Rightarrow> RelayPoolEntry list \<times> 'g"
  fill_bytes :: "nat \<Rightarrow> 'g \<Rightarrow> u8 list \<times> 'g"

subsection \<open>Handlers\<close>

definition get_relay_bundle ::
    "ed25519 \<Rightarrow> hex_codec \<Rightarrow> (RelayBundlePayload \<Rightarrow> string + u8 list) \<Rightarrow> 'g rv_rng \<Rightarrow> AppState \<Rightarrow>
     ip_addr \<Rightarrow> instant \<Rightarrow> UnixSeconds \<Rightarrow> 'g \<Rightarrow> rv_response \<times> AppState" where
  "get_relay_bundle ed hx to_vec r state ip now_instant now rng =
     (let (allowed, limiter) = rv_allow (st_rate_limiter state) now_instant ip;
          state = state\<lparr>st_rate_limiter := limiter\<rparr>
      in if \<not> allowed then (RvText 429 ''rate limited'', state)
      else let
          n = min (st_subset_size state) (length (st_pool state));
          (chosen, rng) = choose_multiple r (st_pool state) n rng;
          subset = map EndpointDescriptor_from chosen;
          (nonce_bytes, rng) = fill_bytes r 16 rng;
          payload = \<lparr>rb_schema_version = CURRENT_SCHEMA_VERSION, rb_issued_at = now,
                     rb_expires_at = saturating_add_secs now (st_ttl_secs state),
                     rb_nonce = hex_encode hx nonce_bytes, rb_endpoints = subset\<rparr>
        in case SignedBundle_sign ed to_vec payload (st_bundle_key state)
                  (st_bundle_key_cert state) (st_release_key_cert state) of
             Inr b \<Rightarrow> (RvBundle b, state)
           | Inl e \<Rightarrow> (RvText 500 ''signing error'', state))"

definition get_revocation_list :: "AppState \<Rightarrow> rv_response" where
  "get_revocation_list state =
     (case st_revocation_list_bytes state of
        Some bytes \<Rightarrow> RvBytes 200 ''application/json'' bytes
      | None \<Rightarrow> RvText 404 ''no revocation list configured'')"

definition rv_health :: rv_response where
  "rv_health = RvText 200 ''ok''"

datatype rv_route = RelayBundle | RevocationListRoute | Healthz

definition rv_router :: "string \<Rightarrow> rv_route option" where
  "rv_router p =
     (if p = ''/v1/relay-bundle'' then Some RelayBundle
      else if p = ''/v1/revocation-list'' then Some RevocationListRoute
      else if p = ''/healthz'' then Some Healthz
      else None)"

definition dev_key_hierarchy ::
    "ed25519 \<Rightarrow> KeyPair \<Rightarrow> KeyPair \<Rightarrow> KeyPair \<Rightarrow> UnixSeconds \<Rightarrow> UnixSeconds
      \<Rightarrow> PublicKey \<times> KeyPair \<times> KeyCertificate \<times> KeyCertificate" where
  "dev_key_hierarchy ed root_key release bundle_key now1 now2 =
     (public_key ed root_key, bundle_key,
      KeyCertificate_issue ed release (public_key ed bundle_key) now2,
      KeyCertificate_issue ed root_key (public_key ed release) now1)"

subsection \<open>Start-up: the signing keys\<close>

record CertFile =
  cf_public_key :: PublicKey
  cf_cert :: KeyCertificate

fun CryptoError_display :: "CryptoError \<Rightarrow> string" where
  "CryptoError_display InvalidSignature = ''invalid signature''"
| "CryptoError_display (MalformedKey m) = ''malformed key material: '' @ m"
| "CryptoError_display (InsecureKeyPermissions m) = ''key file permissions too permissive: '' @ m"

definition load_signing_keys ::
    "ed25519 \<Rightarrow> hex_codec \<Rightarrow> (path \<Rightarrow> string) \<Rightarrow> (u32 \<Rightarrow> string) \<Rightarrow> (u8 list \<Rightarrow> string + CertFile) \<Rightarrow>
     path \<Rightarrow> path \<Rightarrow> world \<Rightarrow> (string + KeyPair \<times> KeyCertificate \<times> KeyCertificate) \<times> world" where
  "load_signing_keys ed hx dbg oct from_slice key_dir release_cert_path =
     bind_io (map_err_io CryptoError_display
                (load_from_file hx dbg oct (path_join key_dir [''bundle.key'']))) (\<lambda>bundle_key.
     bind_io (map_err_io io_detail (fs_read (path_join key_dir [''bundle.cert.json'']))) (\<lambda>bytes.
     bind_io (lift_r (from_slice bytes)) (\<lambda>bundle_cert_file.
     if cf_public_key bundle_cert_file \<noteq> public_key ed bundle_key
     then fail_io ''bundle.cert.json does not certify bundle.key's public key''
     else
     bind_io (map_err_io io_detail (fs_read release_cert_path)) (\<lambda>bytes.
     bind_io (lift_r (from_slice bytes)) (\<lambda>release_cert_file.
     return_io (bundle_key, cf_cert bundle_cert_file, cf_cert release_cert_file))))))"

definition startup_hierarchy ::
    "ed25519 \<Rightarrow> hex_codec \<Rightarrow> (path \<Rightarrow> string) \<Rightarrow> (u32 \<Rightarrow> string) \<Rightarrow> (u8 list \<Rightarrow> string + CertFile) \<Rightarrow>
     (KeyPair \<times> KeyPair \<times> KeyPair) \<Rightarrow> path \<Rightarrow> path option \<Rightarrow> path option \<Rightarrow> world \<Rightarrow>
     (string + KeyPair \<times> KeyCertificate \<times> KeyCertificate) \<times> world" where
  "startup_hierarchy ed hx dbg oct from_slice generated root_pub_path key_dir release_cert_file =
     (case (key_dir, release_cert_file) of
        (Some kd, Some rc) \<Rightarrow> load_signing_keys ed hx dbg oct from_slice kd rc
      | (None, None) \<Rightarrow> (\<lambda>w.
          let (root_key, release, bundle) = generated;
              (root_pub, bundle_key, bundle_cert, release_cert) =
                dev_key_hierarchy ed root_key release bundle (w_unix_time w) (w_unix_time w)
          in bind_io (map_err_io io_detail (fs_write root_pub_path (as_bytes (hex_encode hx root_pub))))
               (\<lambda>_. return_io (bundle_key, bundle_cert, release_cert)) w)
      | _ \<Rightarrow> fail_io ''--key-dir and --release-cert-file must be given together'')"

subsection \<open>Client\<close>

datatype RendezvousClientError =
    Fetch string
  | Verify ConfigError
  | NoCache
  | IoError io_error
  | CacheCorrupt string

definition HttpSource_fetch ::
    "(string \<Rightarrow> string + nat \<times> (string + SignedBundle)) \<Rightarrow> (nat \<Rightarrow> string) \<Rightarrow> string \<Rightarrow>
     RendezvousClientError + SignedBundle" where
  "HttpSource_fetch http_get status_text base_url =
     bind_r (map_err Fetch (http_get (base_url @ ''/v1/relay-bundle''))) (\<lambda>(status, json).
       if \<not> (200 \<le> status \<and> status < 300)
       then Inl (Fetch (''http status '' @ status_text status))
       else map_err Fetch json)"

record RendezvousClient =
  rc_trust_root :: TrustRoot
  rc_cache_path :: path

record bundle_json =
  bj_to_vec :: "SignedBundle \<Rightarrow> string + u8 list"
  bj_from_slice :: "u8 list \<Rightarrow> string + SignedBundle"
  pj_from_slice :: "u8 list \<Rightarrow> string + RelayBundlePayload"

definition write_cache ::
    "bundle_json \<Rightarrow> RendezvousClient \<Rightarrow> SignedBundle \<Rightarrow> world \<Rightarrow> (RendezvousClientError + unit) \<times> world"
  where
  "write_cache j c bundle =
     bind_io (lift_r (map_err CacheCorrupt (bj_to_vec j bundle)))
       (\<lambda>bytes. map_err_io IoError (fs_write (rc_cache_path c) bytes))"

definition read_cache ::
    "bundle_json \<Rightarrow> RendezvousClient \<Rightarrow> world \<Rightarrow> (RendezvousClientError + SignedBundle) \<times> world" where
  "read_cache j c =
     bind_io (path_exists (rc_cache_path c)) (\<lambda>ex.
       if \<not> ex then fail_io NoCache
       else bind_io (map_err_io IoError (fs_read (rc_cache_path c)))
              (\<lambda>bytes. lift_r (map_err CacheCorrupt (bj_from_slice j bytes))))"

definition get_bundle ::
    "ed25519 \<Rightarrow> bundle_json \<Rightarrow> RendezvousClient \<Rightarrow> (RendezvousClientError + SignedBundle) \<Rightarrow>
     RevocationList \<Rightarrow> world \<Rightarrow> (RendezvousClientError + RelayBundlePayload) \<times> world" where
  "get_bundle ed j c fetched revoked w =
     (case fetched of
        Inr bundle \<Rightarrow>
          bind_io (lift_r (map_err Verify
                     (verify_bundle ed (pj_from_slice j) bundle (rc_trust_root c) revoked (w_unix_time w))))
            (\<lambda>payload. bind_io (write_cache j c bundle) (\<lambda>_. return_io payload)) w
      | Inl fetch_err \<Rightarrow>
          bind_io (read_cache j c)
            (\<lambda>cached w. lift_r (map_err Verify
               (verify_bundle ed (pj_from_slice j) cached (rc_trust_root c) revoked (w_unix_time w))) w) w)"

subsection \<open>Lemmas\<close>

definition choose_multiple_ok :: "'g rv_rng \<Rightarrow> bool" where
  "choose_multiple_ok r \<longleftrightarrow>
     (\<forall>pool n rng. n \<le> length pool \<longrightarrow>
        length (fst (choose_multiple r pool n rng)) = n \<and>
        mset (fst (choose_multiple r pool n rng)) \<subseteq># mset pool)"

lemma get_relay_bundle_issues:
  assumes "get_relay_bundle ed hx to_vec r st ip now_instant now rng = (RvBundle b, st')"
  obtains chosen nonce rng' where
    "chosen = fst (choose_multiple r (st_pool st) (min (st_subset_size st) (length (st_pool st))) rng)"
    and "SignedBundle_sign ed to_vec
      \<lparr>rb_schema_version = 1, rb_issued_at = now,
       rb_expires_at = saturating_add_secs now (st_ttl_secs st),
       rb_nonce = nonce, rb_endpoints = map EndpointDescriptor_from chosen\<rparr>
      (st_bundle_key st) (st_bundle_key_cert st) (st_release_key_cert st) = Inr b"
    and "fst (rv_allow (st_rate_limiter st) now_instant ip)"
  using assms
  by (auto simp: get_relay_bundle_def Let_def CURRENT_SCHEMA_VERSION_def
      split: prod.splits if_splits sum.splits)

lemma write_cache_result:
  assumes "write_cache j c b w = (Inr (), w')"
  obtains bs where "bj_to_vec j b = Inr bs" "fs_write (rc_cache_path c) bs w = (Inr (), w')"
  using assms
  by (auto simp: write_cache_def bind_io_def lift_r_def map_err_io_def map_err_eq_Inr
      split: sum.splits prod.splits)

lemma get_bundle_fetched:
  assumes "get_bundle ed j c (Inr b) rl w = (Inr p, w')"
  shows "verify_bundle ed (pj_from_slice j) b (rc_trust_root c) rl (w_unix_time w) = Inr p"
    and "\<exists>n bs. bj_to_vec j b = Inr bs \<and> w_fs w' (rc_cache_path c) = Some n \<and> \<not> i_dir n \<and>
           i_content n = bs"
proof -
  have v: "verify_bundle ed (pj_from_slice j) b (rc_trust_root c) rl (w_unix_time w) = Inr p"
    and wr: "write_cache j c b w = (Inr (), w')"
    using assms
    by (auto simp: get_bundle_def bind_io_def lift_r_def return_io_def map_err_eq_Inr
        split: sum.splits prod.splits)
  from wr obtain bs where "bj_to_vec j b = Inr bs" "fs_write (rc_cache_path c) bs w = (Inr (), w')"
    by (rule write_cache_result)
  with fs_write_content show "\<exists>n bs. bj_to_vec j b = Inr bs \<and> w_fs w' (rc_cache_path c) = Some n \<and>
      \<not> i_dir n \<and> i_content n = bs"
    by blast
  show "verify_bundle ed (pj_from_slice j) b (rc_trust_root c) rl (w_unix_time w) = Inr p"
    by (rule v)
qed

lemma read_cache_result:
  assumes "read_cache j c w = (Inr b, w')"
  shows "\<exists>n. w_fs w (rc_cache_path c) = Some n \<and> bj_from_slice j (i_content n) = Inr b"
    and "w_fs w' = w_fs w" "w_unix_time w' = w_unix_time w"
proof -
  from assms obtain w1 bs where 1: "path_exists (rc_cache_path c) w = (Inr True :: RendezvousClientError + bool, w1)"
    and 2: "fs_read (rc_cache_path c) w1 = (Inr bs, w')" and 3: "bj_from_slice j bs = Inr b"
    by (auto simp: read_cache_def bind_io_def lift_r_def fail_io_def map_err_io_def map_err_eq_Inr
        split: sum.splits prod.splits if_splits)
  note e = path_exists_result [OF 1] and r = fs_read_result [OF 2]
  from e r 3 show "\<exists>n. w_fs w (rc_cache_path c) = Some n \<and> bj_from_slice j (i_content n) = Inr b"
    and "w_fs w' = w_fs w" "w_unix_time w' = w_unix_time w"
    by auto
qed

lemma get_bundle_cached:
  assumes "get_bundle ed j c (Inl e) rl w = (Inr p, w')"
  shows "\<exists>n b. w_fs w (rc_cache_path c) = Some n \<and> bj_from_slice j (i_content n) = Inr b \<and>
           verify_bundle ed (pj_from_slice j) b (rc_trust_root c) rl (w_unix_time w) = Inr p"
    and "w_fs w' = w_fs w"
proof -
  from assms obtain b where 1: "read_cache j c w = (Inr b, w')"
    and 2: "verify_bundle ed (pj_from_slice j) b (rc_trust_root c) rl (w_unix_time w') = Inr p"
    by (auto simp: get_bundle_def bind_io_def lift_r_def map_err_eq_Inr split: sum.splits prod.splits)
  note r = read_cache_result [OF 1]
  from r 2 show "\<exists>n b. w_fs w (rc_cache_path c) = Some n \<and> bj_from_slice j (i_content n) = Inr b \<and>
      verify_bundle ed (pj_from_slice j) b (rc_trust_root c) rl (w_unix_time w) = Inr p"
    and "w_fs w' = w_fs w"
    by auto
qed

lemma get_bundle_from_cache:
  assumes "w_faults w = []" "w_fs w (rc_cache_path c) = Some n" "\<not> i_dir n"
    and "bj_from_slice j (i_content n) = Inr b"
  shows "fst (get_bundle ed j c (Inl e) rl w) =
    map_err Verify (verify_bundle ed (pj_from_slice j) b (rc_trust_root c) rl (w_unix_time w))"
  using assms
  by (simp add: get_bundle_def read_cache_def bind_io_def path_exists_def try_io_def prim_def
      return_io_def map_err_io_def fs_read_def lift_r_def)

text \<open>The start-up check compares the public key written next to the certificate, not the key
  the certificate is for; with a certificate for another key the service starts and
  every bundle it issues is rejected.\<close>

lemma startup_accepts_foreign_cert:
  assumes "w_faults w = []"
    and "load_from_file hx dbg oct (path_join key_dir [''bundle.key'']) w = (Inr kp, w)"
    and "w_fs w (path_join key_dir [''bundle.cert.json'']) = Some n" "\<not> i_dir n"
    and "from_slice (i_content n) = Inr cf" "cf_public_key cf = public_key ed kp"
    and "w_fs w rc = Some n2" "\<not> i_dir n2" "from_slice (i_content n2) = Inr cf2"
  shows "fst (load_signing_keys ed hx dbg oct from_slice key_dir rc w) =
    Inr (kp, cf_cert cf, cf_cert cf2)"
  using assms
  by (simp add: load_signing_keys_def bind_io_def map_err_io_def fs_read_def prim_def lift_r_def
      return_io_def)

lemma foreign_cert_rejected:
  assumes "SignedBundle_sign ed to_vec payload kp cert rel_cert = Inr b"
    and "kc_child_key cert \<noteq> public_key ed kp"
  shows "verify_bundle ed from_slice b tr rl now \<noteq> Inr p"
  using assms by (auto simp: SignedBundle_sign_def verify_bundle_eq_Inr result_simps)

subsection \<open>Properties\<close>

text \<open>C28. A bundle the service issues under a certified bundle key lists endpoints of its pool
  only, each at most as often as the pool does, as many as the subset size allows, and
  any client that pins the root accepts it with exactly that content from the second it
  was issued until its lifetime (saturating at the end of time) is over.\<close>

theorem issued_bundle_accepted:
  assumes "ed25519_ok ed" "json_ok to_vec from_slice" "choose_multiple_ok r"
    and "length root_sk = 32" "length rel_sk = 32" "length (st_bundle_key st) = 32"
    and "st_bundle_key_cert st = KeyCertificate_issue ed rel_sk (public_key ed (st_bundle_key st)) t2"
    and "st_release_key_cert st = KeyCertificate_issue ed root_sk (public_key ed rel_sk) t1"
    and "get_relay_bundle ed hx to_vec r st ip now_instant now rng = (RvBundle b, st')"
  shows "\<exists>p. length (rb_endpoints p) = min (st_subset_size st) (length (st_pool st)) \<and>
     mset (rb_endpoints p) \<subseteq># mset (map EndpointDescriptor_from (st_pool st)) \<and>
     (\<forall>t. verify_bundle ed from_slice b \<lparr>root_public_key = public_key ed root_sk\<rparr>
            RevocationList_empty t =
          (if t < now then Inl (NotYetValid now t)
           else if saturating_add_secs now (st_ttl_secs st) \<le> t
             then Inl (Expired (saturating_add_secs now (st_ttl_secs st)) t)
           else Inr p))"
proof -
  from get_relay_bundle_issues [OF assms(9)] obtain chosen nonce where
    chosen: "chosen = fst (choose_multiple r (st_pool st)
        (min (st_subset_size st) (length (st_pool st))) rng)"
    and sign: "SignedBundle_sign ed to_vec
      \<lparr>rb_schema_version = 1, rb_issued_at = now,
       rb_expires_at = saturating_add_secs now (st_ttl_secs st),
       rb_nonce = nonce, rb_endpoints = map EndpointDescriptor_from chosen\<rparr>
      (st_bundle_key st) (st_bundle_key_cert st) (st_release_key_cert st) = Inr b" .
  let ?p = "\<lparr>rb_schema_version = 1, rb_issued_at = now,
       rb_expires_at = saturating_add_secs now (st_ttl_secs st),
       rb_nonce = nonce, rb_endpoints = map EndpointDescriptor_from chosen\<rparr>"
  have "length chosen = min (st_subset_size st) (length (st_pool st))" "mset chosen \<subseteq># mset (st_pool st)"
    using assms(3) chosen by (auto simp: choose_multiple_ok_def)
  then have "length (rb_endpoints ?p) = min (st_subset_size st) (length (st_pool st))"
    "mset (rb_endpoints ?p) \<subseteq># mset (map EndpointDescriptor_from (st_pool st))"
    by (simp_all add: image_mset_subseteq_mono)
  moreover note signed_bundle_outcome [OF assms(1,2,4-6) sign [unfolded assms(7,8)],
      where rl = RevocationList_empty]
  ultimately show ?thesis
    by (intro exI [of _ ?p]) (simp add: RevocationList_empty_def)
qed

definition first_of_pool :: "unit rv_rng" where
  "first_of_pool =
     \<lparr>choose_multiple = (\<lambda>pool n rng. (take n pool, rng)), fill_bytes = (\<lambda>n rng. (replicate n 0, rng))\<rparr>"

lemma first_of_pool_ok: "choose_multiple_ok first_of_pool"
proof -
  have "mset (take n pool) \<subseteq># mset pool" for n and pool :: "RelayPoolEntry list"
    by (metis append_take_drop_id mset_append mset_subset_eq_add_left)
  then show ?thesis
    by (simp add: choose_multiple_ok_def first_of_pool_def min_absorb2)
qed

definition demo_state :: AppState where
  "demo_state =
     \<lparr>st_bundle_key = replicate 32 3,
      st_bundle_key_cert = KeyCertificate_issue echo_scheme (replicate 32 2) (replicate 32 3) 2,
      st_release_key_cert = KeyCertificate_issue echo_scheme (replicate 32 1) (replicate 32 2) 1,
      st_pool = [], st_subset_size = 5, st_ttl_secs = 900,
      st_rate_limiter = RateLimiter_new 20 5, st_revocation_list_bytes = None\<rparr>"

definition demo_issued :: RelayBundlePayload where
  "demo_issued = \<lparr>rb_schema_version = 1, rb_issued_at = 100, rb_expires_at = 1000,
     rb_nonce = concat (map hex_byte (replicate 16 0)), rb_endpoints = []\<rparr>"

theorem issued_bundle_accepted_witness:
  "\<exists>b st' p. get_relay_bundle echo_scheme plain_hex (\<lambda>p. if p = demo_issued then Inr [7] else Inl [])
      first_of_pool demo_state (V4 1) 5 100 () = (RvBundle b, st') \<and>
    verify_bundle echo_scheme (\<lambda>_. Inr demo_issued) b \<lparr>root_public_key = replicate 32 1\<rparr>
      RevocationList_empty 999 = Inr p"
proof -
  let ?to_vec = "\<lambda>p. if p = demo_issued then Inr [7] else Inl []"
  have pk: "public_key echo_scheme k = k" for k
    by (simp add: public_key_def echo_scheme_def)
  obtain b st' where run: "get_relay_bundle echo_scheme plain_hex ?to_vec
      first_of_pool demo_state (V4 1) 5 100 () = (RvBundle b, st')"
    by (auto simp: get_relay_bundle_def demo_state_def first_of_pool_def rv_allow_def
        RateLimiter_new_def Let_def SignedBundle_sign_def demo_issued_def plain_hex_def
        CURRENT_SCHEMA_VERSION_def saturating_add_secs_def saturating_add_def f64_exact
        representable_of_nat [of 20 53 "- 1074", simplified] duration_since_def)
  have js: "json_ok ?to_vec (\<lambda>_. Inr demo_issued)"
    by (simp add: json_ok_def)
  from issued_bundle_accepted [OF echo_scheme_ok js first_of_pool_ok, of "replicate 32 1"
      "replicate 32 2" demo_state 2 1, OF _ _ _ _ _ run]
  show ?thesis
    using run by (auto simp: demo_state_def pk saturating_add_secs_def saturating_add_def)
qed

text \<open>C27. Whatever the network delivers, the client returns a payload only if a bundle verified
  against its pinned root, the revocation list and the current time. A fetched bundle
  that fails verification is reported as such and leaves the file system as it was, so a
  bad answer cannot displace a good cached bundle; a payload from the cache was
  re-verified at the current time, so an expired cache is never used.\<close>

theorem get_bundle_verified:
  "(get_bundle ed j c fetched rl w = (Inr p, w') \<longrightarrow>
     (\<exists>b. verify_bundle ed (pj_from_slice j) b (rc_trust_root c) rl (w_unix_time w) = Inr p \<and>
        (case fetched of
           Inr fb \<Rightarrow> b = fb
         | Inl _ \<Rightarrow> w_fs w' = w_fs w \<and>
             (\<exists>n. w_fs w (rc_cache_path c) = Some n \<and> bj_from_slice j (i_content n) = Inr b)))) \<and>
   (fetched = Inr b \<and>
    verify_bundle ed (pj_from_slice j) b (rc_trust_root c) rl (w_unix_time w) = Inl e \<longrightarrow>
      get_bundle ed j c fetched rl w = (Inl (Verify e), w))"
proof (intro conjI impI)
  assume run: "get_bundle ed j c fetched rl w = (Inr p, w')"
  show "\<exists>b. verify_bundle ed (pj_from_slice j) b (rc_trust_root c) rl (w_unix_time w) = Inr p \<and>
        (case fetched of
           Inr fb \<Rightarrow> b = fb
         | Inl _ \<Rightarrow> w_fs w' = w_fs w \<and>
             (\<exists>n. w_fs w (rc_cache_path c) = Some n \<and> bj_from_slice j (i_content n) = Inr b))"
  proof (cases fetched)
    case (Inl err)
    from get_bundle_cached [OF run [unfolded Inl]] show ?thesis
      by (auto simp: Inl)
  next
    case (Inr fb)
    from get_bundle_fetched(1) [OF run [unfolded Inr]] show ?thesis
      by (auto simp: Inr)
  qed
next
  assume "fetched = Inr b \<and>
    verify_bundle ed (pj_from_slice j) b (rc_trust_root c) rl (w_unix_time w) = Inl e"
  then show "get_bundle ed j c fetched rl w = (Inl (Verify e), w)"
    by (simp add: get_bundle_def bind_io_def lift_r_def)
qed

definition demo_json :: bundle_json where
  "demo_json =
     \<lparr>bj_to_vec = (\<lambda>b. if b = demo_bundle then Inr [1] else Inl ''other''),
      bj_from_slice = (\<lambda>_. Inr demo_bundle), pj_from_slice = (\<lambda>_. Inr demo_payload)\<rparr>"

definition demo_client :: RendezvousClient where
  "demo_client = \<lparr>rc_trust_root = \<lparr>root_public_key = replicate 32 1\<rparr>, rc_cache_path = [''b.json'']\<rparr>"

lemma demo_bundle_verifies:
  "verify_bundle echo_scheme (pj_from_slice demo_json) demo_bundle (rc_trust_root demo_client)
     RevocationList_empty 500 = Inr demo_payload"
  by code_simp

theorem get_bundle_verified_witness:
  "get_bundle echo_scheme demo_json demo_client (Inr demo_bundle) RevocationList_empty
     (empty_world\<lparr>w_unix_time := 5\<rparr>) = (Inl (Verify (NotYetValid 100 5)), empty_world\<lparr>w_unix_time := 5\<rparr>)"
proof -
  have "verify_bundle echo_scheme (pj_from_slice demo_json) demo_bundle (rc_trust_root demo_client)
     RevocationList_empty 5 = Inl (NotYetValid 100 5)"
    by code_simp
  then show ?thesis
    using get_bundle_verified [of echo_scheme demo_json demo_client "Inr demo_bundle"
        RevocationList_empty "empty_world\<lparr>w_unix_time := 5\<rparr>" demo_payload empty_world demo_bundle
        "NotYetValid 100 5"] by simp
qed

text \<open>Once a fetch succeeded, a later outage is bridged by the cache: the client then answers
  exactly as verifying the fetched bundle afresh, with the revocation list and time of
  the later call.\<close>

theorem outage_uses_cached_bundle:
  assumes "json_ok (bj_to_vec j) (bj_from_slice j)"
    and "get_bundle ed j c (Inr b) rl w = (Inr p, w')"
    and "w2 = w'\<lparr>w_unix_time := t, w_faults := []\<rparr>"
  shows "fst (get_bundle ed j c (Inl e) rl' w2) =
    map_err Verify (verify_bundle ed (pj_from_slice j) b (rc_trust_root c) rl' t)"
proof -
  from get_bundle_fetched(2) [OF assms(2)] obtain n where
    "w_fs w' (rc_cache_path c) = Some n" "\<not> i_dir n" "bj_to_vec j b = Inr (i_content n)"
    by blast
  moreover from this have "bj_from_slice j (i_content n) = Inr b"
    using assms(1) by (auto simp: json_ok_def)
  ultimately show ?thesis
    using get_bundle_from_cache [of w2 c n j b] assms(3) by simp
qed

theorem outage_uses_cached_bundle_witness:
  "let w' = snd (get_bundle echo_scheme demo_json demo_client (Inr demo_bundle) RevocationList_empty
                  (empty_world\<lparr>w_unix_time := 500\<rparr>))
   in fst (get_bundle echo_scheme demo_json demo_client (Inl (Fetch ''down'')) RevocationList_empty
             (w'\<lparr>w_unix_time := 500, w_faults := []\<rparr>)) = Inr demo_payload"
proof -
  let ?w = "empty_world\<lparr>w_unix_time := 500\<rparr>"
  let ?run = "get_bundle echo_scheme demo_json demo_client (Inr demo_bundle) RevocationList_empty ?w"
  have "fst ?run = Inr demo_payload"
    using demo_bundle_verifies
    by (simp add: get_bundle_def bind_io_def lift_r_def write_cache_def map_err_io_def return_io_def
        demo_json_def fs_write_def open_truncate_def write_all_def prim_def empty_world_def
        is_dir_at_def demo_client_def)
  then have "?run = (Inr demo_payload, snd ?run)"
    by (metis prod.collapse)
  moreover have "json_ok (bj_to_vec demo_json) (bj_from_slice demo_json)"
    by (simp add: json_ok_def demo_json_def)
  ultimately show ?thesis
    using outage_uses_cached_bundle [of demo_json echo_scheme demo_client demo_bundle
        RevocationList_empty ?w demo_payload "snd ?run" _ 500 "Fetch ''down''" RevocationList_empty]
      demo_bundle_verifies
    by (simp add: Let_def)
qed

end
