(* ===== verification/Keytool.thy ===== *)
theory Keytool
  imports Rendezvous "HOL-Library.List_Lexorder"
begin

text \<open>
  The offline ceremony tool \<^verbatim>\<open>apps/keytool/src/main.rs\<close>: generating the root key, issuing
  release and bundle keys, issuing revocation lists, and checking a chain of certificate
  files. Freshly generated keys are arguments; the JSON codecs are the parameter \<open>kj\<close>.
  Console output is left out.
\<close>

subsection \<open>Files\<close>

record keytool_json =
  kj_cert_to :: "CertFile \<Rightarrow> string + u8 list"
  kj_cert_from :: "u8 list \<Rightarrow> string + CertFile"
  kj_str_to :: "string \<Rightarrow> string + u8 list"
  kj_str_from :: "u8 list \<Rightarrow> string + string"
  kj_list_to :: "SignedRevocationList \<Rightarrow> string + u8 list"
  kj_list_from :: "u8 list \<Rightarrow> string + SignedRevocationList"

definition write_public_file ::
    "('a \<Rightarrow> string + u8 list) \<Rightarrow> (path \<Rightarrow> string) \<Rightarrow> path \<Rightarrow> 'a \<Rightarrow> world \<Rightarrow> (string + unit) \<times> world" where
  "write_public_file to_vec_pretty dbg p v =
     bind_io (path_exists p) (\<lambda>ex.
       if ex then fail_io (''refusing to overwrite existing file: '' @ dbg p)
       else bind_io (lift_r (to_vec_pretty v)) (\<lambda>bytes. map_err_io io_detail (fs_write p bytes)))"

definition read_cert_file ::
    "keytool_json \<Rightarrow> path \<Rightarrow> world \<Rightarrow> (string + CertFile) \<times> world" where
  "read_cert_file kj p =
     bind_io (map_err_io io_detail (fs_read p)) (\<lambda>bytes. lift_r (kj_cert_from kj bytes))"

definition parse_pubkey_hex :: "ed25519 \<Rightarrow> hex_codec \<Rightarrow> string \<Rightarrow> string + PublicKey" where
  "parse_pubkey_hex ed hx s = map_err CryptoError_display (from_hex ed hx s)"

fun parse_pubkeys :: "ed25519 \<Rightarrow> hex_codec \<Rightarrow> string list \<Rightarrow> string + PublicKey list" where
  "parse_pubkeys ed hx [] = Inr []"
| "parse_pubkeys ed hx (s # ss) =
     bind_r (parse_pubkey_hex ed hx s) (\<lambda>k. bind_r (parse_pubkeys ed hx ss) (\<lambda>ks. Inr (k # ks)))"

subsection \<open>Commands\<close>

record keytool_env =
  kt_ed :: ed25519
  kt_hx :: hex_codec
  kt_json :: keytool_json
  kt_dbg :: "path \<Rightarrow> string"
  kt_oct :: "u32 \<Rightarrow> string"

definition save_key ::
    "keytool_env \<Rightarrow> KeyPair \<Rightarrow> path \<Rightarrow> world \<Rightarrow> (string + unit) \<times> world" where
  "save_key e kp p = map_err_io CryptoError_display (save_to_file (kt_hx e) (kt_dbg e) kp p)"

definition load_key :: "keytool_env \<Rightarrow> path \<Rightarrow> world \<Rightarrow> (string + KeyPair) \<times> world" where
  "load_key e p = map_err_io CryptoError_display (load_from_file (kt_hx e) (kt_dbg e) (kt_oct e) p)"

definition root_init :: "keytool_env \<Rightarrow> KeyPair \<Rightarrow> path \<Rightarrow> world \<Rightarrow> (string + unit) \<times> world" where
  "root_init e new_key out_dir =
     bind_io (map_err_io io_detail (create_dir_all out_dir)) (\<lambda>_.
     bind_io (save_key e new_key (path_join out_dir [''root.key''])) (\<lambda>_.
     write_public_file (kj_str_to (kt_json e)) (kt_dbg e) (path_join out_dir [''root.pub''])
       (to_hex (kt_hx e) (public_key (kt_ed e) new_key))))"

definition release_issue ::
    "keytool_env \<Rightarrow> KeyPair \<Rightarrow> path \<Rightarrow> path \<Rightarrow> world \<Rightarrow> (string + unit) \<times> world" where
  "release_issue e new_key root_key_path out_dir =
     bind_io (load_key e root_key_path) (\<lambda>root_key.
     bind_io (map_err_io io_detail (create_dir_all out_dir)) (\<lambda>_ w.
     let cert = KeyCertificate_issue (kt_ed e) root_key (public_key (kt_ed e) new_key) (w_unix_time w)
     in bind_io (save_key e new_key (path_join out_dir [''release.key''])) (\<lambda>_.
        write_public_file (kj_cert_to (kt_json e)) (kt_dbg e)
          (path_join out_dir [''release.cert.json''])
          \<lparr>cf_public_key = public_key (kt_ed e) new_key, cf_cert = cert\<rparr>) w))"

definition bundle_issue ::
    "keytool_env \<Rightarrow> KeyPair \<Rightarrow> path \<Rightarrow> path \<Rightarrow> path \<Rightarrow> world \<Rightarrow> (string + unit) \<times> world" where
  "bundle_issue e new_key release_key_path release_cert_path out_dir =
     bind_io (load_key e release_key_path) (\<lambda>release.
     bind_io (read_cert_file (kt_json e) release_cert_path) (\<lambda>release_cert_file.
     if cf_public_key release_cert_file \<noteq> public_key (kt_ed e) release
     then fail_io ''release-cert does not certify the public key of release-key; wrong file pair?''
     else
     bind_io (map_err_io io_detail (create_dir_all out_dir)) (\<lambda>_ w.
     let cert = KeyCertificate_issue (kt_ed e) release (public_key (kt_ed e) new_key) (w_unix_time w)
     in bind_io (save_key e new_key (path_join out_dir [''bundle.key''])) (\<lambda>_.
        write_public_file (kj_cert_to (kt_json e)) (kt_dbg e)
          (path_join out_dir [''bundle.cert.json''])
          \<lparr>cf_public_key = public_key (kt_ed e) new_key, cf_cert = cert\<rparr>) w)))"

definition revoke_issue ::
    "keytool_env \<Rightarrow> path \<Rightarrow> path \<Rightarrow> string list \<Rightarrow> path option \<Rightarrow> path \<Rightarrow> world \<Rightarrow> (string + unit) \<times> world"
  where
  "revoke_issue e release_key_path release_cert_path revoke_hex existing out =
     bind_io (load_key e release_key_path) (\<lambda>release.
     bind_io (read_cert_file (kt_json e) release_cert_path) (\<lambda>release_cert_file.
     if cf_public_key release_cert_file \<noteq> public_key (kt_ed e) release
     then fail_io ''release-cert does not certify the public key of release-key; wrong file pair?''
     else
     bind_io (case existing of
                Some p \<Rightarrow> bind_io (map_err_io io_detail (fs_read p)) (\<lambda>bytes.
                            bind_io (lift_r (kj_list_from (kt_json e) bytes)) (\<lambda>prior.
                              return_io (srl_revoked_keys prior)))
              | None \<Rightarrow> return_io []) (\<lambda>prior_keys.
     bind_io (lift_r (parse_pubkeys (kt_ed e) (kt_hx e) revoke_hex)) (\<lambda>new_keys w.
     let keys = remdups_adj (sort (prior_keys @ new_keys));
         srl = SignedRevocationList_issue (kt_ed e) release (cf_cert release_cert_file) keys
                 (w_unix_time w)
     in bind_io (path_exists out) (\<lambda>ex.
          if ex then fail_io (''refusing to overwrite existing file: '' @ kt_dbg e out)
          else bind_io (lift_r (kj_list_to (kt_json e) srl)) (\<lambda>bytes.
                 map_err_io io_detail (fs_write out bytes))) w))))"

definition verify_chain ::
    "keytool_env \<Rightarrow> path \<Rightarrow> path \<Rightarrow> path option \<Rightarrow> world \<Rightarrow> (string + unit) \<times> world" where
  "verify_chain e root_pub release_cert bundle_cert =
     bind_io (map_err_io io_detail (fs_read root_pub)) (\<lambda>bytes.
     bind_io (lift_r (kj_str_from (kt_json e) bytes)) (\<lambda>root_pub_hex.
     bind_io (lift_r (map_err CryptoError_display (from_hex (kt_ed e) (kt_hx e) root_pub_hex)))
       (\<lambda>root_pk.
     bind_io (read_cert_file (kt_json e) release_cert) (\<lambda>release_cert_file.
     bind_io (lift_r (map_err (\<lambda>_. ''release cert does NOT chain to root'')
                (verify_against (kt_ed e) (cf_cert release_cert_file) root_pk))) (\<lambda>_.
     case bundle_cert of
       None \<Rightarrow> return_io ()
     | Some bp \<Rightarrow>
         bind_io (read_cert_file (kt_json e) bp) (\<lambda>bundle_cert_file.
           lift_r (map_err (\<lambda>_. ''bundle cert does NOT chain to release key'')
             (verify_against (kt_ed e) (cf_cert bundle_cert_file)
                (cf_public_key release_cert_file)))))))))"

datatype Commands =
    RootInit path
  | ReleaseIssue path path
  | BundleIssue path path path
  | RevokeIssue path path "string list" "path option" path
  | VerifyChain path path "path option"

fun keytool_main :: "keytool_env \<Rightarrow> KeyPair \<Rightarrow> Commands \<Rightarrow> world \<Rightarrow> (string + unit) \<times> world" where
  "keytool_main e generated (RootInit out_dir) = root_init e generated out_dir"
| "keytool_main e generated (ReleaseIssue rk out_dir) = release_issue e generated rk out_dir"
| "keytool_main e generated (BundleIssue rk rc out_dir) = bundle_issue e generated rk rc out_dir"
| "keytool_main e generated (RevokeIssue rk rc ks existing out) = revoke_issue e rk rc ks existing out"
| "keytool_main e generated (VerifyChain rp rc bc) = verify_chain e rp rc bc"

subsection \<open>Lemmas\<close>

lemma parse_pubkeys_set:
  "parse_pubkeys ed hx ss = Inr ks \<Longrightarrow> list_all2 (\<lambda>s k. from_hex ed hx s = Inr k) ss ks"
  by (induction ss arbitrary: ks) (auto simp: result_simps parse_pubkey_hex_def)

lemma distinct_remdups_adj_sorted: "sorted xs \<Longrightarrow> distinct (remdups_adj xs)"
  for xs :: "'a::linorder list"
proof (induction xs rule: remdups_adj.induct)
  case (3 x y xs)
  then show ?case
    by (cases "x = y") (auto simp: remdups_adj_set)
qed simp_all

lemma frame_load_key [frame_intros]: "frame S (load_key e p)"
  unfolding load_key_def load_from_file_def read_to_string_def
  by (intro frame_intros) (auto intro!: frame_intros)

lemma load_key_result:
  assumes "load_key e p w = (Inr kp, w')"
  shows "length kp = 32" "w_fs w' = w_fs w"
proof -
  show "length kp = 32"
    using assms
    by (auto simp: load_key_def load_from_file_def io_simps KeyPair_from_bytes_def split: if_splits)
  show "w_fs w' = w_fs w"
    using frame_untouched [OF frame_load_key [of "{}" e p], of _ w] assms by auto
qed

lemma revoke_issue_result:
  assumes "revoke_issue e rk rc hexes existing out w = (Inr (), w')"
  obtains release cf prior new_keys t bytes n w1 where
    "load_key e rk w = (Inr release, w1)"
    "cf_public_key cf = public_key (kt_ed e) release"
    "\<exists>n. w_fs w1 rc = Some n \<and> kj_cert_from (kt_json e) (i_content n) = Inr cf"
    "(case existing of None \<Rightarrow> prior = []
      | Some p \<Rightarrow> \<exists>n srl. w_fs w1 p = Some n \<and> kj_list_from (kt_json e) (i_content n) = Inr srl \<and>
                    prior = srl_revoked_keys srl)"
    "parse_pubkeys (kt_ed e) (kt_hx e) hexes = Inr new_keys"
    "kj_list_to (kt_json e) (SignedRevocationList_issue (kt_ed e) release (cf_cert cf)
       (remdups_adj (sort (prior @ new_keys))) t) = Inr bytes"
    "w_fs w' out = Some n" "i_content n = bytes"
proof -
  from assms obtain release w1 bs w2 cf prior w3 new_keys bytes w4 where
    1: "load_key e rk w = (Inr release, w1)"
    and 2: "fs_read rc w1 = (Inr bs, w2)" "kj_cert_from (kt_json e) bs = Inr cf"
    and 3: "cf_public_key cf = public_key (kt_ed e) release"
    and 4: "(case existing of
                Some p \<Rightarrow> bind_io (map_err_io io_detail (fs_read p)) (\<lambda>bytes.
                            bind_io (lift_r (kj_list_from (kt_json e) bytes)) (\<lambda>prior.
                              return_io (srl_revoked_keys prior)))
              | None \<Rightarrow> return_io []) w2 = (Inr prior, w3)"
    and 5: "parse_pubkeys (kt_ed e) (kt_hx e) hexes = Inr new_keys"
    and 6: "kj_list_to (kt_json e) (SignedRevocationList_issue (kt_ed e) release (cf_cert cf)
       (remdups_adj (sort (prior @ new_keys))) (w_unix_time w3)) = Inr bytes"
    and 7: "fs_write out bytes w4 = (Inr (), w')"
    by (auto simp: revoke_issue_def read_cert_file_def io_simps Let_def split: if_splits)
  from fs_write_content [OF 7] obtain n where n: "w_fs w' out = Some n" "i_content n = bytes"
    by blast
  note r = fs_read_result [OF 2(1)]
  have prior: "(case existing of None \<Rightarrow> prior = []
      | Some p \<Rightarrow> \<exists>n srl. w_fs w1 p = Some n \<and> kj_list_from (kt_json e) (i_content n) = Inr srl \<and>
                    prior = srl_revoked_keys srl)"
  proof (cases existing)
    case None
    then show ?thesis
      using 4 by (simp add: io_simps)
  next
    case (Some p)
    with 4 obtain bs' where "fs_read p w2 = (Inr bs', w3)" "\<exists>srl. kj_list_from (kt_json e) bs' = Inr srl \<and>
        prior = srl_revoked_keys srl"
      by (auto simp: io_simps)
    with fs_read_result(1) [OF this(1)] r(2) show ?thesis
      by (auto simp: Some)
  qed
  show ?thesis
    by (rule that [OF 1 3 _ prior 5 6 n]) (use r(1) 2(2) in auto)
qed

subsection \<open>Properties\<close>

text \<open>C29. A successful revocation ceremony writes a list that any client pinning the root
  accepts, and that revokes exactly the keys carried over from the prior list together
  with the ones named on the command line; the list is in canonical form, sorted and
  without duplicates.\<close>

theorem revoke_issue_publishes_exactly:
  assumes "ed25519_ok (kt_ed e)" and "json_ok (kj_list_to (kt_json e)) (kj_list_from (kt_json e))"
    and "revoke_issue e rk rc hexes existing out w = (Inr (), w')"
    and "length root_sk = 32"
    and "w_fs w rc = Some cn"
    and "kj_cert_from (kt_json e) (i_content cn) =
           Inr \<lparr>cf_public_key = rel_pk, cf_cert = KeyCertificate_issue (kt_ed e) root_sk rel_pk t1\<rparr>"
  shows "\<exists>n srl rl prior new_keys.
    w_fs w' out = Some n \<and> kj_list_from (kt_json e) (i_content n) = Inr srl \<and>
    SignedRevocationList_verify (kt_ed e) srl \<lparr>root_public_key = public_key (kt_ed e) root_sk\<rparr> = Inr rl \<and>
    (case existing of None \<Rightarrow> prior = []
     | Some p \<Rightarrow> \<exists>n srl. w_fs w p = Some n \<and> kj_list_from (kt_json e) (i_content n) = Inr srl \<and>
                   prior = srl_revoked_keys srl) \<and>
    list_all2 (\<lambda>s k. from_hex (kt_ed e) (kt_hx e) s = Inr k) hexes new_keys \<and>
    (\<forall>k. RevocationList_contains rl k \<longleftrightarrow> k \<in> set prior \<or> k \<in> set new_keys) \<and>
    sorted (srl_revoked_keys srl) \<and> distinct (srl_revoked_keys srl)"
proof -
  from revoke_issue_result [OF assms(3)] obtain release cf prior new_keys t bytes n w1 where
    1: "load_key e rk w = (Inr release, w1)"
    and 2: "cf_public_key cf = public_key (kt_ed e) release"
    and 3: "\<exists>n. w_fs w1 rc = Some n \<and> kj_cert_from (kt_json e) (i_content n) = Inr cf"
    and 4: "case existing of None \<Rightarrow> prior = []
      | Some p \<Rightarrow> \<exists>n srl. w_fs w1 p = Some n \<and> kj_list_from (kt_json e) (i_content n) = Inr srl \<and>
                    prior = srl_revoked_keys srl"
    and 5: "parse_pubkeys (kt_ed e) (kt_hx e) hexes = Inr new_keys"
    and 6: "kj_list_to (kt_json e) (SignedRevocationList_issue (kt_ed e) release (cf_cert cf)
       (remdups_adj (sort (prior @ new_keys))) t) = Inr bytes"
    and 7: "w_fs w' out = Some n" "i_content n = bytes" .
  let ?keys = "remdups_adj (sort (prior @ new_keys))"
  let ?srl = "SignedRevocationList_issue (kt_ed e) release (cf_cert cf) ?keys t"
  have cert: "cf_cert cf = KeyCertificate_issue (kt_ed e) root_sk (public_key (kt_ed e) release) t1"
    using 3 assms(5,6) 2 load_key_result(2) [OF 1] by auto
  have verified: "SignedRevocationList_verify (kt_ed e) ?srl
      \<lparr>root_public_key = public_key (kt_ed e) root_sk\<rparr> = Inr (RevocationList_from_keys ?keys)"
    using assms(1,4) load_key_result(1) [OF 1] unfolding cert
    by (simp add: SignedRevocationList_verify_def SignedRevocationList_issue_def verify_issued verify_sign)
  have "kj_list_from (kt_json e) bytes = Inr ?srl"
    using assms(2) 6 by (auto simp: json_ok_def)
  moreover have "srl_revoked_keys ?srl = ?keys"
    by (simp add: SignedRevocationList_issue_def)
  ultimately show ?thesis
    using verified 4 [unfolded load_key_result(2) [OF 1]] 7 parse_pubkeys_set [OF 5]
    by (intro exI [of _ n] exI [of _ ?srl] exI [of _ "RevocationList_from_keys ?keys"]
        exI [of _ prior] exI [of _ new_keys])
      (auto simp: RevocationList_contains_def RevocationList_from_keys_def sorted_remdups_adj
        distinct_remdups_adj_sorted)
qed

definition demo_list :: SignedRevocationList where
  "demo_list = SignedRevocationList_issue echo_scheme (replicate 32 2)
     (KeyCertificate_issue echo_scheme (replicate 32 1) (replicate 32 2) 1) [] 0"

definition demo_keytool :: keytool_env where
  "demo_keytool =
     \<lparr>kt_ed = echo_scheme, kt_hx = plain_hex,
      kt_json = \<lparr>kj_cert_to = (\<lambda>_. Inr []),
        kj_cert_from = (\<lambda>_. Inr \<lparr>cf_public_key = replicate 32 2,
           cf_cert = KeyCertificate_issue echo_scheme (replicate 32 1) (replicate 32 2) 1\<rparr>),
        kj_str_to = (\<lambda>_. Inr []), kj_str_from = (\<lambda>_. Inr []),
        kj_list_to = (\<lambda>l. if l = demo_list then Inr [5] else Inl []),
        kj_list_from = (\<lambda>_. Inr demo_list)\<rparr>,
      kt_dbg = concat, kt_oct = (\<lambda>_. [])\<rparr>"

definition demo_key_world :: world where
  "demo_key_world = empty_world\<lparr>w_fs := (w_fs empty_world)(
     [''rel.key''] \<mapsto> \<lparr>i_dir = False, i_content = as_bytes (hex_encode plain_hex (replicate 32 2)),
        i_mode = mode_0600, i_uid = 0, i_gid = 0\<rparr>,
     [''rel.cert''] \<mapsto> \<lparr>i_dir = False, i_content = [], i_mode = mode_0644, i_uid = 0, i_gid = 0\<rparr>)\<rparr>"

lemma demo_revoke_runs:
  "fst (revoke_issue demo_keytool [''rel.key''] [''rel.cert''] [] None [''out.json''] demo_key_world) =
     Inr ()"
proof -
  have key: "load_key demo_keytool [''rel.key''] demo_key_world = (Inr (replicate 32 2), demo_key_world)"
    using load_from_file_saved [OF plain_hex_ok, of "replicate 32 2" demo_key_world "[''rel.key'']"
        _ concat "\<lambda>_. []"]
    by (simp add: load_key_def demo_keytool_def map_err_io_def demo_key_world_def empty_world_def)
  then show ?thesis
    by (simp add: revoke_issue_def bind_io_def read_cert_file_def map_err_io_def fs_read_def prim_def
        lift_r_def return_io_def path_exists_def try_io_def fs_write_def open_truncate_def
        write_all_def is_dir_at_def demo_keytool_def demo_key_world_def empty_world_def Let_def
        public_key_def echo_scheme_def demo_list_def)
qed

theorem revoke_issue_publishes_exactly_witness:
  "\<exists>n srl rl. w_fs (snd (revoke_issue demo_keytool [''rel.key''] [''rel.cert''] [] None [''out.json'']
       demo_key_world)) [''out.json''] = Some n \<and>
     kj_list_from (kt_json demo_keytool) (i_content n) = Inr srl \<and>
     SignedRevocationList_verify echo_scheme srl \<lparr>root_public_key = replicate 32 1\<rparr> = Inr rl \<and>
     (\<forall>k. \<not> RevocationList_contains rl k)"
proof -
  let ?w' = "snd (revoke_issue demo_keytool [''rel.key''] [''rel.cert''] [] None [''out.json'']
      demo_key_world)"
  have "revoke_issue demo_keytool [''rel.key''] [''rel.cert''] [] None [''out.json''] demo_key_world =
      (Inr (), ?w')"
    using demo_revoke_runs by (metis prod.collapse)
  moreover have ed: "kt_ed demo_keytool = echo_scheme"
    by (simp add: demo_keytool_def)
  then have "ed25519_ok (kt_ed demo_keytool)"
    by (simp add: echo_scheme_ok)
  moreover have "json_ok (kj_list_to (kt_json demo_keytool)) (kj_list_from (kt_json demo_keytool))"
    by (simp add: json_ok_def demo_keytool_def)
  moreover have "w_fs demo_key_world [''rel.cert''] =
      Some \<lparr>i_dir = False, i_content = [], i_mode = mode_0644, i_uid = 0, i_gid = 0\<rparr>"
    by (simp add: demo_key_world_def)
  moreover have "kj_cert_from (kt_json demo_keytool) bs = Inr \<lparr>cf_public_key = replicate 32 2,
      cf_cert = KeyCertificate_issue (kt_ed demo_keytool) (replicate 32 1) (replicate 32 2) 1\<rparr>" for bs
    by (simp add: demo_keytool_def)
  moreover have "public_key echo_scheme (replicate 32 1) = replicate 32 1"
    by (simp add: public_key_def echo_scheme_def)
  ultimately show ?thesis
    using revoke_issue_publishes_exactly [of demo_keytool "[''rel.key'']" "[''rel.cert'']" "[]" None
        "[''out.json'']" demo_key_world ?w' "replicate 32 1"
        "\<lparr>i_dir = False, i_content = [], i_mode = mode_0644, i_uid = 0, i_gid = 0\<rparr>"
        "replicate 32 2" 1]
    by (simp add: ed) blast
qed

text \<open>The chain check trusts the public key written next to the release certificate, not the
  key the certificate is for: a file pair it passes can be one that no client accepts.\<close>

lemma verify_chain_ignores_certified_key:
  assumes "w_faults w = []"
    and "w_fs w rp = Some n1" "\<not> i_dir n1" "kj_str_from (kt_json e) (i_content n1) = Inr hex"
    and "from_hex (kt_ed e) (kt_hx e) hex = Inr root_pk"
    and "w_fs w rc = Some n2" "\<not> i_dir n2" "kj_cert_from (kt_json e) (i_content n2) = Inr rel_cf"
    and "verify_against (kt_ed e) (cf_cert rel_cf) root_pk = Inr ()"
    and "w_fs w bc = Some n3" "\<not> i_dir n3" "kj_cert_from (kt_json e) (i_content n3) = Inr bun_cf"
  shows "fst (verify_chain e rp rc (Some bc) w) =
    map_err (\<lambda>_. ''bundle cert does NOT chain to release key'')
      (verify_against (kt_ed e) (cf_cert bun_cf) (cf_public_key rel_cf))"
  using assms
  by (simp add: verify_chain_def bind_io_def map_err_io_def fs_read_def prim_def lift_r_def
      read_cert_file_def)

end
