(* ===== verification/Transport_Native.thy ===== *)
theory Transport_Native
  imports Network_State File_System
begin

text \<open>
  \<^verbatim>\<open>crates/transport-native\<close>: certificate pinning (\<^verbatim>\<open>cert.rs\<close>), the connect sequence and the
  error classification of the two transports (\<^verbatim>\<open>direct_tls.rs\<close>, \<^verbatim>\<open>noise_quic.rs\<close>), and the
  relay identity kept on disk (\<^verbatim>\<open>server.rs\<close>). What the network, the TLS and QUIC stacks and
  the hash function do is input to the definitions: each awaited step is given by its
  outcome, \<open>Elapsed\<close> when its timeout fires first.
\<close>

subsection \<open>Certificate pinning\<close>

definition sha256_of_cert :: "(u8 list \<Rightarrow> u8 list) \<Rightarrow> u8 list \<Rightarrow> u8 list" where
  "sha256_of_cert sha der = sha der"

datatype TlsError = General string

record PinnedCertVerifier =
  expected_sha256 :: "u8 list"

definition PinnedCertVerifier_new :: "u8 list \<Rightarrow> PinnedCertVerifier" where
  "PinnedCertVerifier_new h = \<lparr>expected_sha256 = h\<rparr>"

definition verify_server_cert ::
    "(u8 list \<Rightarrow> u8 list) \<Rightarrow> PinnedCertVerifier \<Rightarrow> u8 list \<Rightarrow> TlsError + unit" where
  "verify_server_cert sha v end_entity =
     (let digest = sha256_of_cert sha end_entity in
      if digest = expected_sha256 v then Inr () else Inl (General ''certificate pin mismatch''))"

subsection \<open>Direct TLS\<close>

datatype 'a timed = Elapsed | Done 'a

definition direct_tls_ID :: TransportId where
  "direct_tls_ID = TransportId ''direct-tls''"

definition classify_connect_io_error :: "io_error \<Rightarrow> FailureCategory" where
  "classify_connect_io_error e =
     (case io_kind e of
        ConnectionRefused \<Rightarrow> EndpointUnreachable
      | TimedOut \<Rightarrow> TcpTimeout
      | ConnectionReset \<Rightarrow> TcpReset
      | NetworkUnreachable \<Rightarrow> LocalNetworkFailure
      | HostUnreachable \<Rightarrow> LocalNetworkFailure
      | NetworkDown \<Rightarrow> LocalNetworkFailure
      | AddrNotAvailable \<Rightarrow> LocalNetworkFailure
      | _ \<Rightarrow> GeneralRouteFailure)"

definition direct_tls_capabilities :: Capabilities where
  "direct_tls_capabilities = STREAM"

text \<open>\<open>tcp\<close> is the outcome of the TCP connect; \<open>tls v s\<close> that of the handshake on \<open>s\<close> with the
  certificate verifier \<open>v\<close>.\<close>

definition connect_stream ::
    "(SocketAddr \<Rightarrow> (io_error + 'tcp) timed) \<Rightarrow>
     (PinnedCertVerifier \<Rightarrow> 'tcp \<Rightarrow> (io_error + 'tls) timed) \<Rightarrow> Endpoint \<Rightarrow> TransportError + 'tls" where
  "connect_stream tcp tls endpoint =
     (case tcp (ep_address endpoint) of
        Elapsed \<Rightarrow> Inl (Connect TcpTimeout ''tcp connect timed out'')
      | Done (Inl e) \<Rightarrow> Inl (Connect (classify_connect_io_error e) (io_detail e))
      | Done (Inr stream) \<Rightarrow>
          (case tls (PinnedCertVerifier_new (ep_pinned_cert_sha256 endpoint)) stream of
             Elapsed \<Rightarrow> Inl (Connect HandshakeTimeout ''tls handshake timed out'')
           | Done (Inl e) \<Rightarrow> Inl (Connect TlsFailure (io_detail e))
           | Done (Inr s) \<Rightarrow> Inr s))"

definition direct_tls_send :: "io_error + unit \<Rightarrow> TransportError + unit" where
  "direct_tls_send r = map_err (\<lambda>e. Session (classify_connect_io_error e) (io_detail e)) r"

definition direct_tls_recv :: "io_error + nat \<Rightarrow> TransportError + nat" where
  "direct_tls_recv r = map_err (\<lambda>e. Session (classify_connect_io_error e) (io_detail e)) r"

definition direct_tls_health :: SessionHealth where
  "direct_tls_health = \<lparr>alive = True, rtt_estimate_ms = None\<rparr>"

definition direct_tls_close :: "io_error + unit \<Rightarrow> TransportError + unit" where
  "direct_tls_close r = map_err (\<lambda>e. Session GeneralRouteFailure (io_detail e)) r"

subsection \<open>QUIC\<close>

definition noise_quic_ID :: TransportId where
  "noise_quic_ID = TransportId ''noise-quic''"

datatype quinn_ConnectionError = QTimedOut | QConnectionClosed | QApplicationClosed | QOther

definition classify_connection_error :: "quinn_ConnectionError \<Rightarrow> FailureCategory" where
  "classify_connection_error e =
     (case e of
        QTimedOut \<Rightarrow> HandshakeTimeout
      | QConnectionClosed \<Rightarrow> EndpointUnreachable
      | QApplicationClosed \<Rightarrow> EndpointUnreachable
      | QOther \<Rightarrow> QuicFailure)"

definition noise_quic_capabilities :: Capabilities where
  "noise_quic_capabilities = or STREAM DATAGRAM"

definition client_endpoint :: "(SocketAddr \<Rightarrow> string + 'ep) \<Rightarrow> SocketAddr \<Rightarrow> TransportError + 'ep" where
  "client_endpoint bind_udp addr =
     map_err (\<lambda>e. Connect UdpUnavailable (''failed to bind local UDP socket: '' @ e)) (bind_udp addr)"

record ('ep, 'cfg, 'pending, 'conn, 'bi) quinn =
  q_bind :: "SocketAddr \<Rightarrow> string + 'ep"
  q_config :: "PinnedCertVerifier \<Rightarrow> string + 'cfg"
  q_connect_with :: "'ep \<Rightarrow> 'cfg \<Rightarrow> SocketAddr \<Rightarrow> string \<Rightarrow> string + 'pending"
  q_connecting :: "'pending \<Rightarrow> (quinn_ConnectionError \<times> string + 'conn) timed"
  q_open_bi :: "'conn \<Rightarrow> string + 'bi"

definition unspecified_v4 :: SocketAddr where
  "unspecified_v4 = \<lparr>sock_ip = V4 0, sock_port = 0\<rparr>"

definition unspecified_v6 :: SocketAddr where
  "unspecified_v6 = \<lparr>sock_ip = V6 0, sock_port = 0\<rparr>"

definition is_ipv4 :: "SocketAddr \<Rightarrow> bool" where
  "is_ipv4 a = (case sock_ip a of V4 _ \<Rightarrow> True | V6 _ \<Rightarrow> False)"

definition noise_quic_connect ::
    "('ep, 'cfg, 'pending, 'conn, 'bi) quinn \<Rightarrow> Endpoint \<Rightarrow> TransportError + ('conn \<times> 'bi)" where
  "noise_quic_connect q endpoint =
     (let bind_addr = (if is_ipv4 (ep_address endpoint) then unspecified_v4 else unspecified_v6) in
      bind_r (client_endpoint (q_bind q) bind_addr) (\<lambda>ep.
      bind_r (map_err (\<lambda>e. Connect QuicFailure (''invalid quic tls config: '' @ e))
                (q_config q (PinnedCertVerifier_new (ep_pinned_cert_sha256 endpoint)))) (\<lambda>cfg.
      bind_r (map_err (Connect QuicFailure)
                (q_connect_with q ep cfg (ep_address endpoint) ''relay'')) (\<lambda>pending.
      case q_connecting q pending of
        Elapsed \<Rightarrow> Inl (Connect HandshakeTimeout ''quic handshake timed out'')
      | Done (Inl (e, text)) \<Rightarrow> Inl (Connect (classify_connection_error e) text)
      | Done (Inr conn) \<Rightarrow>
          bind_r (map_err (Connect QuicFailure) (q_open_bi q conn)) (\<lambda>bi. Inr (conn, bi))))))"

definition noise_quic_send :: "string + unit \<Rightarrow> TransportError + unit" where
  "noise_quic_send r = map_err (Session QuicFailure) r"

definition noise_quic_recv :: "string + nat option \<Rightarrow> TransportError + nat" where
  "noise_quic_recv r =
     bind_r (map_err (Session QuicFailure) r)
       (\<lambda>n. ok_or (Session EndpointUnreachable ''quic stream closed'') n)"

definition noise_quic_health :: "bool \<Rightarrow> 128 word \<Rightarrow> SessionHealth" where
  "noise_quic_health closed rtt_millis =
     \<lparr>alive = \<not> closed, rtt_estimate_ms = Some (ucast rtt_millis)\<rparr>"

subsection \<open>Relay identity\<close>

record RelayIdentity =
  ri_cert_der :: "u8 list"
  ri_key_der :: "u8 list"
  ri_cert_sha256 :: "u8 list"

definition RelayIdentity_generate :: "(u8 list \<Rightarrow> u8 list) \<Rightarrow> u8 list \<times> u8 list \<Rightarrow> RelayIdentity" where
  "RelayIdentity_generate sha generated =
     \<lparr>ri_cert_der = fst generated, ri_key_der = snd generated,
      ri_cert_sha256 = sha256_of_cert sha (fst generated)\<rparr>"

definition save_to_dir :: "RelayIdentity \<Rightarrow> path \<Rightarrow> unit io" where
  "save_to_dir identity dir =
     bind_io (create_dir_all dir) (\<lambda>_.
     bind_io (fs_write (path_join dir [''relay.cert.der'']) (ri_cert_der identity)) (\<lambda>_.
     bind_io (open_create_new (path_join dir [''relay.key.der'']) mode_0600) (\<lambda>_.
     write_all (path_join dir [''relay.key.der'']) (ri_key_der identity))))"

definition load_from_dir ::
    "(u8 list \<Rightarrow> u8 list) \<Rightarrow> (path \<Rightarrow> string) \<Rightarrow> (u32 \<Rightarrow> string) \<Rightarrow> path \<Rightarrow> RelayIdentity option io" where
  "load_from_dir sha dbg oct dir =
     (let cert_path = path_join dir [''relay.cert.der''];
          key_path = path_join dir [''relay.key.der'']
      in bind_io (path_exists cert_path) (\<lambda>cert_there.
         bind_io (if cert_there then path_exists key_path else return_io False) (\<lambda>both_there.
         if \<not> both_there then return_io None
         else bind_io (metadata key_path) (\<lambda>meta.
           if i_mode meta AND mode_0077 \<noteq> 0
           then fail_io (io_error_new OtherKind
                  (dbg key_path @ '' has mode '' @ oct (i_mode meta) @ '', expected 0600 or stricter''))
           else bind_io (fs_read cert_path) (\<lambda>cert_bytes.
                bind_io (fs_read key_path) (\<lambda>key_bytes.
                return_io (Some \<lparr>ri_cert_der = cert_bytes, ri_key_der = key_bytes,
                  ri_cert_sha256 = sha256_of_cert sha cert_bytes\<rparr>)))))))"

definition load_or_generate ::
    "(u8 list \<Rightarrow> u8 list) \<Rightarrow> (path \<Rightarrow> string) \<Rightarrow> (u32 \<Rightarrow> string) \<Rightarrow> u8 list \<times> u8 list \<Rightarrow> path
      \<Rightarrow> RelayIdentity io" where
  "load_or_generate sha dbg oct generated dir =
     bind_io (load_from_dir sha dbg oct dir) (\<lambda>found.
       case found of
         Some identity \<Rightarrow> return_io identity
       | None \<Rightarrow>
           (let identity = RelayIdentity_generate sha generated
            in bind_io (save_to_dir identity dir) (\<lambda>_. return_io identity)))"

subsection \<open>Lemmas\<close>

lemma classify_local:
  "classify_connect_io_error e = LocalNetworkFailure \<longleftrightarrow>
   io_kind e \<in> {NetworkUnreachable, HostUnreachable, NetworkDown, AddrNotAvailable}"
  by (auto simp: classify_connect_io_error_def split: ErrorKind.splits)

lemma verify_server_cert_iff:
  "verify_server_cert sha v cert = Inr () \<longleftrightarrow> sha cert = expected_sha256 v"
  by (simp add: verify_server_cert_def sha256_of_cert_def Let_def)

lemma save_to_dir_result:
  assumes "save_to_dir identity dir w = (Inr (), w')"
  shows "\<exists>n. w_fs w' (path_join dir [''relay.cert.der'']) = Some n \<and> \<not> i_dir n \<and>
           i_content n = ri_cert_der identity"
    and "\<exists>n. w_fs w' (path_join dir [''relay.key.der'']) = Some n \<and> \<not> i_dir n \<and>
           i_content n = ri_key_der identity \<and> i_mode n AND mode_0077 = 0"
proof -
  let ?c = "path_join dir [''relay.cert.der'']" and ?k = "path_join dir [''relay.key.der'']"
  have ne: "?c \<noteq> ?k"
    by (simp add: path_join_def)
  from assms obtain w1 w2 w3 where
    2: "fs_write ?c (ri_cert_der identity) w1 = (Inr (), w2)"
    and 3: "open_create_new ?k mode_0600 w2 = (Inr (), w3)"
    and 4: "write_all ?k (ri_key_der identity) w3 = (Inr (), w')"
    by (auto simp: save_to_dir_def io_simps)
  have "w_fs w3 ?c = w_fs w2 ?c" "w_fs w' ?c = w_fs w3 ?c"
    using frame_step [OF frame_open_create_new [of ?k "{?k}"] 3, of ?c]
      frame_step [OF frame_write_all [of ?k "{?k}"] 4, of ?c] ne by simp_all
  then show "\<exists>n. w_fs w' ?c = Some n \<and> \<not> i_dir n \<and> i_content n = ri_cert_der identity"
    using fs_write_content [OF 2] by simp
  show "\<exists>n. w_fs w' ?k = Some n \<and> \<not> i_dir n \<and> i_content n = ri_key_der identity \<and>
      i_mode n AND mode_0077 = 0"
    using write_all_result [OF 4 open_create_new_result(2) [OF 3]] mode_0600_private by simp
qed

lemma load_from_dir_found:
  assumes "w_faults w = []"
    and "w_fs w (path_join dir [''relay.cert.der'']) = Some c" "\<not> i_dir c"
    and "w_fs w (path_join dir [''relay.key.der'']) = Some k" "\<not> i_dir k" "i_mode k AND mode_0077 = 0"
  shows "load_from_dir sha dbg oct dir w =
    (Inr (Some \<lparr>ri_cert_der = i_content c, ri_key_der = i_content k, ri_cert_sha256 = sha (i_content c)\<rparr>), w)"
  using assms
  by (simp add: load_from_dir_def bind_io_def path_exists_def try_io_def prim_def return_io_def
      metadata_def fs_read_def Let_def sha256_of_cert_def)

lemma frame_load_from_dir [frame_intros]: "frame S (load_from_dir sha dbg oct dir)"
  unfolding load_from_dir_def Let_def by (intro frame_intros) (auto intro!: frame_intros)

lemma metadata_result:
  assumes "metadata p w = (Inr n, w')"
  shows "w_fs w p = Some n" "w_fs w' = w_fs w"
  using assms
  by (auto simp: metadata_def prim_def ok_or_def split: list.splits fault.splits option.splits)

lemma load_from_dir_some:
  assumes "load_from_dir sha dbg oct dir w = (Inr (Some identity), w')"
  obtains c k where
    "w_fs w (path_join dir [''relay.cert.der'']) = Some c" "\<not> i_dir c"
    "w_fs w (path_join dir [''relay.key.der'']) = Some k" "\<not> i_dir k" "i_mode k AND mode_0077 = 0"
    "identity = \<lparr>ri_cert_der = i_content c, ri_key_der = i_content k, ri_cert_sha256 = sha (i_content c)\<rparr>"
proof -
  let ?c = "path_join dir [''relay.cert.der'']" and ?k = "path_join dir [''relay.key.der'']"
  from assms obtain b1 w1 b2 w2 meta w3 cb w4 kb where
    1: "path_exists ?c w = (Inr b1 :: io_error + bool, w1)"
    and 2: "(if b1 then path_exists ?k else return_io False) w1 = (Inr b2 :: io_error + bool, w2)"
    and 3: "metadata ?k w2 = (Inr meta, w3)" "i_mode meta AND mode_0077 = 0"
    and 4: "fs_read ?c w3 = (Inr cb, w4)" and 5: "fs_read ?k w4 = (Inr kb, w')"
    and id: "identity = \<lparr>ri_cert_der = cb, ri_key_der = kb, ri_cert_sha256 = sha cb\<rparr>"
    by (auto simp: load_from_dir_def io_simps Let_def sha256_of_cert_def split: if_splits)
  have fs1: "w_fs w1 = w_fs w"
    using path_exists_result [OF 1] by simp
  have "w_fs w2 = w_fs w1"
    using 2 path_exists_result(1) [of ?k w1 _ w2] by (auto simp: io_simps split: if_splits)
  then have fs2: "w_fs w2 = w_fs w"
    using fs1 by simp
  note m = metadata_result [OF 3(1)] and r1 = fs_read_result [OF 4] and r2 = fs_read_result [OF 5]
  from m r1 r2 fs2 obtain c where c: "w_fs w ?c = Some c" "i_content c = cb" "\<not> i_dir c"
    using 4 by (auto simp: fs_read_def prim_def split: list.splits fault.splits option.splits if_splits)
  from m r1 r2 fs2 have k: "w_fs w ?k = Some meta" "i_content meta = kb" "\<not> i_dir meta"
    using 5 by (auto simp: fs_read_def prim_def split: list.splits fault.splits option.splits if_splits)
  show ?thesis
    by (rule that [OF c(1,3) k(1,3) 3(2)]) (use id c k in simp)
qed

lemma mkdirs_present: "list_all (\<lambda>p. is_dir_at p w) ps \<Longrightarrow> mkdirs ps w = (Inr (), w)"
  by (induction ps) (auto simp: is_dir_at_def split: option.splits)

text \<open>A key file without its certificate: the start fails, but only after the new certificate
  was written, so the next start pairs the new certificate with the old key.\<close>

lemma lost_certificate_mispairs_identity:
  assumes "w_faults w = []" "list_all (\<lambda>p. is_dir_at p w) (prefixes dir)"
    and "w_fs w (path_join dir [''relay.cert.der'']) = None"
    and "w_fs w (path_join dir [''relay.key.der'']) = Some k" "\<not> i_dir k" "i_mode k AND mode_0077 = 0"
  shows "\<exists>w1. load_or_generate sha dbg oct gen1 dir w = (Inl eexist, w1) \<and>
    load_or_generate sha dbg oct gen2 dir w1 =
      (Inr \<lparr>ri_cert_der = fst gen1, ri_key_der = i_content k, ri_cert_sha256 = sha (fst gen1)\<rparr>, w1)"
proof -
  let ?c = "path_join dir [''relay.cert.der'']" and ?k = "path_join dir [''relay.key.der'']"
  have d: "butlast ?c = dir" "?c \<noteq> ?k"
    by (simp_all add: path_join_def)
  have "is_dir_at dir w"
    using assms(2) by (simp add: list_all_iff)
  then obtain w1 where w1: "fs_write ?c (fst gen1) w = (Inr (), w1)" "w_faults w1 = []"
    "w_fs w1 ?k = Some k"
    using assms(1,3,4) d
    by (auto simp: fs_write_def bind_io_def open_truncate_def write_all_def prim_def append_bytes_def)
  have "load_or_generate sha dbg oct gen1 dir w = (Inl eexist, w1)"
    using assms w1
    by (simp add: load_or_generate_def load_from_dir_def bind_io_def path_exists_def try_io_def prim_def
        return_io_def Let_def save_to_dir_def create_dir_all_def mkdirs_present
        RelayIdentity_generate_def open_create_new_def)
  moreover from fs_write_content [OF w1(1)] obtain c where
    "w_fs w1 ?c = Some c" "\<not> i_dir c" "i_content c = fst gen1"
    by blast
  with load_from_dir_found [OF w1(2) this(1,2) w1(3) assms(5,6)]
  have "load_or_generate sha dbg oct gen2 dir w1 =
      (Inr \<lparr>ri_cert_der = fst gen1, ri_key_der = i_content k, ri_cert_sha256 = sha (fst gen1)\<rparr>, w1)"
    by (simp add: load_or_generate_def bind_io_def return_io_def)
  ultimately show ?thesis
    by blast
qed

subsection \<open>Properties\<close>

text \<open>C26. A relay started with an identity directory keeps its identity: whether it loaded or
  generated its certificate and key, the next start from the state it left behind loads
  the same certificate, key and pin, and does not consult the newly generated ones; the
  key file is private to its owner.\<close>

theorem relay_identity_survives_restart:
  assumes "load_or_generate sha dbg oct gen1 dir w = (Inr identity, w1)"
    and "w2 = w1\<lparr>w_faults := []\<rparr>"
  shows "load_or_generate sha dbg oct gen2 dir w2 = (Inr identity, w2) \<and>
         ri_cert_sha256 identity = sha (ri_cert_der identity) \<and>
         (\<exists>k. w_fs w2 (path_join dir [''relay.key.der'']) = Some k \<and> i_mode k AND mode_0077 = 0)"
proof -
  let ?c = "path_join dir [''relay.cert.der'']" and ?k = "path_join dir [''relay.key.der'']"
  from assms(1) obtain found w' where
    ld: "load_from_dir sha dbg oct dir w = (Inr found, w')"
    and rest: "(case found of Some identity \<Rightarrow> return_io identity
        | None \<Rightarrow> bind_io (save_to_dir (RelayIdentity_generate sha gen1) dir)
            (\<lambda>_. return_io (RelayIdentity_generate sha gen1))) w' = (Inr identity, w1)"
    unfolding load_or_generate_def Let_def by (auto simp: io_simps)
  have "\<exists>c k. w_fs w2 ?c = Some c \<and> \<not> i_dir c \<and> w_fs w2 ?k = Some k \<and> \<not> i_dir k \<and>
      i_mode k AND mode_0077 = 0 \<and>
      identity = \<lparr>ri_cert_der = i_content c, ri_key_der = i_content k, ri_cert_sha256 = sha (i_content c)\<rparr>"
  proof (cases found)
    case (Some i)
    then have "identity = i" "w1 = w'"
      using rest by (simp_all add: io_simps)
    moreover have "w_fs w' p = w_fs w p" for p
      using frame_step [OF frame_load_from_dir [of "{}"] ld] by simp
    ultimately show ?thesis
      using load_from_dir_some [OF ld [unfolded Some]] assms(2) by simp metis
  next
    case None
    then have "save_to_dir (RelayIdentity_generate sha gen1) dir w' = (Inr (), w1)"
      and "identity = RelayIdentity_generate sha gen1"
      using rest by (auto simp: io_simps)
    with save_to_dir_result [OF this(1)] assms(2) show ?thesis
      by (auto simp: RelayIdentity_generate_def sha256_of_cert_def)
  qed
  then obtain c k where ck: "w_fs w2 ?c = Some c" "\<not> i_dir c" "w_fs w2 ?k = Some k" "\<not> i_dir k"
      "i_mode k AND mode_0077 = 0"
      "identity = \<lparr>ri_cert_der = i_content c, ri_key_der = i_content k, ri_cert_sha256 = sha (i_content c)\<rparr>"
    by blast
  have "load_from_dir sha dbg oct dir w2 = (Inr (Some identity), w2)"
    using load_from_dir_found [OF _ ck(1-5)] assms(2) ck(6) by simp
  then show ?thesis
    using ck by (simp add: load_or_generate_def bind_io_def return_io_def)
qed

definition identity_world :: world where
  "identity_world =
     \<lparr>w_fs = (\<lambda>p. if p = [] then Some \<lparr>i_dir = True, i_content = [], i_mode = mode_0750,
                  i_uid = 0, i_gid = 7\<rparr> else None),
      w_faults = [], w_pid = 1, w_unix_time = 0, w_euid = 0, w_egid = 0, w_umask = 18\<rparr>"

theorem relay_identity_survives_restart_witness:
  "fst (load_or_generate rev concat (\<lambda>_. []) ([8], [9]) [''id'']
     ((snd (load_or_generate rev concat (\<lambda>_. []) ([1, 2], [3]) [''id''] identity_world))\<lparr>w_faults := []\<rparr>)) =
   Inr \<lparr>ri_cert_der = [1, 2], ri_key_der = [3], ri_cert_sha256 = [2, 1]\<rparr>"
proof -
  let ?run = "load_or_generate rev concat (\<lambda>_. []) ([1, 2], [3]) [''id''] identity_world"
  let ?id = "\<lparr>ri_cert_der = [1, 2], ri_key_der = [3], ri_cert_sha256 = [2, 1]\<rparr>"
  have "fst ?run = Inr ?id"
    by (simp add: load_or_generate_def load_from_dir_def bind_io_def path_exists_def try_io_def prim_def
        return_io_def identity_world_def path_join_def Let_def RelayIdentity_generate_def
        sha256_of_cert_def save_to_dir_def create_dir_all_def fs_write_def open_truncate_def
        write_all_def open_create_new_def is_dir_at_def append_bytes_def)
  then have "?run = (Inr ?id, snd ?run)"
    by (metis prod.collapse)
  from relay_identity_survives_restart [OF this refl, of "([8], [9])"] show ?thesis
    by simp
qed



end
