(* ===== verification/Client_Engine.thy ===== *)
theory Client_Engine
  imports Config_Bundle Failure_Classifier Policy Transport_Native
begin

text \<open>
  The connection engine of the client daemon (\<^verbatim>\<open>apps/client-daemon/src/engine.rs\<close>): it resolves
  the endpoints of a bundle, and connects by repeatedly asking the shutdown guard, drawing
  a candidate from the score board, dialling it and recording the outcome. The
  environment \<open>env\<close> holds what is outside the program: the clock, the dial of a transport,
  the random draws and sleeping. A run also returns the list of candidates it dialled,
  which the code does not keep; a panic is the value \<^term>\<open>None\<close>.
\<close>

subsection \<open>Endpoints\<close>

datatype EngineError =
    EnginePossibleShutdown
  | NoCandidates
  | AllAttemptsFailed TransportError

record ResolvedEndpoint =
  re_descriptor :: EndpointDescriptor
  re_endpoint :: Endpoint

definition parse_endpoint ::
    "hex_codec \<Rightarrow> (string \<Rightarrow> SocketAddr option) \<Rightarrow> EndpointDescriptor \<Rightarrow> Endpoint option" where
  "parse_endpoint hx parse_addr d =
     (case parse_addr (ed_address d) of
        None \<Rightarrow> None
      | Some address \<Rightarrow>
          (case hex_decode hx (ed_cert_sha256_hex d) of
             Inl _ \<Rightarrow> None
           | Inr hash_bytes \<Rightarrow>
               if length hash_bytes \<noteq> 32 then None
               else Some \<lparr>ep_id = EndpointId (ed_id d), ep_address = address,
                          ep_provider_tag = ed_provider_tag d, ep_pinned_cert_sha256 = hash_bytes\<rparr>))"

definition known_transport_id_str :: "string \<Rightarrow> string" where
  "known_transport_id_str s =
     (if s = ''direct-tls'' then ''direct-tls''
      else if s = ''noise-quic'' then ''noise-quic'' else [])"

subsection \<open>Engine state\<close>

record ConnectionEngine =
  ce_transports :: "TransportId list"
  ce_endpoints :: "ResolvedEndpoint list"
  ce_scores :: ScoreBoard
  ce_shutdown_guard :: ShutdownGuard
  ce_tick :: u64
  ce_max_attempts :: nat

definition with_max_attempts ::
    "hex_codec \<Rightarrow> (string \<Rightarrow> SocketAddr option) \<Rightarrow> TransportId list \<Rightarrow> EndpointDescriptor list \<Rightarrow> nat
      \<Rightarrow> ConnectionEngine" where
  "with_max_attempts hx parse_addr transports endpoints max_attempts =
     \<lparr>ce_transports = transports,
      ce_endpoints = List.map_filter (\<lambda>d. map_option (\<lambda>ep. \<lparr>re_descriptor = d, re_endpoint = ep\<rparr>)
                                   (parse_endpoint hx parse_addr d)) endpoints,
      ce_scores = ScoreBoard_new,
      ce_shutdown_guard = ShutdownGuard_new 8 (f32 (3 / 4)) 90,
      ce_tick = 0, ce_max_attempts = max_attempts\<rparr>"

definition ConnectionEngine_new ::
    "hex_codec \<Rightarrow> (string \<Rightarrow> SocketAddr option) \<Rightarrow> TransportId list \<Rightarrow> EndpointDescriptor list
      \<Rightarrow> ConnectionEngine" where
  "ConnectionEngine_new hx parse_addr transports endpoints =
     with_max_attempts hx parse_addr transports endpoints 4"

definition default_transports :: "TransportId list" where
  "default_transports = [direct_tls_ID, noise_quic_ID]"

definition build_engine ::
    "hex_codec \<Rightarrow> (string \<Rightarrow> SocketAddr option) \<Rightarrow> EndpointDescriptor list \<Rightarrow> ConnectionEngine" where
  "build_engine hx parse_addr endpoints =
     ConnectionEngine_new hx parse_addr default_transports endpoints"

definition engine_candidates ::
    "ConnectionEngine \<Rightarrow> (Candidate \<times> ResolvedEndpoint \<times> TransportId) list" where
  "engine_candidates e =
     List.map_filter (\<lambda>re.
       let tid = TransportId (known_transport_id_str (ed_transport (re_descriptor re))) in
       if tid \<in> set (ce_transports e)
       then Some (\<lparr>cand_transport = tid, cand_endpoint = EndpointId (ed_id (re_descriptor re))\<rparr>, re, tid)
       else None) (ce_endpoints e)"

subsection \<open>Connecting\<close>

record ('n, 's, 'g) engine_env =
  env_now :: "'n \<Rightarrow> instant"
  env_dial :: "TransportId \<Rightarrow> Endpoint \<Rightarrow> 'n \<Rightarrow> (TransportError + 's) \<times> 'n"
  env_sleep_ms :: "u64 \<Rightarrow> 'n \<Rightarrow> 'n"
  env_gen_range :: "u64 \<Rightarrow> u64 \<Rightarrow> 'g \<Rightarrow> u64 \<times> 'g"
  env_weighted :: "rat list \<Rightarrow> 'g \<Rightarrow> (nat \<times> 'g) option"

type_synonym ('n, 's) connect_result =
  "((EngineError + TransportId \<times> 's) \<times> ConnectionEngine \<times> 'n \<times> Candidate list) option"

fun connect_loop ::
    "('n, 's, 'g) engine_env \<Rightarrow> (Candidate \<times> ResolvedEndpoint \<times> TransportId) list \<Rightarrow> nat \<Rightarrow>
     TransportError option \<Rightarrow> ConnectionEngine \<Rightarrow> 'g \<Rightarrow> 'n \<Rightarrow> Candidate list \<Rightarrow> ('n, 's) connect_result"
  where
  "connect_loop env all 0 last_err e rng n dialled =
     Some (Inl (case last_err of Some err \<Rightarrow> AllAttemptsFailed err | None \<Rightarrow> NoCandidates),
           e, n, dialled)"
| "connect_loop env all (Suc left) last_err e rng n dialled =
     (let tick = ce_tick e;
          e = e\<lparr>ce_tick := tick + 1\<rparr>;
          (suppress, guard) = should_suppress_switching (ce_shutdown_guard e) tick;
          e = e\<lparr>ce_shutdown_guard := guard\<rparr>
      in if suppress then Some (Inl EnginePossibleShutdown, e, n, dialled)
      else case select_next (env_weighted env) (env_now env n) (ce_scores e) (map fst all) rng of
        None \<Rightarrow> None
      | Some (None, rng) \<Rightarrow> Some (Inl NoCandidates, e, n, dialled)
      | Some (Some chosen, rng) \<Rightarrow>
          (case find (\<lambda>(c, _, _). c = chosen) all of
             None \<Rightarrow> None
           | Some (_, target, transport) \<Rightarrow>
               (case env_dial env transport (re_endpoint target) n of
                  (Inr session, n) \<Rightarrow>
                    Some (Inr (cand_transport chosen, session),
                      e\<lparr>ce_scores := observe_success (ce_scores e) chosen,
                        ce_shutdown_guard := guard_record (ce_shutdown_guard e) tick True\<rparr>,
                      n, dialled @ [chosen])
                | (Inl err, n) \<Rightarrow>
                    (let category = TransportError_category err;
                         e = e\<lparr>ce_shutdown_guard := guard_record (ce_shutdown_guard e) tick False\<rparr>;
                         (scores, rng) =
                           (if is_remote_signal category
                            then observe_failure (env_gen_range env) (env_now env n) (ce_scores e)
                                   chosen category rng
                            else (ce_scores e, rng));
                         e = e\<lparr>ce_scores := scores\<rparr>;
                         (jitter_ms, rng) = env_gen_range env 50 499 rng;
                         n = env_sleep_ms env jitter_ms n
                     in connect_loop env all left (Some err) e rng n (dialled @ [chosen])))))"

definition engine_connect ::
    "('n, 's, 'g) engine_env \<Rightarrow> ConnectionEngine \<Rightarrow> 'g \<Rightarrow> 'n \<Rightarrow> ('n, 's) connect_result" where
  "engine_connect env e rng n =
     (let all = engine_candidates e in
      if all = [] then Some (Inl NoCandidates, e, n, [])
      else connect_loop env all (ce_max_attempts e) None e rng n [])"

definition failure_category_of :: "TransportError \<Rightarrow> FailureCategory" where
  "failure_category_of e = TransportError_category e"

subsection \<open>Lemmas on one call\<close>

text \<open>What one run of the loop guarantees, whatever the environment does.\<close>

definition loop_result ::
    "(Candidate \<times> ResolvedEndpoint \<times> TransportId) list \<Rightarrow> nat \<Rightarrow> ConnectionEngine \<Rightarrow> Candidate list \<Rightarrow>
     ('n, 's) connect_result \<Rightarrow> bool" where
  "loop_result all left e dialled res \<longleftrightarrow>
     (\<exists>r e' n' ds. res = Some (r, e', n', dialled @ ds) \<and> length ds \<le> left \<and>
        set ds \<subseteq> fst ` set all \<and>
        (\<forall>c. c \<notin> set ds \<longrightarrow> score_of (ce_scores e') c = score_of (ce_scores e) c) \<and>
        (\<forall>t s. r = Inr (t, s) \<longrightarrow> ds \<noteq> [] \<and> t = cand_transport (last ds)) \<and>
        ce_transports e' = ce_transports e \<and> ce_endpoints e' = ce_endpoints e \<and>
        ce_max_attempts e' = ce_max_attempts e)"

lemma score_of_observe_failure:
  "c' \<noteq> c \<Longrightarrow> score_of (fst (observe_failure gr now b c cat rng)) c' = score_of b c'"
  using sb.score_fail [of gr now b c cat rng c'] by simp

lemma score_of_observe_success: "c' \<noteq> c \<Longrightarrow> score_of (observe_success b c) c' = score_of b c'"
  using sb.score_succ [of b c c'] by simp

lemma loop_result_stop:
  "(\<And>t s. r \<noteq> Inr (t, s)) \<Longrightarrow> ce_scores e' = ce_scores e \<Longrightarrow> ce_transports e' = ce_transports e \<Longrightarrow>
   ce_endpoints e' = ce_endpoints e \<Longrightarrow> ce_max_attempts e' = ce_max_attempts e \<Longrightarrow>
   loop_result all left e dialled (Some (r, e', n, dialled))"
  by (auto simp: loop_result_def)

lemma loop_result_connected:
  assumes "c \<in> fst ` set all" "t = cand_transport c"
    and "\<And>c'. c' \<noteq> c \<Longrightarrow> score_of (ce_scores e') c' = score_of (ce_scores e) c'"
    and "ce_transports e' = ce_transports e" "ce_endpoints e' = ce_endpoints e"
    "ce_max_attempts e' = ce_max_attempts e"
  shows "loop_result all (Suc left) e dialled (Some (Inr (t, s), e', n, dialled @ [c]))"
  unfolding loop_result_def
  by (rule exI [of _ "Inr (t, s)"], rule exI [of _ e'], rule exI [of _ n], rule exI [of _ "[c]"])
    (use assms in auto)

lemma loop_result_dial:
  assumes "loop_result all left e1 (dialled @ [c]) res" "c \<in> fst ` set all"
    and "\<And>c'. c' \<noteq> c \<Longrightarrow> score_of (ce_scores e1) c' = score_of (ce_scores e) c'"
    and "ce_transports e1 = ce_transports e" "ce_endpoints e1 = ce_endpoints e"
    "ce_max_attempts e1 = ce_max_attempts e"
  shows "loop_result all (Suc left) e dialled res"
proof -
  from assms(1) obtain r e' n' ds where res: "res = Some (r, e', n', dialled @ (c # ds))"
    "length ds \<le> left" "set ds \<subseteq> fst ` set all"
    "\<And>c. c \<notin> set ds \<Longrightarrow> score_of (ce_scores e') c = score_of (ce_scores e1) c"
    "\<And>t s. r = Inr (t, s) \<Longrightarrow> ds \<noteq> [] \<and> t = cand_transport (last ds)"
    "ce_transports e' = ce_transports e1" "ce_endpoints e' = ce_endpoints e1"
    "ce_max_attempts e' = ce_max_attempts e1"
    by (auto simp: loop_result_def)
  show ?thesis
    unfolding loop_result_def
    by (rule exI [of _ r], rule exI [of _ e'], rule exI [of _ n'], rule exI [of _ "c # ds"])
      (use res assms in auto)
qed

lemma find_candidate_ex:
  "c \<in> fst ` set all \<Longrightarrow>
   \<exists>re t. find (\<lambda>(c', _, _). c' = c) all = Some (c, re, t) \<and> (c, re, t) \<in> set all"
  by (induction all) auto

lemma find_candidate:
  assumes "c \<in> fst ` set all"
  obtains re t where "find (\<lambda>(c', _, _). c' = c) all = Some (c, re, t)"
  using find_candidate_ex [OF assms] by blast

lemma connect_loop_failed_dial:
  assumes "should_suppress_switching (ce_shutdown_guard e) (ce_tick e) = (False, guard)"
    and "select_next (env_weighted env) (env_now env n) (ce_scores e) (map fst all) rng = Some (Some c, rng')"
    and "find (\<lambda>(c', _, _). c' = c) all = Some (c, re, t)"
    and "env_dial env t (re_endpoint re) n = (Inl er, n1)"
  obtains e2 rng2 n2 where
    "\<forall>err dialled. connect_loop env all (Suc left) err e rng n dialled =
      connect_loop env all left (Some er) e2 rng2 n2 (dialled @ [c])"
    and "ce_shutdown_guard e2 = guard_record guard (ce_tick e) False" and "ce_tick e2 = ce_tick e + 1"
    and "\<forall>c'. c' \<noteq> c \<or> \<not> is_remote_signal (TransportError_category er) \<longrightarrow>
      score_of (ce_scores e2) c' = score_of (ce_scores e) c'"
    and "ce_transports e2 = ce_transports e" "ce_endpoints e2 = ce_endpoints e"
    "ce_max_attempts e2 = ce_max_attempts e"
proof -
  define ob where "ob = (if is_remote_signal (TransportError_category er)
    then observe_failure (env_gen_range env) (env_now env n1) (ce_scores e) c (TransportError_category er) rng'
    else (ce_scores e, rng'))"
  define j where "j = env_gen_range env 50 499 (snd ob)"
  define e2 where "e2 = e\<lparr>ce_tick := ce_tick e + 1,
    ce_shutdown_guard := guard_record guard (ce_tick e) False, ce_scores := fst ob\<rparr>"
  show ?thesis
  proof (rule that [of e2 "snd j" "env_sleep_ms env (fst j) n1"])
    show "\<forall>err dialled. connect_loop env all (Suc left) err e rng n dialled =
      connect_loop env all left (Some er) e2 (snd j) (env_sleep_ms env (fst j) n1) (dialled @ [c])"
      using assms
      by (cases "is_remote_signal (TransportError_category er)")
        (simp_all add: e2_def j_def ob_def case_prod_beta Let_def)
    show "\<forall>c'. c' \<noteq> c \<or> \<not> is_remote_signal (TransportError_category er) \<longrightarrow>
      score_of (ce_scores e2) c' = score_of (ce_scores e) c'"
      by (auto simp: e2_def ob_def score_of_observe_failure)
  qed (simp_all add: e2_def)
qed

lemma connect_loop_result:
  assumes ws: "weighted_sample_ok (env_weighted env)"
  shows "loop_result all left e dialled (connect_loop env all left err e rng n dialled)"
proof (induction left arbitrary: err e rng n dialled)
  case 0
  show ?case
    by (simp add: loop_result_stop)
next
  case (Suc left)
  obtain b guard where q: "should_suppress_switching (ce_shutdown_guard e) (ce_tick e) = (b, guard)"
    by (cases "should_suppress_switching (ce_shutdown_guard e) (ce_tick e)")
  let ?e = "e\<lparr>ce_tick := ce_tick e + 1, ce_shutdown_guard := guard\<rparr>"
  show ?case
  proof (cases b)
    case True
    then show ?thesis
      using q by (simp add: loop_result_stop)
  next
    case False
    then have nb: "b = False" by simp
    from select_next_cases [OF ws, of "env_now env n" "ce_scores e" "map fst all" rng]
    consider c rng' where "select_next (env_weighted env) (env_now env n) (ce_scores e) (map fst all) rng =
          Some (Some c, rng')" "c \<in> fst ` set all"
      | "select_next (env_weighted env) (env_now env n) (ce_scores e) (map fst all) rng = Some (None, rng)"
      by auto
    then show ?thesis
    proof cases
      case 2
      then show ?thesis
        using q False by (simp add: loop_result_stop)
    next
      case 1
      from find_candidate [OF 1(2)] obtain re t where
        f: "find (\<lambda>(c', _, _). c' = c) all = Some (c, re, t)" .
      obtain r n' where d: "env_dial env t (re_endpoint re) n = (r, n')"
        by (cases "env_dial env t (re_endpoint re) n")
      show ?thesis
      proof (cases r)
        case (Inr s)
        then show ?thesis
          using q False 1 f d
          by (simp add: Let_def) (rule loop_result_connected, simp_all add: score_of_observe_success)
      next
        case (Inl er)
        from connect_loop_failed_dial [where left = left, OF q [unfolded nb] 1(1) f d [unfolded Inl]]
        obtain e2 rng2 n2 where
          step: "\<forall>err dialled. connect_loop env all (Suc left) err e rng n dialled =
            connect_loop env all left (Some er) e2 rng2 n2 (dialled @ [c])"
          and g2: "ce_shutdown_guard e2 = guard_record guard (ce_tick e) False" "ce_tick e2 = ce_tick e + 1"
          and e2: "\<forall>c'. c' \<noteq> c \<or> \<not> is_remote_signal (TransportError_category er) \<longrightarrow>
              score_of (ce_scores e2) c' = score_of (ce_scores e) c'"
            "ce_transports e2 = ce_transports e" "ce_endpoints e2 = ce_endpoints e"
            "ce_max_attempts e2 = ce_max_attempts e" .
        show ?thesis
          unfolding step [rule_format]
          by (rule loop_result_dial [OF Suc.IH 1(2)]) (use e2 in auto)
      qed
    qed
  qed
qed

subsection \<open>Lemmas on an outage\<close>

text \<open>
  While every dial fails, \<open>T\<close> is the tick counter and \<open>D\<close> the number of dials so far. A
  cycle is eight failed dials followed by a cooldown of ninety ticks; \<open>c\<close> cycles are over.
\<close>

definition outage_inv :: "ShutdownGuard \<Rightarrow> nat \<Rightarrow> nat \<Rightarrow> bool" where
  "outage_inv g T D \<longleftrightarrow>
     sg_window_size g = 8 \<and> sg_failure_fraction_threshold g = f32 (3 / 4) \<and>
     sg_cooldown_ticks g = 90 \<and>
     (\<exists>c. case sg_cooldown_until g of
            None \<Rightarrow> length (sg_window g) \<le> 8 \<and> list_all (\<lambda>(_, ok). \<not> ok) (sg_window g) \<and>
                    D \<le> 8 * c + length (sg_window g) \<and> 98 * c + length (sg_window g) \<le> T
          | Some u \<Rightarrow> D \<le> 8 * (c + 1) \<and> 98 * (c + 1) \<le> unat u \<and> 98 * c + 8 \<le> T)"

lemma f32_three_quarters: "f32 (3 / 4) = 3 / 4"
  by code_simp

lemma full_window_fraction:
  assumes "list_all (\<lambda>(_, ok). \<not> ok) (sg_window g)" "sg_window g \<noteq> []"
  shows "failure_fraction g = 1"
proof -
  have "filter (\<lambda>(_, ok). \<not> ok) (sg_window g) = sg_window g"
    using assms(1) by (simp add: filter_id_conv list_all_iff)
  moreover have "1 \<le> f32 (of_nat (length (sg_window g)))"
    using assms(2) by (intro le_f32) (simp_all add: Suc_leI)
  then have "f32 (of_nat (length (sg_window g))) \<noteq> 0"
    by auto
  ultimately show ?thesis
    using assms(2) by (simp add: failure_fraction_def f32_exact)
qed

lemma outage_inv_mono: "outage_inv g T D \<Longrightarrow> T \<le> T' \<Longrightarrow> outage_inv g T' D"
  by (fastforce simp: outage_inv_def split: option.splits)

lemma outage_inv_query:
  assumes inv: "outage_inv g (unat tick) D" and nowrap: "unat tick + 90 < 2 ^ 64"
    and q: "should_suppress_switching g tick = (b, g')"
  shows "outage_inv g' (unat tick) D"
    and "\<not> b \<Longrightarrow> sg_cooldown_until g' = None \<and> length (sg_window g') < 8"
proof -
  have par: "sg_window_size g = 8" "sg_failure_fraction_threshold g = 3 / 4" "sg_cooldown_ticks g = 90"
    using inv by (simp_all add: outage_inv_def f32_three_quarters)
  have "outage_inv g' (unat tick) D \<and>
    (\<not> b \<longrightarrow> sg_cooldown_until g' = None \<and> length (sg_window g') < 8)"
  proof (cases "sg_cooldown_until g")
    case None
    from inv None obtain c where c: "length (sg_window g) \<le> 8"
      "list_all (\<lambda>(_, ok). \<not> ok) (sg_window g)"
      "D \<le> 8 * c + length (sg_window g)" "98 * c + length (sg_window g) \<le> unat tick"
      by (auto simp: outage_inv_def)
    show ?thesis
    proof (cases "length (sg_window g) = 8")
      case True
      then have "failure_fraction g = 1"
        by (intro full_window_fraction [OF c(2)]) auto
      then have "b" "g' = g\<lparr>sg_cooldown_until := Some (tick + 90)\<rparr>"
        using q None True par by (auto simp: should_suppress_switching_def Let_def)
      moreover have "unat (tick + 90) = unat tick + 90"
        using nowrap by (simp add: unat_word_ariths)
      ultimately show ?thesis
        using par c True
        by (auto simp: outage_inv_def f32_three_quarters intro!: exI [of _ c])
    next
      case False
      then have "\<not> b" "g' = g"
        using q None par c(1) by (auto simp: should_suppress_switching_def Let_def split: if_splits)
      then show ?thesis
        using inv None False c(1) by simp
    qed
  next
    case (Some u)
    from inv Some obtain c where c: "D \<le> 8 * (c + 1)" "98 * (c + 1) \<le> unat u" "98 * c + 8 \<le> unat tick"
      by (auto simp: outage_inv_def)
    show ?thesis
    proof (cases "tick < u")
      case True
      then show ?thesis
        using q inv Some suppress_in_cooldown [OF Some True] by simp
    next
      case False
      then have "b = False" "g' = g\<lparr>sg_cooldown_until := None, sg_window := []\<rparr>"
        using q suppress_after_cooldown [OF Some, of tick] by simp_all
      moreover have "unat u \<le> unat tick"
        using False by (simp add: word_less_nat_alt)
      ultimately show ?thesis
        using par c by (auto simp: outage_inv_def f32_three_quarters intro!: exI [of _ "c + 1"])
    qed
  qed
  then show "outage_inv g' (unat tick) D"
    and "\<not> b \<Longrightarrow> sg_cooldown_until g' = None \<and> length (sg_window g') < 8"
    by simp_all
qed

lemma outage_inv_failed_dial:
  assumes "outage_inv g T D" "sg_cooldown_until g = None" "length (sg_window g) < 8"
  shows "outage_inv (guard_record g tick False) (Suc T) (Suc D)"
proof -
  from assms(1,2) obtain c where "length (sg_window g) \<le> 8" "list_all (\<lambda>(_, ok). \<not> ok) (sg_window g)"
      "D \<le> 8 * c + length (sg_window g)" "98 * c + length (sg_window g) \<le> T"
    by (auto simp: outage_inv_def)
  then show ?thesis
    using assms by (auto simp: outage_inv_def guard_record_def intro!: exI [of _ c])
qed

lemma outage_inv_bound:
  assumes "outage_inv g T D"
  shows "D \<le> 8 * (T div 98 + 1)"
proof -
  have "\<exists>c. D \<le> 8 * (c + 1) \<and> 98 * c \<le> T"
  proof (cases "sg_cooldown_until g")
    case None
    with assms obtain c where "length (sg_window g) \<le> 8" "D \<le> 8 * c + length (sg_window g)"
      "98 * c + length (sg_window g) \<le> T"
      by (auto simp: outage_inv_def)
    then show ?thesis
      by (intro exI [of _ c]) simp
  next
    case (Some u)
    with assms obtain c where "D \<le> 8 * (c + 1)" "98 * c + 8 \<le> T"
      by (auto simp: outage_inv_def)
    then show ?thesis
      by (intro exI [of _ c]) simp
  qed
  then obtain c where c: "D \<le> 8 * (c + 1)" "98 * c \<le> T"
    by blast
  then have "c \<le> T div 98"
    by (simp add: less_eq_div_iff_mult_less_eq mult.commute)
  with c show ?thesis
    by simp
qed

definition all_dials_fail :: "('n, 's, 'g) engine_env \<Rightarrow> bool" where
  "all_dials_fail env \<longleftrightarrow> (\<forall>t ep n. \<exists>err. fst (env_dial env t ep n) = Inl err)"

lemma connect_loop_outage:
  assumes "all_dials_fail env" "weighted_sample_ok (env_weighted env)"
    and "outage_inv (ce_shutdown_guard e) (unat (ce_tick e)) (D + length dialled)"
    and "unat (ce_tick e) + left + 90 < 2 ^ 64"
    and "connect_loop env all left err e rng n dialled = Some (r, e', n', ds)"
  shows "outage_inv (ce_shutdown_guard e') (unat (ce_tick e')) (D + length ds) \<and>
    unat (ce_tick e') \<le> unat (ce_tick e) + left"
  using assms(3-5)
proof (induction left arbitrary: err e rng n dialled)
  case 0
  then show ?case
    by simp
next
  case (Suc left)
  obtain b guard where q: "should_suppress_switching (ce_shutdown_guard e) (ce_tick e) = (b, guard)"
    by (cases "should_suppress_switching (ce_shutdown_guard e) (ce_tick e)")
  have t: "unat (ce_tick e + 1) = Suc (unat (ce_tick e))"
    using Suc.prems(2) by (simp add: unat_word_ariths)
  note inv = outage_inv_query [OF Suc.prems(1) _ q]
  have inv1: "outage_inv guard (unat (ce_tick e)) (D + length dialled)"
    using inv(1) Suc.prems(2) by simp
  note inv1' = outage_inv_mono [OF inv1, of "Suc (unat (ce_tick e))"]
  show ?case
  proof (cases b)
    case True
    then show ?thesis
      using Suc.prems(3) q t inv1' by auto
  next
    case False
    then have nb: "b = False" by simp
    from select_next_cases [OF assms(2), of "env_now env n" "ce_scores e" "map fst all" rng]
    consider c rng' where "select_next (env_weighted env) (env_now env n) (ce_scores e) (map fst all) rng =
          Some (Some c, rng')" "c \<in> fst ` set all"
      | "select_next (env_weighted env) (env_now env n) (ce_scores e) (map fst all) rng = Some (None, rng)"
      by auto
    then show ?thesis
    proof cases
      case 2
      then show ?thesis
        using Suc.prems(3) q t inv1' False by auto
    next
      case 1
      from find_candidate [OF 1(2)] obtain re tr where
        f: "find (\<lambda>(c', _, _). c' = c) all = Some (c, re, tr)" .
      obtain er n1 where d: "env_dial env tr (re_endpoint re) n = (Inl er, n1)"
        using assms(1) by (metis all_dials_fail_def prod.collapse)
      from connect_loop_failed_dial [where left = left, OF q [unfolded nb] 1(1) f d]
      obtain e2 rng2 n2 where
        step: "\<forall>err dialled. connect_loop env all (Suc left) err e rng n dialled =
            connect_loop env all left (Some er) e2 rng2 n2 (dialled @ [c])"
        and e2: "ce_shutdown_guard e2 = guard_record guard (ce_tick e) False" "ce_tick e2 = ce_tick e + 1"
        and "\<forall>c'. c' \<noteq> c \<or> \<not> is_remote_signal (TransportError_category er) \<longrightarrow>
              score_of (ce_scores e2) c' = score_of (ce_scores e) c'"
            "ce_transports e2 = ce_transports e" "ce_endpoints e2 = ce_endpoints e"
            "ce_max_attempts e2 = ce_max_attempts e" .
      have "outage_inv (ce_shutdown_guard e2) (unat (ce_tick e2)) (D + length (dialled @ [c]))"
        using outage_inv_failed_dial [OF inv1] inv(2) False Suc.prems(2) t e2 by simp
      from Suc.IH [OF this _ Suc.prems(3) [unfolded step [rule_format]]] show ?thesis
        using Suc.prems(2) e2 t by simp
    qed
  qed
qed

subsection \<open>Sequences of calls\<close>

fun connect_calls ::
    "('n, 's, 'g) engine_env \<Rightarrow> ConnectionEngine \<Rightarrow> 'n \<Rightarrow> 'g list
      \<Rightarrow> (Candidate list \<times> ConnectionEngine \<times> 'n) option" where
  "connect_calls env e n [] = Some ([], e, n)"
| "connect_calls env e n (rng # rngs) =
     (case engine_connect env e rng n of
        None \<Rightarrow> None
      | Some (r, e, n, ds) \<Rightarrow>
          (case connect_calls env e n rngs of
             None \<Rightarrow> None
           | Some (ds', e, n) \<Rightarrow> Some (ds @ ds', e, n)))"

lemma engine_connect_result:
  "weighted_sample_ok (env_weighted env) \<Longrightarrow>
   loop_result (engine_candidates e) (ce_max_attempts e) e [] (engine_connect env e rng n)"
  by (simp add: engine_connect_def connect_loop_result loop_result_stop Let_def)

lemma engine_connect_outage:
  assumes "all_dials_fail env" "weighted_sample_ok (env_weighted env)"
    and "outage_inv (ce_shutdown_guard e) (unat (ce_tick e)) D"
    and "unat (ce_tick e) + ce_max_attempts e + 90 < 2 ^ 64"
    and "engine_connect env e rng n = Some (r, e', n', ds)"
  shows "outage_inv (ce_shutdown_guard e') (unat (ce_tick e')) (D + length ds) \<and>
    unat (ce_tick e') \<le> unat (ce_tick e) + ce_max_attempts e \<and> ce_max_attempts e' = ce_max_attempts e"
proof -
  have "ce_max_attempts e' = ce_max_attempts e"
    using engine_connect_result [OF assms(2), of e rng n] assms(5) by (auto simp: loop_result_def)
  moreover have "outage_inv (ce_shutdown_guard e') (unat (ce_tick e')) (D + length ds) \<and>
    unat (ce_tick e') \<le> unat (ce_tick e) + ce_max_attempts e"
  proof (cases "engine_candidates e = []")
    case True
    then show ?thesis
      using assms(3,5) by (auto simp: engine_connect_def)
  next
    case False
    then show ?thesis
      using connect_loop_outage [OF assms(1,2), where dialled = "[]" and D = D] assms(3-5)
      by (auto simp: engine_connect_def Let_def)
  qed
  ultimately show ?thesis
    by simp
qed

lemma connect_calls_outage:
  assumes "all_dials_fail env" "weighted_sample_ok (env_weighted env)"
    and "outage_inv (ce_shutdown_guard e) (unat (ce_tick e)) D"
    and "unat (ce_tick e) + length rngs * ce_max_attempts e + 90 < 2 ^ 64"
    and "connect_calls env e n rngs = Some (ds, e', n')"
  shows "outage_inv (ce_shutdown_guard e') (unat (ce_tick e')) (D + length ds)"
  using assms(3-5)
proof (induction rngs arbitrary: e n D ds)
  case (Cons rng rngs)
  from Cons.prems(3) obtain r e1 n1 ds1 ds2 where
    1: "engine_connect env e rng n = Some (r, e1, n1, ds1)"
    and 2: "connect_calls env e1 n1 rngs = Some (ds2, e', n')" and ds: "ds = ds1 @ ds2"
    by (auto split: option.splits)
  have "unat (ce_tick e) + ce_max_attempts e + 90 < 2 ^ 64"
    using Cons.prems(2) by simp
  note inv = engine_connect_outage [OF assms(1,2) Cons.prems(1) this 1]
  have "unat (ce_tick e1) + length rngs * ce_max_attempts e1 + 90 < 2 ^ 64"
    using inv Cons.prems(2) by simp
  from Cons.IH [OF conjunct1 [OF inv] this 2] show ?case
    by (simp add: ds add.assoc)
qed simp

lemma outage_inv_new:
  "outage_inv (ce_shutdown_guard (with_max_attempts hx pa ts eps m)) 0 0"
  by (auto simp: outage_inv_def with_max_attempts_def ShutdownGuard_new_def intro!: exI [of _ 0])

definition all_dials_local :: "('n, 's, 'g) engine_env \<Rightarrow> bool" where
  "all_dials_local env \<longleftrightarrow>
     (\<forall>t ep n. \<exists>err. fst (env_dial env t ep n) = Inl err \<and>
        TransportError_category err = LocalNetworkFailure)"

lemma connect_loop_local:
  assumes "all_dials_local env" "weighted_sample_ok (env_weighted env)"
    and "connect_loop env all left err e rng n dialled = Some (r, e', n', ds)"
  shows "score_of (ce_scores e') c = score_of (ce_scores e) c"
  using assms(3)
proof (induction left arbitrary: err e rng n dialled)
  case (Suc left)
  obtain b guard where q: "should_suppress_switching (ce_shutdown_guard e) (ce_tick e) = (b, guard)"
    by (cases "should_suppress_switching (ce_shutdown_guard e) (ce_tick e)")
  show ?case
  proof (cases b)
    case True
    then show ?thesis
      using Suc.prems q by auto
  next
    case False
    then have nb: "b = False" by simp
    from select_next_cases [OF assms(2), of "env_now env n" "ce_scores e" "map fst all" rng]
    consider c rng' where "select_next (env_weighted env) (env_now env n) (ce_scores e) (map fst all) rng =
          Some (Some c, rng')" "c \<in> fst ` set all"
      | "select_next (env_weighted env) (env_now env n) (ce_scores e) (map fst all) rng = Some (None, rng)"
      by auto
    then show ?thesis
    proof cases
      case 2
      then show ?thesis
        using Suc.prems q nb by auto
    next
      case (1 d)
      from find_candidate [OF 1(2)] obtain re tr where
        f: "find (\<lambda>(c', _, _). c' = d) all = Some (d, re, tr)" .
      obtain er n1 where dial: "env_dial env tr (re_endpoint re) n = (Inl er, n1)"
        and cat: "TransportError_category er = LocalNetworkFailure"
        using assms(1) by (metis all_dials_local_def prod.collapse)
      from connect_loop_failed_dial [where left = left, OF q [unfolded nb] 1(1) f dial]
      obtain e2 rng2 n2 where
        step: "\<forall>err dialled. connect_loop env all (Suc left) err e rng n dialled =
            connect_loop env all left (Some er) e2 rng2 n2 (dialled @ [d])"
        and "ce_shutdown_guard e2 = guard_record guard (ce_tick e) False" "ce_tick e2 = ce_tick e + 1"
        and e2: "\<forall>c'. c' \<noteq> d \<or> \<not> is_remote_signal (TransportError_category er) \<longrightarrow>
              score_of (ce_scores e2) c' = score_of (ce_scores e) c'"
        and "ce_transports e2 = ce_transports e" "ce_endpoints e2 = ce_endpoints e"
            "ce_max_attempts e2 = ce_max_attempts e" .
      from Suc.IH [OF Suc.prems [unfolded step [rule_format]]] e2 cat show ?thesis
        by simp
    qed
  qed
qed simp

subsection \<open>Properties\<close>

text \<open>C30. One connect call never panics and dials at most its attempt budget, only candidates
  of the bundle whose transport is registered. A session it returns came over the
  transport of the last candidate it dialled, and the score of every candidate it did
  not dial is unchanged.\<close>

theorem engine_connect_bounded:
  assumes "weighted_sample_ok (env_weighted env)"
  shows "\<exists>r e' n' ds. engine_connect env e rng n = Some (r, e', n', ds) \<and>
     length ds \<le> ce_max_attempts e \<and> set ds \<subseteq> fst ` set (engine_candidates e) \<and>
     (\<forall>c. c \<notin> set ds \<longrightarrow> score_of (ce_scores e') c = score_of (ce_scores e) c) \<and>
     (\<forall>t s. r = Inr (t, s) \<longrightarrow> ds \<noteq> [] \<and> t = cand_transport (last ds))"
  using engine_connect_result [OF assms, of e rng n] unfolding loop_result_def by auto

definition demo_env :: "(nat, unit, unit) engine_env" where
  "demo_env =
     \<lparr>env_now = (\<lambda>n. n), env_dial = (\<lambda>t ep n. (Inl (Connect TcpReset []), Suc n)),
      env_sleep_ms = (\<lambda>ms n. n + unat ms), env_gen_range = low_jitter, env_weighted = first_index\<rparr>"

theorem engine_connect_bounded_witness:
  "\<exists>r e' n' ds. engine_connect demo_env (build_engine plain_hex (\<lambda>_. None) []) () 0 =
     Some (r, e', n', ds) \<and> length ds \<le> 4"
  using engine_connect_bounded [of demo_env "build_engine plain_hex (\<lambda>_. None) []" "()" 0]
  by (auto simp: demo_env_def first_index_ok build_engine_def ConnectionEngine_new_def
      with_max_attempts_def)


definition demo_descriptor :: EndpointDescriptor where
  "demo_descriptor =
     \<lparr>ed_id = ''relay-1'', ed_transport = ''direct-tls'', ed_address = [], ed_provider_tag = [],
      ed_capabilities = [], ed_cert_sha256_hex = concat (map hex_byte (replicate 32 0))\<rparr>"


text \<open>Failures of the local network say nothing about the remote side: a connect call in
  which every dial fails locally changes the score of no candidate.\<close>

theorem local_failures_leave_scores:
  assumes "all_dials_local env" and "weighted_sample_ok (env_weighted env)"
    and "engine_connect env e rng n = Some (r, e', n', ds)"
  shows "score_of (ce_scores e') c = score_of (ce_scores e) c"
  using assms(3) connect_loop_local [OF assms(1,2)]
  by (auto simp: engine_connect_def Let_def split: if_splits)

definition offline_env :: "(nat, unit, unit) engine_env" where
  "offline_env = demo_env\<lparr>env_dial := (\<lambda>t ep n. (Inl (Connect LocalNetworkFailure []), Suc n))\<rparr>"

theorem local_failures_leave_scores_witness:
  "case engine_connect offline_env
      (with_max_attempts plain_hex (\<lambda>_. Some unspecified_v4) default_transports [demo_descriptor] 4) () 0 of
     None \<Rightarrow> False
   | Some (r, e', n', ds) \<Rightarrow>
       score_of (ce_scores e') \<lparr>cand_transport = direct_tls_ID, cand_endpoint = EndpointId ''relay-1''\<rparr> =
       Score_default"
proof -
  let ?e = "with_max_attempts plain_hex (\<lambda>_. Some unspecified_v4) default_transports [demo_descriptor] 4"
  have ws: "weighted_sample_ok (env_weighted offline_env)"
    by (simp add: offline_env_def demo_env_def first_index_ok)
  have loc: "all_dials_local offline_env"
    by (simp add: all_dials_local_def offline_env_def demo_env_def)
  obtain r e' n' ds where run: "engine_connect offline_env ?e () 0 = Some (r, e', n', ds)"
    using engine_connect_result [OF ws, of ?e "()" 0] unfolding loop_result_def by blast
  from local_failures_leave_scores [OF loc ws run] run show ?thesis
    by (simp add: with_max_attempts_def)
qed

end
