(* ===== verification/Socks.thy ===== *)
theory Socks
  imports Common_Framing Client_Engine
begin

text \<open>
  The client's local SOCKS5 listener, \<^verbatim>\<open>apps/client-daemon/src/socks.rs\<close>: greeting, request,
  connecting through the engine, the reply, and the destination header on the tunnel. A
  socket is a state \<open>'s\<close> with exact reads \<open>rd\<close> and whole writes \<open>wr\<close>; the engine call and the
  tunnel are parameters. After the header both directions are copied verbatim, which is
  the value \<open>Relaying\<close>. The textual form of IP addresses follows \<^verbatim>\<open>core::net\<close>.
\<close>

subsection \<open>Addresses as text\<close>

definition ipv4_to_string :: "u8 list \<Rightarrow> string" where
  "ipv4_to_string bs = join_with ''.'' (map (\<lambda>b. show_nat (unat b)) bs)"

fun segments :: "u8 list \<Rightarrow> u16 list" where
  "segments (a # b # r) = u16_from_be_bytes a b # segments r"
| "segments _ = []"

text \<open>The longest run of zero groups: its start and length, the first of the longest.\<close>

fun zero_run :: "nat \<Rightarrow> nat \<times> nat \<Rightarrow> nat \<times> nat \<Rightarrow> u16 list \<Rightarrow> nat \<times> nat" where
  "zero_run i (cs, cl) (ls, ll) [] = (ls, ll)"
| "zero_run i (cs, cl) (ls, ll) (g # gs) =
     (if g = 0
      then let cs = (if cl = 0 then i else cs); cl = cl + 1
           in if cl > ll then zero_run (i + 1) (cs, cl) (cs, cl) gs
              else zero_run (i + 1) (cs, cl) (ls, ll) gs
      else zero_run (i + 1) (0, 0) (ls, ll) gs)"

definition ipv6_to_string :: "u8 list \<Rightarrow> string" where
  "ipv6_to_string bs =
     (let segs = segments bs;
          fmt = (\<lambda>gs. join_with '':'' (map (\<lambda>g. show_hex (unat g)) gs))
      in if take 5 segs = replicate 5 0 \<and> segs ! 5 = 0xFFFF
         then ''::ffff:'' @ ipv4_to_string (drop 12 bs)
         else let (start, len) = zero_run 0 (0, 0) (0, 0) segs
           in if len > 1 then fmt (take start segs) @ ''::'' @ fmt (drop (start + len) segs)
              else fmt segs)"

subsection \<open>The session\<close>

datatype socks_error = SocksIo io_error | SocksMsg string | SocksEngine EngineError

type_synonym ('s, 'a) socks = "'s \<Rightarrow> (socks_error + 'a) \<times> 's"

definition bind_s :: "('s, 'a) socks \<Rightarrow> ('a \<Rightarrow> ('s, 'b) socks) \<Rightarrow> ('s, 'b) socks" where
  "bind_s m f s = (case m s of (Inl e, s') \<Rightarrow> (Inl e, s') | (Inr x, s') \<Rightarrow> f x s')"

definition fail_s :: "socks_error \<Rightarrow> ('s, 'a) socks" where
  "fail_s e s = (Inl e, s)"

definition return_s :: "'a \<Rightarrow> ('s, 'a) socks" where
  "return_s x s = (Inr x, s)"

definition get_bytes :: "(nat \<Rightarrow> 's \<Rightarrow> io_error + (u8 list \<times> 's)) \<Rightarrow> nat \<Rightarrow> ('s, u8 list) socks" where
  "get_bytes rd n s = (case rd n s of Inl e \<Rightarrow> (Inl (SocksIo e), s) | Inr (bs, s') \<Rightarrow> (Inr bs, s'))"

definition get_u8 :: "(nat \<Rightarrow> 's \<Rightarrow> io_error + (u8 list \<times> 's)) \<Rightarrow> ('s, u8) socks" where
  "get_u8 rd s = (case read_u8 rd s of Inl e \<Rightarrow> (Inl (SocksIo e), s) | Inr (b, s') \<Rightarrow> (Inr b, s'))"

definition get_u16 :: "(nat \<Rightarrow> 's \<Rightarrow> io_error + (u8 list \<times> 's)) \<Rightarrow> ('s, u16) socks" where
  "get_u16 rd s = (case read_u16 rd s of Inl e \<Rightarrow> (Inl (SocksIo e), s) | Inr (b, s') \<Rightarrow> (Inr b, s'))"

definition put_bytes :: "(u8 list \<Rightarrow> 's \<Rightarrow> io_error + 's) \<Rightarrow> u8 list \<Rightarrow> ('s, unit) socks" where
  "put_bytes wr bs s = (case wr bs s of Inl e \<Rightarrow> (Inl (SocksIo e), s) | Inr s' \<Rightarrow> (Inr (), s'))"

definition socks_reply :: "u8 \<Rightarrow> u8 list" where
  "socks_reply code = [0x05, code, 0x00, 0x01, 0, 0, 0, 0, 0, 0]"

definition socks_greeting ::
    "(nat \<Rightarrow> 's \<Rightarrow> io_error + (u8 list \<times> 's)) \<Rightarrow> (u8 list \<Rightarrow> 's \<Rightarrow> io_error + 's) \<Rightarrow> ('s, unit) socks" where
  "socks_greeting rd wr =
     bind_s (get_u8 rd) (\<lambda>ver.
     if ver \<noteq> 0x05 then fail_s (SocksMsg (''unsupported SOCKS version '' @ show_nat (unat ver)))
     else bind_s (get_u8 rd) (\<lambda>nmethods.
     bind_s (get_bytes rd (unat nmethods)) (\<lambda>methods.
     put_bytes wr [0x05, 0x00])))"

definition socks_host ::
    "(nat \<Rightarrow> 's \<Rightarrow> io_error + (u8 list \<times> 's)) \<Rightarrow> (u8 list \<Rightarrow> 's \<Rightarrow> io_error + 's) \<Rightarrow> u8 \<Rightarrow> ('s, string) socks"
  where
  "socks_host rd wr atyp =
     (if atyp = 0x01 then bind_s (get_bytes rd 4) (\<lambda>buf. return_s (ipv4_to_string buf))
      else if atyp = 0x03 then
        bind_s (get_u8 rd) (\<lambda>len.
        bind_s (get_bytes rd (unat len)) (\<lambda>buf.
        case from_utf8 buf of
          Some h \<Rightarrow> return_s h
        | None \<Rightarrow> fail_s (SocksMsg ''invalid domain name'')))
      else if atyp = 0x04 then bind_s (get_bytes rd 16) (\<lambda>buf. return_s (ipv6_to_string buf))
      else bind_s (put_bytes wr (socks_reply 0x08)) (\<lambda>_.
        fail_s (SocksMsg (''unsupported ATYP '' @ show_nat (unat atyp)))))"

definition socks_request ::
    "(nat \<Rightarrow> 's \<Rightarrow> io_error + (u8 list \<times> 's)) \<Rightarrow> (u8 list \<Rightarrow> 's \<Rightarrow> io_error + 's) \<Rightarrow> ('s, string \<times> u16) socks"
  where
  "socks_request rd wr =
     bind_s (get_u8 rd) (\<lambda>ver.
     bind_s (get_u8 rd) (\<lambda>cmd.
     bind_s (get_u8 rd) (\<lambda>rsv.
     bind_s (get_u8 rd) (\<lambda>atyp.
     if ver \<noteq> 0x05 \<or> cmd \<noteq> 0x01 then
       bind_s (put_bytes wr (socks_reply 0x07)) (\<lambda>_.
         fail_s (SocksMsg (''only CONNECT is supported (cmd='' @ show_nat (unat cmd) @ '')'')))
     else bind_s (socks_host rd wr atyp) (\<lambda>host.
       bind_s (get_u16 rd) (\<lambda>port. return_s (host, port)))))))"

datatype 't relay_state = Relaying 't

definition handle_client ::
    "(nat \<Rightarrow> 's \<Rightarrow> io_error + (u8 list \<times> 's)) \<Rightarrow> (u8 list \<Rightarrow> 's \<Rightarrow> io_error + 's) \<Rightarrow>
     (string \<Rightarrow> u16 \<Rightarrow> EngineError + 't) \<Rightarrow> (u8 list \<Rightarrow> 't \<Rightarrow> io_error + 't) \<Rightarrow> ('s, 't relay_state) socks" where
  "handle_client rd wr connect twr =
     bind_s (socks_greeting rd wr) (\<lambda>_.
     bind_s (socks_request rd wr) (\<lambda>(host, port).
     case connect host port of
       Inl e \<Rightarrow> bind_s (put_bytes wr (socks_reply 0x01)) (\<lambda>_. fail_s (SocksEngine e))
     | Inr tunnel \<Rightarrow>
         bind_s (put_bytes wr (socks_reply 0x00)) (\<lambda>_.
         case write_destination twr tunnel host port of
           Inl e \<Rightarrow> fail_s (SocksIo e)
         | Inr tunnel \<Rightarrow> return_s (Relaying tunnel))))"

subsection \<open>Sockets\<close>

text \<open>
  What a socket does: exact reads hand out what the peer sends (\<open>content\<close>) and leave what
  was written (\<open>out\<close>) alone; a write appends to \<open>out\<close> or fails having written nothing
  that counts.
\<close>

definition socket_ok ::
    "(nat \<Rightarrow> 's \<Rightarrow> io_error + (u8 list \<times> 's)) \<Rightarrow> (u8 list \<Rightarrow> 's \<Rightarrow> io_error + 's) \<Rightarrow>
     ('s \<Rightarrow> u8 list) \<Rightarrow> ('s \<Rightarrow> io_error) \<Rightarrow> ('s \<Rightarrow> u8 list) \<Rightarrow> bool" where
  "socket_ok rd wr content ended out \<longleftrightarrow>
     exact_reader rd content ended \<and>
     (\<forall>n s bs s'. rd n s = Inr (bs, s') \<longrightarrow> out s' = out s) \<and>
     (\<forall>bs s s'. wr bs s = Inr s' \<longrightarrow> out s' = out s @ bs \<and> content s' = content s)"

definition writable :: "(u8 list \<Rightarrow> 's \<Rightarrow> io_error + 's) \<Rightarrow> bool" where
  "writable wr \<longleftrightarrow> (\<forall>bs s. \<not> isl (wr bs s))"

text \<open>What holds after running a session step.\<close>

definition after :: "('s, 'a) socks \<Rightarrow> (socks_error + 'a \<Rightarrow> 's \<Rightarrow> bool) \<Rightarrow> 's \<Rightarrow> bool" where
  "after m Q s = (case m s of (r, s') \<Rightarrow> Q r s')"

lemma after_bind:
  "after m (\<lambda>r s'. case r of Inl e \<Rightarrow> Q (Inl e) s' | Inr x \<Rightarrow> after (f x) Q s') s \<Longrightarrow> after (bind_s m f) Q s"
  by (auto simp: after_def bind_s_def split: prod.splits sum.splits)

lemma after_fail: "Q (Inl e) s \<Longrightarrow> after (fail_s e) Q s"
  by (simp add: after_def fail_s_def)

lemma after_return: "Q (Inr x) s \<Longrightarrow> after (return_s x) Q s"
  by (simp add: after_def return_s_def)

lemma after_conseq: "after m P s \<Longrightarrow> (\<And>r s'. P r s' \<Longrightarrow> Q r s') \<Longrightarrow> after m Q s"
  by (auto simp: after_def)

text \<open>Reads, first with the bytes known to be there, then on any input.\<close>

lemma after_get_bytes:
  assumes "socket_ok rd wr content ended out" and "content s = bs @ rest"
    and "\<And>s'. content s' = rest \<Longrightarrow> out s' = out s \<Longrightarrow> Q (Inr bs) s'"
  shows "after (get_bytes rd (length bs)) Q s"
proof -
  have rd: "exact_reader rd content ended" "length bs \<le> length (content s)"
    using assms(1,2) by (simp_all add: socket_ok_def)
  from exact_reader_okE [OF rd] obtain s' where s':
    "rd (length bs) s = Inr (take (length bs) (content s), s')"
    "content s' = drop (length bs) (content s)" "ended s' = ended s" .
  moreover have "out s' = out s"
    using assms(1) s'(1) unfolding socket_ok_def by blast
  ultimately show ?thesis
    using assms(2,3) by (simp add: after_def get_bytes_def)
qed

lemma get_u8_bytes: "get_u8 rd s = (case get_bytes rd 1 s of (Inl e, s') \<Rightarrow> (Inl e, s') | (Inr bs, s') \<Rightarrow> (Inr (bs ! 0), s'))"
  by (auto simp: get_u8_def get_bytes_def read_u8_def split: sum.splits)

lemma get_u16_bytes:
  "get_u16 rd s = (case get_bytes rd 2 s of (Inl e, s') \<Rightarrow> (Inl e, s')
     | (Inr bs, s') \<Rightarrow> (Inr (u16_from_be_bytes (bs ! 0) (bs ! 1)), s'))"
  by (auto simp: get_u16_def get_bytes_def read_u16_def split: sum.splits)

lemma after_get_u8:
  assumes "socket_ok rd wr content ended out" and "content s = b # rest"
    and "\<And>s'. content s' = rest \<Longrightarrow> out s' = out s \<Longrightarrow> Q (Inr b) s'"
  shows "after (get_u8 rd) Q s"
  using after_get_bytes [OF assms(1), of s "[b]" rest "\<lambda>r s'. r = Inr [b] \<and> Q (Inr b) s'"] assms(2,3)
  by (auto simp: after_def get_u8_bytes split: prod.splits)

lemma after_get_u16:
  assumes "socket_ok rd wr content ended out" and "content s = u16_to_be_bytes p @ rest"
    and "\<And>s'. content s' = rest \<Longrightarrow> out s' = out s \<Longrightarrow> Q (Inr p) s'"
  shows "after (get_u16 rd) Q s"
proof -
  have "after (get_bytes rd (length (u16_to_be_bytes p))) (\<lambda>r s'. r = Inr (u16_to_be_bytes p) \<and> Q (Inr p) s') s"
    by (rule after_get_bytes [OF assms(1,2)]) (simp add: assms(3))
  moreover have "u16_from_be_bytes (u16_to_be_bytes p ! 0) (u16_to_be_bytes p ! 1) = p"
    by (simp add: u16_to_be_bytes_def u16_be_roundtrip)
  ultimately show ?thesis
    by (auto simp: after_def get_u16_bytes split: prod.splits)
qed

lemma after_put_bytes:
  assumes "socket_ok rd wr content ended out" and "writable wr"
    and "\<And>s'. content s' = content s \<Longrightarrow> out s' = out s @ bs \<Longrightarrow> Q (Inr ()) s'"
  shows "after (put_bytes wr bs) Q s"
  using assms by (cases "wr bs s") (auto simp: after_def put_bytes_def socket_ok_def writable_def isl_def)

subsection \<open>The request as the client means it\<close>

datatype socks_addr = Ipv4 "u8 list" | Domain string | Ipv6 "u8 list"

fun addr_ok :: "socks_addr \<Rightarrow> bool" where
  "addr_ok (Ipv4 a) \<longleftrightarrow> length a = 4"
| "addr_ok (Domain h) \<longleftrightarrow> rust_str h \<and> length h < 256"
| "addr_ok (Ipv6 a) \<longleftrightarrow> length a = 16"

fun addr_host :: "socks_addr \<Rightarrow> string" where
  "addr_host (Ipv4 a) = ipv4_to_string a"
| "addr_host (Domain h) = h"
| "addr_host (Ipv6 a) = ipv6_to_string a"

fun addr_bytes :: "socks_addr \<Rightarrow> u8 list" where
  "addr_bytes (Ipv4 a) = 0x01 # a"
| "addr_bytes (Domain h) = 0x03 # word_of_nat (length h) # as_bytes h"
| "addr_bytes (Ipv6 a) = 0x04 # a"

text \<open>The bytes of a client that greets with \<open>methods\<close> and asks for \<open>addr\<close> and \<open>port\<close>.\<close>

definition socks_client :: "u8 list \<Rightarrow> u8 \<Rightarrow> socks_addr \<Rightarrow> u16 \<Rightarrow> u8 list" where
  "socks_client methods rsv addr port =
     [0x05, word_of_nat (length methods)] @ methods @ [0x05, 0x01, rsv] @ addr_bytes addr @
     u16_to_be_bytes port"

lemma unat_u8_len: "n < 256 \<Longrightarrow> unat (word_of_nat n :: u8) = n"
  by (simp add: unsigned_of_nat take_bit_eq_mod)

lemma after_greeting:
  assumes ok: "socket_ok rd wr content ended out" "writable wr" and len: "length methods < 256"
    and c: "content s = [0x05, word_of_nat (length methods)] @ methods @ rest"
    and Q: "\<And>s'. content s' = rest \<Longrightarrow> out s' = out s @ [0x05, 0x00] \<Longrightarrow> Q (Inr ()) s'"
  shows "after (socks_greeting rd wr) Q s"
  unfolding socks_greeting_def
  apply (rule after_bind, rule after_get_u8 [OF ok(1)], simp add: c, simp)
  apply (rule after_bind, rule after_get_u8 [OF ok(1)], assumption, simp add: unat_u8_len [OF len])
  apply (rule after_bind, rule after_get_bytes [OF ok(1)], assumption, simp)
  apply (rule after_put_bytes [OF ok])
  apply (rule Q, simp_all)
  done

lemma after_read_addr:
  assumes "socket_ok rd wr content ended out" and "content s = bs @ rest"
    and "\<And>s'. content s' = rest \<Longrightarrow> out s' = out s \<Longrightarrow> Q (Inr (f bs)) s'"
  shows "after (bind_s (get_bytes rd (length bs)) (\<lambda>buf. return_s (f buf))) Q s"
  by (rule after_bind, rule after_get_bytes [OF assms(1,2)]) (simp add: after_return assms(3))

lemma after_host:
  assumes ok: "socket_ok rd wr content ended out" and a: "addr_ok addr"
    and c: "hd (addr_bytes addr) = atyp" "content s = tl (addr_bytes addr) @ rest"
    and Q: "\<And>s'. content s' = rest \<Longrightarrow> out s' = out s \<Longrightarrow> Q (Inr (addr_host addr)) s'"
  shows "after (socks_host rd wr atyp) Q s"
proof (cases addr)
  case (Ipv4 v)
  then have "length v = 4" "atyp = 0x01" "content s = v @ rest"
    using a c by simp_all
  then show ?thesis
    using after_read_addr [OF ok, of s v rest Q ipv4_to_string] Q Ipv4 by (simp add: socks_host_def)
next
  case (Ipv6 v)
  then have "length v = 16" "atyp = 0x04" "content s = v @ rest"
    using a c by simp_all
  then show ?thesis
    using after_read_addr [OF ok, of s v rest Q ipv6_to_string] Q Ipv6 by (simp add: socks_host_def)
next
  case (Domain h)
  then have h: "rust_str h" "length h < 256" "atyp = 0x03"
    and c': "content s = word_of_nat (length h) # as_bytes h @ rest"
    using a c by auto
  have "unat (word_of_nat (length h) :: u8) = length (as_bytes h)"
    using unat_u8_len [OF h(2)] by simp
  then show ?thesis
    unfolding socks_host_def
    apply (simp add: h(3))
    apply (rule after_bind, rule after_get_u8 [OF ok], rule c', simp)
    apply (rule after_bind, rule after_get_bytes [OF ok, of _ "as_bytes h", simplified], assumption,
        simp add: h(1))
    apply (rule after_return, use Q Domain in simp)
    done
qed

lemma after_request:
  assumes ok: "socket_ok rd wr content ended out" and a: "addr_ok addr"
    and c: "content s = [0x05, 0x01, rsv] @ addr_bytes addr @ u16_to_be_bytes port @ rest"
    and Q: "\<And>s'. content s' = rest \<Longrightarrow> out s' = out s \<Longrightarrow> Q (Inr (addr_host addr, port)) s'"
  shows "after (socks_request rd wr) Q s"
proof -
  have split: "addr_bytes addr = hd (addr_bytes addr) # tl (addr_bytes addr)"
    by (cases addr) simp_all
  then have c': "content s = 0x05 # 0x01 # rsv # hd (addr_bytes addr) # tl (addr_bytes addr) @ u16_to_be_bytes port @ rest"
    using c by (metis append_Cons append_Nil)
  show ?thesis
    unfolding socks_request_def
    apply (rule after_bind, rule after_get_u8 [OF ok], rule c', simp)
    apply (rule after_bind, rule after_get_u8 [OF ok], assumption, simp)
    apply (rule after_bind, rule after_get_u8 [OF ok], assumption, simp)
    apply (rule after_bind, rule after_get_u8 [OF ok], assumption, simp)
    apply (rule after_bind, rule after_host [OF ok a refl], assumption, simp)
    apply (rule after_bind, rule after_get_u16 [OF ok], assumption, simp)
    apply (rule after_return, use Q in simp)
    done
qed

subsection \<open>Address texts fit the header\<close>

definition short_ascii :: "nat \<Rightarrow> string \<Rightarrow> bool" where
  "short_ascii n s \<longleftrightarrow> length s \<le> n \<and> list_all (\<lambda>c. (of_char c :: nat) < 128) s"

lemma short_ascii_append: "short_ascii m s \<Longrightarrow> short_ascii n t \<Longrightarrow> short_ascii (m + n) (s @ t)"
  by (simp add: short_ascii_def)

lemma short_ascii_mono: "short_ascii m s \<Longrightarrow> m \<le> n \<Longrightarrow> short_ascii n s"
  by (simp add: short_ascii_def)

lemma short_ascii_show_nat: "n < 10 ^ Suc k \<Longrightarrow> short_ascii (Suc k) (show_nat n)"
proof (induction k arbitrary: n)
  case 0
  then show ?case
    by (simp add: short_ascii_def show_nat.simps [of n])
next
  case (Suc k)
  show ?case
  proof (cases "n < 10")
    case True
    then show ?thesis
      by (simp add: short_ascii_def show_nat.simps [of n])
  next
    case False
    have "n div 10 < 10 ^ Suc k"
      using Suc.prems by (simp add: less_mult_imp_div_less mult.commute)
    from Suc.IH [OF this] False show ?thesis
      by (simp add: short_ascii_def show_nat.simps [of n])
  qed
qed

lemma short_ascii_show_hex: "n < 16 ^ Suc k \<Longrightarrow> short_ascii (Suc k) (show_hex n)"
proof (induction k arbitrary: n)
  case 0
  then show ?case
    by (simp add: short_ascii_def show_hex.simps [of n] hex_nibble_def)
next
  case (Suc k)
  show ?case
  proof (cases "n < 16")
    case True
    then show ?thesis
      by (simp add: short_ascii_def show_hex.simps [of n] hex_nibble_def)
  next
    case False
    have "n div 16 < 16 ^ Suc k"
      using Suc.prems by (simp add: less_mult_imp_div_less mult.commute)
    moreover have "n mod 16 < 41"
      using mod_less_divisor [of 16 n] by linarith
    ultimately show ?thesis
      using Suc.IH [of "n div 16"] False by (simp add: short_ascii_def show_hex.simps [of n] hex_nibble_def)
  qed
qed

lemma short_ascii_join:
  assumes "short_ascii 1 sep" and "\<And>x. x \<in> set xs \<Longrightarrow> short_ascii k x"
  shows "short_ascii (length xs * (k + 1)) (join_with sep xs)"
  using assms
proof (induction sep xs rule: join_with.induct)
  case (3 sep x y xs)
  then have "short_ascii (k + (1 + length (y # xs) * (k + 1))) (x @ sep @ join_with sep (y # xs))"
    by (intro short_ascii_append) simp_all
  then show ?case
    by (simp add: algebra_simps)
qed (simp_all add: short_ascii_def)

lemma short_ascii_dot: "short_ascii 1 ''.''" "short_ascii 1 '':''" "short_ascii 2 ''::''" "short_ascii 7 ''::ffff:''"
  by (simp_all add: short_ascii_def)

lemma unat_u8_less: "unat (b :: u8) < 10 ^ Suc 2"
  using unsigned_less [of b, where ?'a = nat] by simp

lemma unat_u16_less: "unat (g :: u16) < 16 ^ Suc 3"
  using unsigned_less [of g, where ?'a = nat] by simp

lemma short_ascii_ipv4:
  assumes "length bs = 4"
  shows "short_ascii 16 (ipv4_to_string bs)"
proof -
  have "short_ascii 3 x" if "x \<in> set (map (\<lambda>b. show_nat (unat b)) bs)" for x
    using that short_ascii_show_nat [OF unat_u8_less] by (auto simp del: power_Suc)
  from short_ascii_join [OF short_ascii_dot(1), of "map (\<lambda>b. show_nat (unat b)) bs", OF this] show ?thesis
    by (simp add: ipv4_to_string_def assms)
qed

lemma length_segments: "length (segments bs) = length bs div 2"
  by (induction bs rule: segments.induct) simp_all

lemma short_ascii_groups:
  assumes "length gs \<le> n"
  shows "short_ascii (n * 5) (join_with '':'' (map (\<lambda>g. show_hex (unat g)) (gs :: u16 list)))"
proof -
  have "short_ascii 4 x" if "x \<in> set (map (\<lambda>g. show_hex (unat g)) gs)" for x
    using that short_ascii_show_hex [OF unat_u16_less] by (auto simp del: power_Suc)
  from short_ascii_join [OF short_ascii_dot(2), of "map (\<lambda>g. show_hex (unat g)) gs", OF this]
  have "short_ascii (length gs * 5) (join_with '':'' (map (\<lambda>g. show_hex (unat g)) gs))"
    by simp
  then show ?thesis
    using assms by (auto elim: short_ascii_mono)
qed

lemma short_ascii_ipv6:
  assumes "length bs = 16"
  shows "short_ascii 82 (ipv6_to_string bs)"
proof -
  obtain start len where run: "zero_run 0 (0, 0) (0, 0) (segments bs) = (start, len)"
    by (meson surj_pair)
  have n: "length (segments bs) = 8"
    using assms by (simp add: length_segments)
  have "short_ascii (40 + (2 + 40)) (join_with '':'' (map (\<lambda>g. show_hex (unat g)) (take start (segments bs))) @
      ''::'' @ join_with '':'' (map (\<lambda>g. show_hex (unat g)) (drop (start + len) (segments bs))))"
    using short_ascii_groups [of _ 8] n by (intro short_ascii_append short_ascii_dot) simp_all
  moreover have "short_ascii 82 (''::ffff:'' @ ipv4_to_string (drop 12 bs))"
    using short_ascii_append [OF short_ascii_dot(4) short_ascii_ipv4, of "drop 12 bs"] assms
    by (auto elim: short_ascii_mono)
  moreover have "short_ascii 82 (join_with '':'' (map (\<lambda>g. show_hex (unat g)) (segments bs)))"
    using short_ascii_groups [of "segments bs" 8] n by (auto elim: short_ascii_mono)
  ultimately show ?thesis
    by (simp add: ipv6_to_string_def Let_def run)
qed

lemma addr_host_fits:
  assumes "addr_ok addr"
  shows "rust_str (addr_host addr)" "length (addr_host addr) \<le> MAX_HOST_LEN"
proof -
  have "short_ascii 255 (addr_host addr) \<or> (\<exists>h. addr = Domain h)"
    using assms by (cases addr) (auto intro: short_ascii_mono [OF short_ascii_ipv4] short_ascii_mono [OF short_ascii_ipv6])
  then show "rust_str (addr_host addr)" "length (addr_host addr) \<le> MAX_HOST_LEN"
    using assms by (auto simp: short_ascii_def MAX_HOST_LEN_def intro: rust_str_ascii)
qed

subsection \<open>What a session writes\<close>

lemma after_any_bytes:
  assumes "socket_ok rd wr content ended out"
    and "\<And>bs s'. out s' = out s \<Longrightarrow> Q (Inr bs) s'" and "\<And>e. Q (Inl e) s"
  shows "after (get_bytes rd n) Q s"
  using assms unfolding socket_ok_def after_def get_bytes_def
  by (cases "rd n s") (auto split: prod.splits)

lemma after_any_u8:
  assumes "socket_ok rd wr content ended out"
    and "\<And>b s'. out s' = out s \<Longrightarrow> Q (Inr b) s'" and "\<And>e. Q (Inl e) s"
  shows "after (get_u8 rd) Q s"
  using assms unfolding socket_ok_def after_def get_u8_def read_u8_def bind_r_def
  by (cases "rd 1 s") (auto split: prod.splits)

lemma after_any_u16:
  assumes "socket_ok rd wr content ended out"
    and "\<And>b s'. out s' = out s \<Longrightarrow> Q (Inr b) s'" and "\<And>e. Q (Inl e) s"
  shows "after (get_u16 rd) Q s"
  using assms unfolding socket_ok_def after_def get_u16_def read_u16_def bind_r_def
  by (cases "rd 2 s") (auto split: prod.splits)

lemma after_any_put:
  assumes "socket_ok rd wr content ended out"
    and "\<And>s'. out s' = out s @ bs \<Longrightarrow> Q (Inr ()) s'" and "\<And>e. Q (Inl e) s"
  shows "after (put_bytes wr bs) Q s"
  using assms unfolding socket_ok_def after_def put_bytes_def
  by (cases "wr bs s") auto

lemmas after_any = after_any_bytes after_any_u8 after_any_u16 after_any_put

lemma after_any_greeting:
  assumes ok: "socket_ok rd wr content ended out"
    and "\<And>s'. out s' = out s @ [0x05, 0x00] \<Longrightarrow> Q (Inr ()) s'"
    and "\<And>e s'. out s' = out s \<Longrightarrow> Q (Inl e) s'"
  shows "after (socks_greeting rd wr) Q s"
  unfolding socks_greeting_def
  by (auto intro!: after_bind after_any [OF ok] after_fail assms(2,3))

lemma after_any_host:
  assumes ok: "socket_ok rd wr content ended out"
    and "\<And>h s'. out s' = out s \<Longrightarrow> Q (Inr h) s'"
    and "\<And>e s'. out s' = out s \<or> out s' = out s @ socks_reply 8 \<Longrightarrow> Q (Inl e) s'"
  shows "after (socks_host rd wr atyp) Q s"
  unfolding socks_host_def
  by (auto intro!: after_bind after_any [OF ok] after_fail after_return assms(2,3) split: option.splits)

lemma after_any_request:
  assumes ok: "socket_ok rd wr content ended out"
    and "\<And>h p s'. out s' = out s \<Longrightarrow> Q (Inr (h, p)) s'"
    and "\<And>e s'. out s' \<in> {out s, out s @ socks_reply 7, out s @ socks_reply 8} \<Longrightarrow> Q (Inl e) s'"
  shows "after (socks_request rd wr) Q s"
  unfolding socks_request_def
  by (auto intro!: after_bind after_any [OF ok] after_any_host [OF ok] after_fail after_return assms(2,3))

text \<open>An in-memory socket: what the peer sends, how its stream ends, and what was written to it.\<close>

definition mem_read ::
    "nat \<Rightarrow> (u8 list \<times> io_error) \<times> u8 list \<Rightarrow> io_error + u8 list \<times> (u8 list \<times> io_error) \<times> u8 list" where
  "mem_read n s = bind_r (buffered_read n (fst s)) (\<lambda>(bs, i). Inr (bs, i, snd s))"

definition mem_write :: "u8 list \<Rightarrow> 'i \<times> u8 list \<Rightarrow> io_error + 'i \<times> u8 list" where
  "mem_write bs s = Inr (fst s, snd s @ bs)"

lemma mem_socket_ok: "socket_ok mem_read mem_write (fst \<circ> fst) (snd \<circ> fst) snd"
  by (auto simp: socket_ok_def exact_reader_def mem_read_def mem_write_def buffered_read_def split: if_splits)

lemma mem_writable: "writable mem_write"
  by (simp add: writable_def mem_write_def)

lemma socks_connects:
  assumes ok: "socket_ok rd wr content ended out" "writable wr"
    and tunnel: "\<forall>bs t t'. twr bs t = Inr t' \<longrightarrow> tout t' = tout t @ bs" "writable twr"
    and client: "length methods < 256" "addr_ok addr"
      "content s = socks_client methods rsv addr port @ rest"
    and connected: "connect (addr_host addr) port = Inr t"
  obtains s' t' enc where "handle_client rd wr connect twr s = (Inr (Relaying t'), s')"
    "content s' = rest" "out s' = out s @ [0x05, 0x00] @ socks_reply 0" "tout t' = tout t @ enc"
    "encode_destination (addr_host addr) port = Inr enc"
proof -
  obtain enc where enc: "encode_destination (addr_host addr) port = Inr enc"
    using addr_host_fits(2) [OF client(2)] by (auto simp: encode_destination_ok_iff)
  obtain t' where t': "twr enc t = Inr t'" "tout t' = tout t @ enc"
    using tunnel by (cases "twr enc t") (auto simp: writable_def isl_def)
  have header: "write_destination twr t (addr_host addr) port = Inr t'"
    by (simp add: write_destination_def enc t')
  have "after (handle_client rd wr connect twr) (\<lambda>r s'. r = Inr (Relaying t') \<and> content s' = rest \<and>
      out s' = out s @ [0x05, 0x00] @ socks_reply 0) s"
    unfolding handle_client_def
    apply (rule after_bind, rule after_greeting [OF ok client(1)], simp add: client(3) socks_client_def, simp)
    apply (rule after_bind, rule after_request [OF ok(1) client(2), where rest = rest], simp, simp add: connected)
    apply (rule after_bind, rule after_put_bytes [OF ok], simp add: header)
    apply (rule after_return, auto)
    done
  with t' enc show ?thesis
    using that by (auto simp: after_def split: prod.splits)
qed

text \<open>C14. A client that speaks the protocol gets what it asked for: if the engine connects, the
  client sees the method selection and the success reply and nothing else, the header on
  the tunnel decodes to exactly the requested host (an IP address in its textual form)
  and port, and everything the client sent after its request is still there to be copied.\<close>

theorem socks_connect_tunnels_request:
  assumes ok: "socket_ok rd wr content ended out" "writable wr"
    and tunnel: "\<forall>bs t t'. twr bs t = Inr t' \<longrightarrow> tout t' = tout t @ bs" "writable twr"
    and client: "length methods < 256" "addr_ok addr"
      "content s = socks_client methods rsv addr port @ rest"
    and connected: "connect (addr_host addr) port = Inr t"
  shows "\<exists>s' t' enc. handle_client rd wr connect twr s = (Inr (Relaying t'), s') \<and>
    content s' = rest \<and> out s' = out s @ [0x05, 0x00] @ socks_reply 0 \<and> tout t' = tout t @ enc \<and>
    decode_destination enc = Some (Inr (Some (addr_host addr, port, length enc)))"
proof -
  from socks_connects [where tout = tout and content = content and connect = connect and out = out
      and twr = twr and wr = wr and s = s, OF assms] obtain s' t' enc where r:
    "handle_client rd wr connect twr s = (Inr (Relaying t'), s')" "content s' = rest"
    "out s' = out s @ [0x05, 0x00] @ socks_reply 0" "tout t' = tout t @ enc"
    "encode_destination (addr_host addr) port = Inr enc" .
  moreover have "decode_destination enc = Some (Inr (Some (addr_host addr, port, length enc)))"
    using decode_encoded [OF addr_host_fits(1) [OF client(2)] r(5), of "[]"] by simp
  ultimately show ?thesis
    by blast
qed

theorem socks_connect_tunnels_request_witness:
  "\<exists>s' t' enc. handle_client mem_read mem_write (\<lambda>h p. Inr ((), [])) mem_write
      (([5, 1, 0, 5, 1, 0, 3, 1, 97, 0, 80, 7], io_error_new UnexpectedEof []), []) =
        (Inr (Relaying t'), s') \<and>
    fst (fst s') = [7] \<and> snd s' = [0x05, 0x00] @ socks_reply 0 \<and> snd t' = enc \<and>
    decode_destination enc = Some (Inr (Some (''a'', 80, length enc)))"
proof -
  have "rust_str ''a''"
    by code_simp
  then show ?thesis
    using socks_connect_tunnels_request [OF mem_socket_ok mem_writable _ mem_writable, of snd "[0]"
        "Domain ''a''" "(([5, 1, 0, 5, 1, 0, 3, 1, 97, 0, 80, 7], io_error_new UnexpectedEof []), [])"
        0 80 "[7]" "\<lambda>h p. Inr ((), [])" "((), [])"]
    by (simp add: mem_write_def socks_client_def as_bytes_def u16_to_be_bytes_def)
qed



end
