(* ===== verification/Relay_Agent.thy ===== *)
theory Relay_Agent
  imports Common_Framing Ieee_Float Transport_Native
begin

text \<open>
  The relay, \<^verbatim>\<open>services/relay-agent/src\<close>: roles and limits, the activity counter behind the
  idle timeout of a session, one relayed stream from its destination header to the copy,
  and the two listeners as state machines over what the runtime reports. The copy itself
  runs inside the runtime; a window of the idle timer is the list of polls it made on the two
  streams and how it ended, if it did. Not returning is the value \<^term>\<open>None\<close>.
\<close>

subsection \<open>Roles and limits\<close>

datatype Role = Combined | Egress | Ingress Endpoint

record RelayLimits =
  max_connections :: nat
  idle_timeout :: duration
  dial_timeout :: duration
  handshake_timeout :: duration

definition RelayLimits_default :: RelayLimits where
  "RelayLimits_default =
     \<lparr>max_connections = 256, idle_timeout = duration_from_secs 120,
      dial_timeout = duration_from_secs 8, handshake_timeout = duration_from_secs 10\<rparr>"

definition is_transient_accept_error :: "io_error \<Rightarrow> bool" where
  "is_transient_accept_error e \<longleftrightarrow>
     io_kind e \<in> {ConnectionAborted, ConnectionReset, Interrupted, WouldBlock} \<or>
     (case io_raw_os_error e of Some n \<Rightarrow> n = 24 \<or> n = 23 | None \<Rightarrow> False)"

subsection \<open>Activity and the idle timeout\<close>

datatype 'a poll = Pending | Ready 'a

text \<open>What the wrapped stream reports: a read with the buffer's fill level before and after
  it, or a write. Flush and shutdown are passed through.\<close>

datatype io_event =
    PollRead "(io_error + unit) poll" nat nat
  | PollWrite "(io_error + nat) poll"
  | PollFlush
  | PollShutdown

definition bump :: "u64 \<Rightarrow> u64" where
  "bump activity = activity + 1"

definition poll_read :: "(io_error + unit) poll \<Rightarrow> nat \<Rightarrow> nat \<Rightarrow> u64 \<Rightarrow> u64" where
  "poll_read poll before after activity =
     (case poll of Ready (Inr u) \<Rightarrow> if after > before then bump activity else activity | _ \<Rightarrow> activity)"

definition poll_write :: "(io_error + nat) poll \<Rightarrow> u64 \<Rightarrow> u64" where
  "poll_write poll activity =
     (case poll of Ready (Inr n) \<Rightarrow> if n > 0 then bump activity else activity | _ \<Rightarrow> activity)"

fun tracked :: "io_event \<Rightarrow> u64 \<Rightarrow> u64" where
  "tracked (PollRead p before after) a = poll_read p before after a"
| "tracked (PollWrite p) a = poll_write p a"
| "tracked PollFlush a = a"
| "tracked PollShutdown a = a"

text \<open>One round of the loop: the polls of the copy until the timer of this round fires or the
  copy ends, and its result if it ended.\<close>

record window =
  w_events :: "io_event list"
  w_result :: "(io_error + (u64 \<times> u64)) option"

partial_function (option) copy_loop :: "(nat \<Rightarrow> window) \<Rightarrow> nat \<Rightarrow> u64 \<Rightarrow> (io_error + unit) option" where
  "copy_loop ws n activity =
     (let before = activity; activity = fold tracked (w_events (ws n)) activity in
      case w_result (ws n) of
        Some (Inl e) \<Rightarrow> Some (Inl e)
      | Some (Inr _) \<Rightarrow> Some (Inr ())
      | None \<Rightarrow>
          if activity = before then Some (Inl (io_error_new TimedOut ''relay session idle timeout''))
          else copy_loop ws (n + 1) activity)"

definition copy_with_idle_timeout :: "(nat \<Rightarrow> window) \<Rightarrow> (io_error + unit) option" where
  "copy_with_idle_timeout ws = copy_loop ws 0 0"

subsection \<open>One relayed stream\<close>

datatype relay_error = RelayTimeout string | RelayIo io_error | NextHop TransportError

text \<open>
  The runtime's part: exact reads of the client's stream, whether the header's deadline
  passes first, dialling a host, the TCP connect and TLS handshake to the next hop, whole writes to it,
  and the windows of the two copies.
\<close>

record ('c, 'u, 'tcp, 'n) relay_env =
  re_read :: "nat \<Rightarrow> 'c \<Rightarrow> io_error + (u8 list \<times> 'c)"
  re_header_late :: "'c \<Rightarrow> bool"
  re_dial :: "string \<Rightarrow> u16 \<Rightarrow> (io_error + 'u) timed"
  re_hop_late :: "Endpoint \<Rightarrow> bool"
  re_tcp :: "SocketAddr \<Rightarrow> (io_error + 'tcp) timed"
  re_tls :: "PinnedCertVerifier \<Rightarrow> 'tcp \<Rightarrow> (io_error + 'n) timed"
  re_write :: "u8 list \<Rightarrow> 'n \<Rightarrow> io_error + 'n"
  re_copy_out :: "'c \<Rightarrow> 'u \<Rightarrow> nat \<Rightarrow> window"
  re_copy_hop :: "'c \<Rightarrow> 'n \<Rightarrow> nat \<Rightarrow> window"

text \<open>Where a stream was sent, and how it ended; \<^term>\<open>None\<close> as the result is a session that
  is never cut off.\<close>

datatype ('u, 'n) forwarded = NotForwarded | Dialled string u16 'u | Hopped 'n

definition handle_stream ::
    "('c, 'u, 'tcp, 'n) relay_env \<Rightarrow> 'c \<Rightarrow> Role \<Rightarrow> ('u, 'n) forwarded \<times> (relay_error + unit) option" where
  "handle_stream env client role =
     (if re_header_late env client
      then (NotForwarded, Some (Inl (RelayTimeout ''timed out reading destination header'')))
      else case read_destination (re_read env) client of
        Inl e \<Rightarrow> (NotForwarded, Some (Inl (RelayIo e)))
      | Inr ((host, port), client) \<Rightarrow>
          (case role of
             Ingress next_hop \<Rightarrow>
               if re_hop_late env next_hop
               then (NotForwarded, Some (Inl (RelayTimeout ''timed out dialing next hop'')))
               else (case connect_stream (re_tcp env) (re_tls env) next_hop of
                  Inl e \<Rightarrow> (NotForwarded, Some (Inl (NextHop e)))
                | Inr hop \<Rightarrow>
                    (case write_destination (re_write env) hop host port of
                       Inl e \<Rightarrow> (NotForwarded, Some (Inl (RelayIo e)))
                     | Inr hop \<Rightarrow>
                         (Hopped hop,
                          map_option (map_err RelayIo) (copy_with_idle_timeout (re_copy_hop env client hop)))))
           | _ \<Rightarrow>
               (case re_dial env host port of
                  Elapsed \<Rightarrow> (NotForwarded, Some (Inl (RelayTimeout ''timed out dialing destination'')))
                | Done (Inl e) \<Rightarrow> (NotForwarded, Some (Inl (RelayIo e)))
                | Done (Inr upstream) \<Rightarrow>
                    (Dialled host port upstream,
                     map_option (map_err RelayIo)
                       (copy_with_idle_timeout (re_copy_out env client upstream))))))"

subsection \<open>The TLS listener\<close>

text \<open>A spawned connection holds one permit; it is in its handshake until a deadline, or
  relaying.\<close>

datatype conn_phase = Handshaking instant | Streaming

record listener =
  permits :: nat
  conns :: "(nat \<times> conn_phase) list"
  next_conn :: nat
  stopped :: "io_error option"

definition serve_start :: "RelayLimits \<Rightarrow> listener" where
  "serve_start limits = \<lparr>permits = max_connections limits, conns = [], next_conn = 0, stopped = None\<rparr>"

definition drop_conns :: "(nat \<times> conn_phase \<Rightarrow> bool) \<Rightarrow> listener \<Rightarrow> listener" where
  "drop_conns gone l =
     l\<lparr>conns := filter (\<lambda>c. \<not> gone c) (conns l), permits := permits l + length (filter gone (conns l))\<rparr>"

text \<open>What happens: a connection is accepted or \<open>accept\<close> fails, a handshake ends, a session ends,
  and the timers due at an instant fire.\<close>

datatype tls_event =
    Accepted instant
  | AcceptFailed io_error
  | HandshakeDone nat bool
  | SessionOver nat
  | TimersFire instant

fun tls_step :: "RelayLimits \<Rightarrow> tls_event \<Rightarrow> listener \<Rightarrow> listener" where
  "tls_step limits (Accepted now) l =
     (if stopped l \<noteq> None then l
      else if permits l = 0 then l
      else l\<lparr>permits := permits l - 1,
             conns := (next_conn l, Handshaking (now + handshake_timeout limits)) # conns l,
             next_conn := next_conn l + 1\<rparr>)"
| "tls_step limits (AcceptFailed e) l =
     (if stopped l \<noteq> None then l
      else if is_transient_accept_error e then l
      else l\<lparr>stopped := Some e\<rparr>)"
| "tls_step limits (HandshakeDone i ok) l =
     (if ok then l\<lparr>conns := map (\<lambda>c. if fst c = i then (i, Streaming) else c) (conns l)\<rparr>
      else drop_conns (\<lambda>c. fst c = i \<and> snd c \<noteq> Streaming) l)"
| "tls_step limits (SessionOver i) l = drop_conns (\<lambda>c. c = (i, Streaming)) l"
| "tls_step limits (TimersFire now) l =
     drop_conns (\<lambda>c. case snd c of Handshaking d \<Rightarrow> d \<le> now | Streaming \<Rightarrow> False) l"

definition serve_tls_on :: "RelayLimits \<Rightarrow> tls_event list \<Rightarrow> listener" where
  "serve_tls_on limits evs = fold (tls_step limits) evs (serve_start limits)"

subsection \<open>The QUIC listener\<close>

text \<open>Each accepted connection holds a permit and has a number of streams being relayed; \<^term>\<open>None\<close>
  as its streams is a handshake still running.\<close>

record quic_listener =
  q_permits :: nat
  q_conns :: "(nat \<times> nat option) list"
  q_next :: nat
  q_orphans :: nat

datatype quic_event =
    Incoming
  | QuicHandshake nat bool
  | AcceptBi nat
  | StreamOver nat
  | ConnectionLost nat

definition quic_start :: "RelayLimits \<Rightarrow> quic_listener" where
  "quic_start limits = \<lparr>q_permits = max_connections limits, q_conns = [], q_next = 0, q_orphans = 0\<rparr>"

definition set_streams :: "nat \<Rightarrow> (nat \<Rightarrow> nat) \<Rightarrow> quic_listener \<Rightarrow> quic_listener" where
  "set_streams i f l =
     l\<lparr>q_conns := map (\<lambda>c. if fst c = i then (i, map_option f (snd c)) else c) (q_conns l)\<rparr>"

fun quic_step :: "quic_event \<Rightarrow> quic_listener \<Rightarrow> quic_listener" where
  "quic_step Incoming l =
     (if q_permits l = 0 then l
      else l\<lparr>q_permits := q_permits l - 1, q_conns := (q_next l, None) # q_conns l,
             q_next := q_next l + 1\<rparr>)"
| "quic_step (QuicHandshake i ok) l =
     (if ok then l\<lparr>q_conns := map (\<lambda>c. if c = (i, None) then (i, Some 0) else c) (q_conns l)\<rparr>
      else l\<lparr>q_conns := filter (\<lambda>c. c \<noteq> (i, None)) (q_conns l),
             q_permits := q_permits l + length (filter (\<lambda>c. c = (i, None)) (q_conns l))\<rparr>)"
| "quic_step (AcceptBi i) l = set_streams i (\<lambda>n. n + 1) l"
| "quic_step (StreamOver i) l =
     (if i \<in> fst ` set (q_conns l) then set_streams i (\<lambda>n. n - 1) l
      else l\<lparr>q_orphans := q_orphans l - 1\<rparr>)"
| "quic_step (ConnectionLost i) l =
     l\<lparr>q_conns := filter (\<lambda>c. fst c \<noteq> i) (q_conns l),
       q_permits := q_permits l + length (filter (\<lambda>c. fst c = i) (q_conns l)),
       q_orphans := q_orphans l +
         sum_list (map (\<lambda>c. case snd c of Some n \<Rightarrow> n | None \<Rightarrow> 0) (filter (\<lambda>c. fst c = i) (q_conns l)))\<rparr>"

definition serve_quic_on :: "RelayLimits \<Rightarrow> quic_event list \<Rightarrow> quic_listener" where
  "serve_quic_on limits evs = fold quic_step evs (quic_start limits)"

definition quic_sessions :: "quic_listener \<Rightarrow> nat" where
  "quic_sessions l = q_orphans l + sum_list (map (\<lambda>c. case snd c of Some n \<Rightarrow> n | None \<Rightarrow> 0) (q_conns l))"

subsection \<open>Start-up\<close>

datatype RoleArg = RoleCombined | RoleEgress | RoleIngress

text \<open>\<^term>\<open>None\<close> is the panic of copying a slice of the wrong length into the pin.\<close>

definition copy_from_slice :: "nat \<Rightarrow> u8 list \<Rightarrow> u8 list option" where
  "copy_from_slice n bs = (if length bs = n then Some bs else None)"

definition relay_role ::
    "(string \<Rightarrow> string + u8 list) \<Rightarrow> RoleArg \<Rightarrow> SocketAddr option \<Rightarrow> string option \<Rightarrow> (string + Role) option" where
  "relay_role hex_decode arg next_hop_addr next_hop_cert_sha256 =
     (case arg of
        RoleCombined \<Rightarrow> Some (Inr Combined)
      | RoleEgress \<Rightarrow> Some (Inr Egress)
      | RoleIngress \<Rightarrow>
          (case next_hop_addr of
             None \<Rightarrow> Some (Inl ''--next-hop-addr required for --role ingress'')
           | Some addr \<Rightarrow>
               (case next_hop_cert_sha256 of
                  None \<Rightarrow> Some (Inl ''--next-hop-cert-sha256 required for --role ingress'')
                | Some hash_hex \<Rightarrow>
                    (case hex_decode hash_hex of
                       Inl e \<Rightarrow> Some (Inl e)
                     | Inr hash_bytes \<Rightarrow>
                         (case copy_from_slice 32 hash_bytes of
                            None \<Rightarrow> None
                          | Some pinned \<Rightarrow>
                              Some (Inr (Ingress \<lparr>ep_id = EndpointId ''egress'', ep_address = addr,
                                ep_provider_tag = ''dev'', ep_pinned_cert_sha256 = pinned\<rparr>)))))))"

definition relay_identity ::
    "(u8 list \<Rightarrow> u8 list) \<Rightarrow> (path \<Rightarrow> string) \<Rightarrow> (u32 \<Rightarrow> string) \<Rightarrow> u8 list \<times> u8 list \<Rightarrow> path option
      \<Rightarrow> RelayIdentity io" where
  "relay_identity sha dbg oct generated identity_dir =
     (case identity_dir of
        Some dir \<Rightarrow> load_or_generate sha dbg oct generated dir
      | None \<Rightarrow> return_io (RelayIdentity_generate sha generated))"

subsection \<open>The idle timeout\<close>

fun moves :: "io_event \<Rightarrow> bool" where
  "moves (PollRead p before after) \<longleftrightarrow> p = Ready (Inr ()) \<and> after > before"
| "moves (PollWrite p) \<longleftrightarrow> (\<exists>n>0. p = Ready (Inr n))"
| "moves _ \<longleftrightarrow> False"

lemma poll_read_moves:
  "poll_read p before after a = (if p = Ready (Inr ()) \<and> after > before then a + 1 else a)"
  by (cases p; cases "case p of Ready r \<Rightarrow> r | Pending \<Rightarrow> Inr ()") (simp_all add: poll_read_def bump_def)

lemma poll_write_moves:
  "poll_write p a = (if \<exists>n>0. p = Ready (Inr n) then a + 1 else a)"
  by (cases p; cases "case p of Ready r \<Rightarrow> r | Pending \<Rightarrow> Inr 0") (simp_all add: poll_write_def bump_def)

lemma tracked_moves: "tracked e a = (if moves e then a + 1 else a)"
  by (cases e) (simp_all add: poll_read_moves poll_write_moves)

lemma fold_tracked: "fold tracked evs a = a + of_nat (length (filter moves evs))"
  by (induction evs arbitrary: a) (simp_all add: tracked_moves)

lemma activity_unchanged_iff:
  assumes "length evs < 2 ^ 64"
  shows "fold tracked evs a = a \<longleftrightarrow> (\<forall>e\<in>set evs. \<not> moves e)"
proof -
  have "length (filter moves evs) < 2 ^ 64"
    using assms length_filter_le [of moves evs] by (rule le_less_trans [rotated])
  then have "(of_nat (length (filter moves evs)) :: u64) = 0 \<longleftrightarrow> length (filter moves evs) = 0"
    unfolding word_of_nat_eq_0_iff by (cases "length (filter moves evs) = 0") (simp_all add: nat_dvd_not_less)
  then show ?thesis
    by (simp add: fold_tracked filter_empty_conv)
qed

definition window_busy :: "window \<Rightarrow> bool" where
  "window_busy w \<longleftrightarrow> w_result w = None \<and> (\<exists>e\<in>set (w_events w). moves e)"

definition window_ends :: "window \<Rightarrow> io_error + unit \<Rightarrow> bool" where
  "window_ends w r \<longleftrightarrow>
     (case w_result w of
        Some (Inl e) \<Rightarrow> r = Inl e
      | Some (Inr _) \<Rightarrow> r = Inr ()
      | None \<Rightarrow> (\<forall>e\<in>set (w_events w). \<not> moves e) \<and>
          r = Inl (io_error_new TimedOut ''relay session idle timeout''))"

lemma copy_loop_step:
  assumes "length (w_events (ws n)) < 2 ^ 64"
  shows "window_ends (ws n) r \<Longrightarrow> copy_loop ws n a = Some r"
    and "window_busy (ws n) \<Longrightarrow>
      copy_loop ws n a = copy_loop ws (n + 1) (fold tracked (w_events (ws n)) a)"
  using activity_unchanged_iff [OF assms, of a]
  by (auto simp: copy_loop.simps [of ws n a] window_ends_def window_busy_def Let_def
      split: option.splits sum.splits)

lemma copy_loop_returns:
  assumes "\<forall>n. length (w_events (ws n)) < 2 ^ 64"
  shows "(\<forall>i<k. window_busy (ws (n + i))) \<Longrightarrow> window_ends (ws (n + k)) r \<Longrightarrow> copy_loop ws n a = Some r"
proof (induction k arbitrary: n a)
  case 0
  then show ?case
    using copy_loop_step(1) assms by simp
next
  case (Suc k)
  have "copy_loop ws (n + 1) (fold tracked (w_events (ws n)) a) = Some r"
  proof (rule Suc.IH)
    show "\<forall>i<k. window_busy (ws (n + 1 + i))"
      using Suc.prems(1) by (auto simp: add.assoc dest: spec [of _ "Suc _"])
  qed (use Suc.prems(2) in \<open>simp add: add.assoc\<close>)
  moreover have "window_busy (ws n)"
    using Suc.prems(1) by (auto dest: spec [of _ 0])
  ultimately show ?case
    using copy_loop_step(2) assms by simp
qed

lemma copy_loop_reason:
  assumes "\<forall>n. length (w_events (ws n)) < 2 ^ 64" and "copy_loop ws n a = Some r"
  shows "\<exists>k. (\<forall>i<k. window_busy (ws (n + i))) \<and> window_ends (ws (n + k)) r"
  using assms(2,1)
proof (induction ws n a r rule: copy_loop.raw_induct [rotated, consumes 1])
  case (1 loop ws n a r)
  show ?case
  proof (cases "window_busy (ws n)")
    case True
    then have "loop ws (n + 1) (fold tracked (w_events (ws n)) a) = Some r"
      using 1(2,3) activity_unchanged_iff [of "w_events (ws n)" a]
      by (auto simp: window_busy_def Let_def split: if_splits)
    from 1(1) [OF this 1(3)] obtain k where
      k: "\<forall>i<k. window_busy (ws (n + 1 + i))" "window_ends (ws (n + 1 + k)) r"
      by blast
    have "\<forall>i<Suc k. window_busy (ws (n + i))"
      using True k(1) by (auto simp: less_Suc_eq_0_disj)
    with k(2) show ?thesis
      by (intro exI [of _ "Suc k"]) simp
  next
    case False
    then have "window_ends (ws n) r"
      using 1(2,3) activity_unchanged_iff [of "w_events (ws n)" a]
      by (auto simp: window_busy_def window_ends_def Let_def split: option.splits sum.splits if_splits)
    then show ?thesis
      by (intro exI [of _ 0]) simp
  qed
qed

subsection \<open>The listeners\<close>

lemma drop_conns_slots:
  "permits (drop_conns g l) + length (conns (drop_conns g l)) = permits l + length (conns l)"
  using sum_length_filter_compl [of g "conns l"] by (simp add: drop_conns_def)

lemma drop_conns_simps [simp]:
  "set (conns (drop_conns g l)) = {c \<in> set (conns l). \<not> g c}"
  "stopped (drop_conns g l) = stopped l" "next_conn (drop_conns g l) = next_conn l"
  by (auto simp: drop_conns_def)

definition listener_ok :: "RelayLimits \<Rightarrow> tls_event list \<Rightarrow> listener \<Rightarrow> bool" where
  "listener_ok limits evs l \<longleftrightarrow>
     permits l + length (conns l) = max_connections limits \<and>
     (\<forall>i d. (i, Handshaking d) \<in> set (conns l) \<longrightarrow>
        (\<exists>now. Accepted now \<in> set evs \<and> d = now + handshake_timeout limits)) \<and>
     (\<forall>e. stopped l = Some e \<longrightarrow> AcceptFailed e \<in> set evs \<and> \<not> is_transient_accept_error e)"

lemma listener_ok_start: "listener_ok limits [] (serve_start limits)"
  by (simp add: listener_ok_def serve_start_def)

lemma listener_ok_step:
  assumes "listener_ok limits evs l"
  shows "listener_ok limits (evs @ [e]) (tls_step limits e l)"
proof -
  have "permits (tls_step limits e l) + length (conns (tls_step limits e l)) = max_connections limits"
    using assms by (cases e) (auto simp: listener_ok_def drop_conns_slots)
  moreover have "\<exists>now. Accepted now \<in> set (evs @ [e]) \<and> d = now + handshake_timeout limits"
    if "(i, Handshaking d) \<in> set (conns (tls_step limits e l))" for i d
    using assms that by (cases e) (fastforce simp: listener_ok_def split: if_splits)+
  moreover have "AcceptFailed f \<in> set (evs @ [e]) \<and> \<not> is_transient_accept_error f"
    if "stopped (tls_step limits e l) = Some f" for f
    using assms that by (cases e) (auto simp: listener_ok_def split: if_splits)
  ultimately show ?thesis
    unfolding listener_ok_def by blast
qed

lemma listener_ok_run: "listener_ok limits evs (serve_tls_on limits evs)"
  by (induction evs rule: rev_induct)
    (simp_all add: serve_tls_on_def listener_ok_start listener_ok_step)

lemma serve_quic_snoc: "serve_quic_on limits (evs @ [e]) = quic_step e (serve_quic_on limits evs)"
  by (simp add: serve_quic_on_def)

lemma quic_conns_bounded: "q_permits (serve_quic_on limits evs) + length (q_conns (serve_quic_on limits evs)) = max_connections limits"
proof (induction evs rule: rev_induct)
  case Nil
  then show ?case
    by (simp add: serve_quic_on_def quic_start_def)
next
  case (snoc e evs)
  let ?l = "serve_quic_on limits evs"
  show ?case
    using snoc.IH
    by (cases e) (auto simp: serve_quic_snoc set_streams_def sum_length_filter_compl add.assoc)
qed

text \<open>The permits bound connections, not the sessions relayed on them: one connection can have any
  number of streams.\<close>

lemma quic_streams_unbounded:
  assumes "max_connections limits \<noteq> 0"
  shows "\<exists>evs. length (q_conns (serve_quic_on limits evs)) = 1 \<and> quic_sessions (serve_quic_on limits evs) = n"
proof -
  have start: "serve_quic_on limits [Incoming, QuicHandshake 0 True] =
      \<lparr>q_permits = max_connections limits - 1, q_conns = [(0, Some 0)], q_next = 1, q_orphans = 0\<rparr>"
    using assms by (simp add: serve_quic_on_def quic_start_def)
  have "serve_quic_on limits ([Incoming, QuicHandshake 0 True] @ replicate n (AcceptBi 0)) =
      \<lparr>q_permits = max_connections limits - 1, q_conns = [(0, Some n)], q_next = 1, q_orphans = 0\<rparr>"
  proof (induction n)
    case (Suc n)
    then show ?case
      unfolding replicate_Suc replicate_append_same [symmetric] append_assoc [symmetric] serve_quic_snoc
      by (simp add: set_streams_def)
  qed (use start in simp)
  then show ?thesis
    by (intro exI [of _ "[Incoming, QuicHandshake 0 True] @ replicate n (AcceptBi 0)"])
      (simp add: quic_sessions_def)
qed

subsection \<open>A stream through the relay\<close>

lemma read_destination_encoded:
  assumes rd: "exact_reader rd content ended" and host: "rust_str host"
    and enc: "encode_destination host port = Inr enc" and c: "content r = enc @ rest"
  obtains r' where "read_destination rd r = Inr ((host, port), r')" and "content r' = rest"
proof -
  have dec: "decode_destination (content r) = Some (Inr (Some (host, port, length enc)))"
    unfolding c using decode_encoded [OF host enc] by simp
  have "3 \<le> length (content r)" "content r ! 0 = VERSION"
    using enc c by (auto simp: encode_destination_ok_iff)
  from read_destination_long [OF rd this, unfolded dec] show ?thesis
    using that by (auto simp: c)
qed

lemma egress_dials:
  assumes "exact_reader (re_read env) content ended" and "rust_str host"
    and "encode_destination host port = Inr enc" and "content c = enc @ rest"
    and "\<not> re_header_late env c" and "role \<in> {Combined, Egress}" and "re_dial env host port = Done (Inr u)"
  shows "fst (handle_stream env c role) = Dialled host port u"
proof -
  from read_destination_encoded [OF assms(1-4)] obtain c' where
    "read_destination (re_read env) c = Inr ((host, port), c')" "content c' = rest" .
  with assms show ?thesis
    by (auto simp: handle_stream_def)
qed

lemma ingress_forwards:
  assumes "exact_reader (re_read env) content ended" and "rust_str host"
    and "encode_destination host port = Inr enc" and "content c = enc @ rest"
    and "\<not> re_header_late env c" and "\<not> re_hop_late env ep"
    and "connect_stream (re_tcp env) (re_tls env) ep = Inr hop" and "re_write env enc hop = Inr hop'"
  shows "fst (handle_stream env c (Ingress ep)) = Hopped hop'"
proof -
  from read_destination_encoded [OF assms(1-4)] obtain c' where
    "read_destination (re_read env) c = Inr ((host, port), c')" "content c' = rest" .
  with assms show ?thesis
    by (simp add: handle_stream_def write_destination_def)
qed

text \<open>C24. A relayed session ends exactly when its copy ends or a whole idle window passes in which no
  byte moved in either direction, and then with that outcome; while bytes move in every
  window it is never cut off, however long it lasts.\<close>

theorem idle_session_ends:
  assumes "\<forall>n. length (w_events (ws n)) < 2 ^ 64"
  shows "copy_with_idle_timeout ws = Some r \<longleftrightarrow>
    (\<exists>n. (\<forall>i<n. window_busy (ws i)) \<and> window_ends (ws n) r)"
  using copy_loop_returns [OF assms, of _ 0 r 0] copy_loop_reason [OF assms, of 0 0 r]
  by (auto simp: copy_with_idle_timeout_def)

theorem idle_session_ends_witness:
  "copy_with_idle_timeout (\<lambda>n. \<lparr>w_events = (if n = 0 then [PollRead (Ready (Inr ())) 0 5] else [PollFlush]),
     w_result = None\<rparr>) = Some (Inl (io_error_new TimedOut ''relay session idle timeout''))"
  by (subst idle_session_ends) (auto intro!: exI [of _ 1] simp: window_busy_def window_ends_def)

text \<open>C25. The TLS listener hands out exactly its configured number of slots: each is free or held by
  one connection, and once the timers due at an instant have fired, a slot is held only
  by a relayed session or by a handshake that began less than the handshake timeout ago.
  Peers that connect and stay silent therefore cannot keep a slot, and only an error that
  is not transient stops the listener.\<close>

theorem relay_slots_released:
  "let l = serve_tls_on limits (evs @ [TimersFire now]) in
     permits l + length (conns l) = max_connections limits \<and>
     (\<forall>(i, phase)\<in>set (conns l). phase = Streaming \<or>
        (\<exists>t. Accepted t \<in> set evs \<and> phase = Handshaking (t + handshake_timeout limits) \<and>
             now < t + handshake_timeout limits)) \<and>
     (\<forall>e. stopped l = Some e \<longrightarrow> AcceptFailed e \<in> set evs \<and> \<not> is_transient_accept_error e)"
proof -
  let ?l = "serve_tls_on limits (evs @ [TimersFire now])"
  note ok = listener_ok_run [of limits "evs @ [TimersFire now]", unfolded listener_ok_def]
  have "phase = Streaming \<or> (\<exists>t. Accepted t \<in> set evs \<and> phase = Handshaking (t + handshake_timeout limits) \<and>
             now < t + handshake_timeout limits)"
    if "(i, phase) \<in> set (conns ?l)" for i phase
  proof (cases phase)
    case (Handshaking d)
    then have "now < d"
      using that by (simp add: serve_tls_on_def)
    with ok that Handshaking show ?thesis
      by fastforce
  qed simp
  then show ?thesis
    using ok by auto
qed

theorem relay_slots_released_witness:
  "permits (serve_tls_on (RelayLimits_default\<lparr>max_connections := 2\<rparr>)
      [Accepted 0, Accepted 5, Accepted 6, TimersFire (duration_from_secs 11)]) = 2"
proof -
  let ?l = "serve_tls_on (RelayLimits_default\<lparr>max_connections := 2\<rparr>)
      ([Accepted 0, Accepted 5, Accepted 6] @ [TimersFire (duration_from_secs 11)])"
  have "conns ?l = []"
    by (simp add: serve_tls_on_def serve_start_def RelayLimits_default_def drop_conns_def duration_from_secs_def)
  then show ?thesis
    using relay_slots_released [of "RelayLimits_default\<lparr>max_connections := 2\<rparr>"
        "[Accepted 0, Accepted 5, Accepted 6]" "duration_from_secs 11"]
    by (simp add: Let_def)
qed

end
