(* ===== verification/Compat_Model.thy ===== *)
theory Compat_Model
  imports Crypto_Hierarchy Network_State
begin

unbundle bit_operations_syntax

text \<open>
  The data of the compatibility domain, \<^verbatim>\<open>crates/compat-config/src\<close>: \<^verbatim>\<open>secret.rs\<close>, \<^verbatim>\<open>model.rs\<close>,
  the error type of \<^verbatim>\<open>lib.rs\<close>, and \<^verbatim>\<open>credentials.rs\<close>. SHA-256, hex, base64 and the curve
  are parameters, and so are the random bytes a generator draws. Times are signed
  64-bit seconds, here integers.
\<close>

type_synonym i64 = int

subsection \<open>Secrets\<close>

datatype SecretString = SecretString (expose: string)

fun SecretString_debug :: "SecretString \<Rightarrow> string" where
  "SecretString_debug (SecretString s) = ''SecretString(REDACTED)''"

subsection \<open>Model\<close>

datatype CompatTransport = VlessReality | Hysteria2

fun CompatTransport_as_str :: "CompatTransport \<Rightarrow> string" where
  "CompatTransport_as_str VlessReality = ''vless-reality''"
| "CompatTransport_as_str Hysteria2 = ''hysteria2''"

datatype PublicParameters =
    RealityParams (pp_public_key_hex: string) (pp_short_id: string) (pp_fingerprint: string)
  | Hysteria2Params (pp_obfs_password: "string option")

record CompatEndpoint =
  ce_id :: string
  ce_transport :: CompatTransport
  ce_host :: string
  ce_port :: u16
  ce_server_name :: "string option"
  ce_label :: string
  ce_public_parameters :: PublicParameters

record CompatUser =
  cu_id :: string
  cu_name :: string
  cu_enabled :: bool
  cu_vless_uuid :: string
  cu_hysteria2_password :: SecretString
  cu_subscription_token_hash_hex :: string
  cu_created_at :: i64
  cu_expires_at :: "i64 option"

definition is_active :: "CompatUser \<Rightarrow> i64 \<Rightarrow> bool" where
  "is_active u now_unix \<longleftrightarrow>
     cu_enabled u \<and> (case cu_expires_at u of Some exp \<Rightarrow> now_unix < exp | None \<Rightarrow> True)"

record RealityServerParams =
  rs_private_key_hex :: SecretString
  rs_public_key_hex :: string
  rs_short_ids :: "string list"
  rs_handshake_server :: string
  rs_handshake_port :: u16

record Hysteria2ServerParams =
  hs_tls_cert_path :: string
  hs_tls_key_path :: string
  hs_obfs_password :: "SecretString option"
  hs_masquerade_dir_path :: "string option"
  hs_up_mbps :: "u32 option"
  hs_down_mbps :: "u32 option"

datatype CompatError =
    CompatIo string
  | CompatParse string
  | ConfigValidationFailed string
  | WrongTransportForEndpoint
  | UserNotFound
  | UnsupportedSchema (us_what: string) (us_found: u32) (us_max_supported: u32)

text \<open>The dash of one message is the character U+2014, three bytes in UTF-8.\<close>

definition em_dash :: string where
  "em_dash = bytes_of_nats [226, 128, 148]"

fun CompatError_display :: "CompatError \<Rightarrow> string" where
  "CompatError_display (CompatIo m) = ''io error: '' @ m"
| "CompatError_display (CompatParse m) = ''parse error: '' @ m"
| "CompatError_display (ConfigValidationFailed m) = ''config validation failed: '' @ m"
| "CompatError_display WrongTransportForEndpoint =
     ''endpoint's public_parameters do not match the requested transport''"
| "CompatError_display UserNotFound = ''user not found''"
| "CompatError_display (UnsupportedSchema what found max_supported) =
     what @ '' schema version '' @ show_nat (unat found) @
     '' is newer than this vpn-admin supports (max '' @ show_nat (unat max_supported) @ '') '' @
     em_dash @ '' refusing to load it: an older binary cannot safely assume it still understands '' @
     ''every field. Upgrade vpn-admin, or restore a compatible backup.''"

subsection \<open>Credentials\<close>

text \<open>URL-safe base64 without padding.\<close>

record base64 =
  b64_encode :: "u8 list \<Rightarrow> string"
  b64_decode :: "string \<Rightarrow> string + u8 list"

definition base64_ok :: "base64 \<Rightarrow> bool" where
  "base64_ok b \<longleftrightarrow>
     (\<forall>bs. b64_decode b (b64_encode b bs) = Inr bs \<and> trim (b64_encode b bs) = b64_encode b bs \<and>
           (bs \<noteq> [] \<longrightarrow> b64_encode b bs \<noteq> []))"

definition uuid_bits :: "u8 list \<Rightarrow> u8 list" where
  "uuid_bits bytes =
     bytes[6 := (bytes ! 6 AND 0x0f) OR 0x40, 8 := (bytes ! 8 AND 0x3f) OR 0x80]"

definition generate_uuid_v4 :: "u8 list \<Rightarrow> string" where
  "generate_uuid_v4 random =
     (let hex = (\<lambda>i n. concat (map fmt_02x (take n (drop i (uuid_bits random)))))
      in hex 0 4 @ ''-'' @ hex 4 2 @ ''-'' @ hex 6 2 @ ''-'' @ hex 8 2 @ ''-'' @ hex 10 6)"

definition generate_user_id :: "u8 list \<Rightarrow> string" where
  "generate_user_id random = ''user_'' @ generate_uuid_v4 random"

definition generate_hysteria2_password :: "hex_codec \<Rightarrow> u8 list \<Rightarrow> string" where
  "generate_hysteria2_password hx random24 = hex_encode hx random24"

definition generate_hysteria2_obfs_password :: "hex_codec \<Rightarrow> u8 list \<Rightarrow> string" where
  "generate_hysteria2_obfs_password hx random24 = hex_encode hx random24"

definition generate_short_id :: "hex_codec \<Rightarrow> u8 list \<Rightarrow> string" where
  "generate_short_id hx random4 = hex_encode hx random4"

definition generate_subscription_token :: "base64 \<Rightarrow> u8 list \<Rightarrow> string" where
  "generate_subscription_token b random20 = b64_encode b random20"

definition hash_token :: "(u8 list \<Rightarrow> u8 list) \<Rightarrow> hex_codec \<Rightarrow> string \<Rightarrow> string" where
  "hash_token sha hx token = hex_encode hx (sha (as_bytes token))"

definition verify_token :: "(u8 list \<Rightarrow> u8 list) \<Rightarrow> hex_codec \<Rightarrow> string \<Rightarrow> string \<Rightarrow> bool" where
  "verify_token sha hx token stored_hash_hex =
     (let computed_bytes = as_bytes (hash_token sha hx token);
          stored_bytes = as_bytes stored_hash_hex
      in if length computed_bytes \<noteq> length stored_bytes then False
         else computed_bytes = stored_bytes)"

definition derive_reality_public_key :: "base64 \<Rightarrow> (u8 list \<Rightarrow> u8 list) \<Rightarrow> string \<Rightarrow> string + string" where
  "derive_reality_public_key b mul_base_clamped private_key =
     bind_r (map_err (\<lambda>e. ''REALITY private key is not valid base64url without padding: '' @ e)
              (b64_decode b (trim private_key))) (\<lambda>decoded.
     if length decoded \<noteq> 32
     then Inl (''REALITY private key decodes to '' @ show_nat (length decoded) @
               '' bytes; X25519 requires exactly 32'')
     else Inr (b64_encode b (mul_base_clamped decoded)))"

definition validate_reality_public_key_shape :: "base64 \<Rightarrow> string \<Rightarrow> string + unit" where
  "validate_reality_public_key_shape b pub_key =
     (if trim pub_key = [] then Inl ''REALITY public key is empty''
      else bind_r (map_err (\<lambda>e. ''REALITY public key is not valid base64url without padding: '' @ e)
              (b64_decode b (trim pub_key))) (\<lambda>decoded.
        if length decoded \<noteq> 32
        then Inl (''REALITY public key decodes to '' @ show_nat (length decoded) @
                  '' bytes; X25519 requires exactly 32'')
        else Inr ()))"

definition is_ascii_hexdigit :: "char \<Rightarrow> bool" where
  "is_ascii_hexdigit c \<longleftrightarrow>
     (let n = (of_char c :: nat) in 48 \<le> n \<and> n \<le> 57 \<or> 65 \<le> n \<and> n \<le> 70 \<or> 97 \<le> n \<and> n \<le> 102)"

definition validate_reality_short_id :: "(string \<Rightarrow> string) \<Rightarrow> string \<Rightarrow> string + unit" where
  "validate_reality_short_id dbg short_id =
     (let trimmed = trim short_id in
      if trimmed = [] then Inl ''REALITY short_id is empty''
      else if length trimmed > 8
      then Inl (''REALITY short_id is '' @ show_nat (length trimmed) @
                '' hex digits; sing-box allows at most 8'')
      else if \<not> list_all is_ascii_hexdigit trimmed
      then Inl (''REALITY short_id '' @ dbg trimmed @ '' is not valid hex'')
      else Inr ())"

definition validate_reality_keypair ::
    "base64 \<Rightarrow> (u8 list \<Rightarrow> u8 list) \<Rightarrow> string \<Rightarrow> string \<Rightarrow> string + unit" where
  "validate_reality_keypair b mul_base_clamped private_key pub_key =
     bind_r (validate_reality_public_key_shape b pub_key) (\<lambda>_.
     bind_r (derive_reality_public_key b mul_base_clamped private_key) (\<lambda>derived.
     if as_bytes derived = as_bytes (trim pub_key) then Inr ()
     else Inl ''REALITY public key does not correspond to private.key''))"

subsection \<open>Lemmas\<close>

lemma as_bytes_inject [simp]: "as_bytes s = as_bytes t \<longleftrightarrow> s = t"
  by (metis string_of_as_bytes)

lemma verify_token_iff: "verify_token sha hx token stored \<longleftrightarrow> hash_token sha hx token = stored"
  by (auto simp: verify_token_def Let_def)

text \<open>The shape of a version 4 UUID: 36 characters, hyphens at the four places, the version
  nibble and the variant bits.\<close>

lemma length_uuid: "length random = 16 \<Longrightarrow> length (generate_uuid_v4 random) = 36"
  by (simp add: generate_uuid_v4_def uuid_bits_def fmt_02x_def length_concat sum_list_triv o_def)

lemma derived_key_valid:
  assumes "base64_ok b" and "\<forall>k. length (mul k) = 32" and "derive_reality_public_key b mul sk = Inr pk"
  shows "validate_reality_keypair b mul sk pk = Inr ()"
proof -
  from assms(3) obtain d where d: "b64_decode b (trim sk) = Inr d" "length d = 32" "pk = b64_encode b (mul d)"
    by (auto simp: derive_reality_public_key_def result_simps split: if_splits)
  moreover have "mul d \<noteq> []"
    using assms(2) by (metis length_0_conv zero_neq_numeral)
  ultimately show ?thesis
    using assms unfolding base64_ok_def
    by (simp add: validate_reality_keypair_def validate_reality_public_key_shape_def)
qed

lemma valid_keypair_derived:
  assumes "validate_reality_keypair b mul sk pk = Inr ()"
  shows "derive_reality_public_key b mul sk = Inr (trim pk)"
  using assms by (auto simp: validate_reality_keypair_def result_simps split: if_splits)

end
