(* ===== verification/Compat_Render.thy ===== *)
theory Compat_Render
  imports Compat_Model "HOL-Library.AList"
begin

text \<open>
  Client-facing rendering, \<^verbatim>\<open>crates/compat-config/src/render.rs\<close>: share links, the sing-box
  client subscription, the standard endpoints and their fingerprint. A JSON document is a
  value of \<open>Value\<close>; turning it into text is the serialiser's.
\<close>

subsection \<open>JSON documents\<close>

datatype Value =
    Null
  | VBool bool
  | VNumber int
  | VString string
  | VArray "Value list"
  | VObject "(string \<times> Value) list"

text \<open>\<^verbatim>\<open>doc[key] = v\<close> on an object, and reading a key.\<close>

fun obj_set :: "Value \<Rightarrow> string \<Rightarrow> Value \<Rightarrow> Value" where
  "obj_set (VObject fs) k v = VObject (AList.update k v fs)"
| "obj_set d k v = d"

fun obj_get :: "Value \<Rightarrow> string \<Rightarrow> Value option" where
  "obj_get (VObject fs) k = map_of fs k"
| "obj_get _ k = None"

definition json_u16 :: "u16 \<Rightarrow> Value" where
  "json_u16 n = VNumber (uint n)"

definition json_u32 :: "u32 \<Rightarrow> Value" where
  "json_u32 n = VNumber (uint n)"

subsection \<open>Share links\<close>

definition unreserved :: "char \<Rightarrow> bool" where
  "unreserved c \<longleftrightarrow>
     (let n = (of_char c :: nat) in
      65 \<le> n \<and> n \<le> 90 \<or> 97 \<le> n \<and> n \<le> 122 \<or> 48 \<le> n \<and> n \<le> 57 \<or> n = 45 \<or> n = 46 \<or> n = 95 \<or> n = 126)"

primrec percent_encode_label :: "string \<Rightarrow> string" where
  "percent_encode_label [] = []"
| "percent_encode_label (b # bs) =
     (if unreserved b then [b] else ''%'' @ fmt_02X (of_char b)) @ percent_encode_label bs"

definition sni_of :: "CompatEndpoint \<Rightarrow> string" where
  "sni_of ep = (case ce_server_name ep of Some n \<Rightarrow> n | None \<Rightarrow> ce_host ep)"

definition render_vless_reality_uri :: "CompatUser \<Rightarrow> CompatEndpoint \<Rightarrow> CompatError + string" where
  "render_vless_reality_uri user ep =
     (case ce_public_parameters ep of
        RealityParams public_key_hex short_id fingerprint \<Rightarrow>
          Inr (''vless://'' @ cu_vless_uuid user @ ''@'' @ ce_host ep @ '':'' @ show_nat (unat (ce_port ep)) @
            ''?encryption=none&security=reality&sni='' @ sni_of ep @ ''&fp='' @ fingerprint @
            ''&pbk='' @ public_key_hex @ ''&sid='' @ short_id @
            ''&type=tcp&flow=xtls-rprx-vision#'' @ percent_encode_label (ce_label ep))
      | Hysteria2Params _ \<Rightarrow> Inl WrongTransportForEndpoint)"

definition render_hysteria2_uri :: "CompatUser \<Rightarrow> CompatEndpoint \<Rightarrow> CompatError + string" where
  "render_hysteria2_uri user ep =
     (case ce_public_parameters ep of
        Hysteria2Params obfs_password \<Rightarrow>
          Inr (''hysteria2://'' @ expose (cu_hysteria2_password user) @ ''@'' @ ce_host ep @ '':'' @
            show_nat (unat (ce_port ep)) @ ''?sni='' @ sni_of ep @ ''&insecure=0'' @
            (case obfs_password of
               Some pw \<Rightarrow> ''&obfs=salamander&obfs-password='' @ pw
             | None \<Rightarrow> []) @
            ''#'' @ percent_encode_label (ce_label ep))
      | RealityParams _ _ _ \<Rightarrow> Inl WrongTransportForEndpoint)"

definition render_uri :: "CompatUser \<Rightarrow> CompatEndpoint \<Rightarrow> CompatError + string" where
  "render_uri user ep =
     (case ce_transport ep of
        VlessReality \<Rightarrow> render_vless_reality_uri user ep
      | Hysteria2 \<Rightarrow> render_hysteria2_uri user ep)"

fun render_uri_lines :: "CompatUser \<Rightarrow> CompatEndpoint list \<Rightarrow> string list \<Rightarrow> CompatError + string list" where
  "render_uri_lines user [] acc = Inr acc"
| "render_uri_lines user (ep # eps) acc =
     bind_r (render_uri user ep) (\<lambda>uri. render_uri_lines user eps (acc @ [uri]))"

definition render_uri_list :: "CompatUser \<Rightarrow> CompatEndpoint list \<Rightarrow> CompatError + string" where
  "render_uri_list user endpoints =
     bind_r (render_uri_lines user endpoints []) (\<lambda>ls. Inr (join_with [CHR 0x0A] ls))"

subsection \<open>The client subscription\<close>

datatype SelectionProfile = Reliability | Performance | Auto

definition SelectionProfile_default :: SelectionProfile where
  "SelectionProfile_default = Reliability"

definition SelectionProfile_parse :: "string \<Rightarrow> SelectionProfile option" where
  "SelectionProfile_parse s =
     (if s = ''reliability'' then Some Reliability
      else if s = ''performance'' then Some Performance
      else if s = ''auto'' then Some Auto
      else None)"

definition render_outbound :: "CompatUser \<Rightarrow> CompatEndpoint \<Rightarrow> Value" where
  "render_outbound user ep =
     (case ce_public_parameters ep of
        RealityParams public_key_hex short_id fingerprint \<Rightarrow>
          VObject
            [(''type'', VString ''vless''), (''tag'', VString (ce_label ep)),
             (''server'', VString (ce_host ep)), (''server_port'', json_u16 (ce_port ep)),
             (''uuid'', VString (cu_vless_uuid user)), (''flow'', VString ''xtls-rprx-vision''),
             (''packet_encoding'', VString ''xudp''),
             (''tls'', VObject
                [(''enabled'', VBool True), (''server_name'', VString (sni_of ep)),
                 (''utls'', VObject [(''enabled'', VBool True), (''fingerprint'', VString fingerprint)]),
                 (''reality'', VObject
                    [(''enabled'', VBool True), (''public_key'', VString public_key_hex),
                     (''short_id'', VString short_id)])])]
      | Hysteria2Params obfs_password \<Rightarrow>
          (let ob = VObject
             [(''type'', VString ''hysteria2''), (''tag'', VString (ce_label ep)),
              (''server'', VString (ce_host ep)), (''server_port'', json_u16 (ce_port ep)),
              (''password'', VString (expose (cu_hysteria2_password user))),
              (''tls'', VObject
                 [(''enabled'', VBool True), (''server_name'', VString (sni_of ep)),
                  (''insecure'', VBool False)])]
           in case obfs_password of
                Some pw \<Rightarrow>
                  obj_set ob ''obfs'' (VObject [(''type'', VString ''salamander''), (''password'', VString pw)])
              | None \<Rightarrow> ob))"

text \<open>What the loop over the endpoints has collected.\<close>

record collected =
  co_outbounds :: "Value list"
  co_tags :: "string list"
  co_reality_tag :: "string option"
  co_hysteria2_tag :: "string option"

definition collect_endpoint :: "CompatUser \<Rightarrow> CompatEndpoint \<Rightarrow> collected \<Rightarrow> collected" where
  "collect_endpoint user ep c =
     \<lparr>co_outbounds = co_outbounds c @ [render_outbound user ep],
      co_tags = co_tags c @ [ce_label ep],
      co_reality_tag =
        (if ce_transport ep = VlessReality \<and> co_reality_tag c = None then Some (ce_label ep)
         else co_reality_tag c),
      co_hysteria2_tag =
        (if ce_transport ep = Hysteria2 \<and> co_hysteria2_tag c = None then Some (ce_label ep)
         else co_hysteria2_tag c)\<rparr>"

definition or_else :: "'a option \<Rightarrow> 'a option \<Rightarrow> 'a option" where
  "or_else a b = (case a of Some x \<Rightarrow> Some x | None \<Rightarrow> b)"

definition first_tag :: "string list \<Rightarrow> string option" where
  "first_tag tags = (case tags of [] \<Rightarrow> None | t # _ \<Rightarrow> Some t)"

definition unwrap_or :: "'a option \<Rightarrow> 'a \<Rightarrow> 'a" where
  "unwrap_or a d = (case a of Some x \<Rightarrow> x | None \<Rightarrow> d)"

definition default_tag :: "SelectionProfile \<Rightarrow> collected \<Rightarrow> string" where
  "default_tag profile c =
     (case profile of
        Reliability \<Rightarrow> unwrap_or (or_else (co_reality_tag c) (first_tag (co_tags c))) ''auto''
      | Performance \<Rightarrow>
          unwrap_or (or_else (or_else (co_hysteria2_tag c) (co_reality_tag c)) (first_tag (co_tags c))) ''auto''
      | Auto \<Rightarrow> ''auto'')"

definition urltest_outbound :: "string list \<Rightarrow> Value" where
  "urltest_outbound tags = VObject
     [(''type'', VString ''urltest''), (''tag'', VString ''auto''),
      (''outbounds'', VArray (map VString tags)),
      (''url'', VString ''https://www.gstatic.com/generate_204''),
      (''interval'', VString ''1m'')]"

definition selector_outbound :: "string list \<Rightarrow> string \<Rightarrow> Value" where
  "selector_outbound options default_option = VObject
     [(''type'', VString ''selector''), (''tag'', VString ''select''),
      (''outbounds'', VArray (map VString options)), (''default'', VString default_option)]"

definition direct_outbound :: Value where
  "direct_outbound = VObject [(''type'', VString ''direct''), (''tag'', VString ''direct'')]"

definition render_singbox_client_subscription_with_profile ::
    "CompatUser \<Rightarrow> CompatEndpoint list \<Rightarrow> SelectionProfile \<Rightarrow> CompatError + Value" where
  "render_singbox_client_subscription_with_profile user endpoints profile =
     (let c = fold (collect_endpoint user) endpoints
                \<lparr>co_outbounds = [], co_tags = [], co_reality_tag = None, co_hysteria2_tag = None\<rparr>;
          outbounds = co_outbounds c @
            [urltest_outbound (co_tags c),
             selector_outbound (co_tags c @ [''auto'']) (default_tag profile c), direct_outbound]
      in Inr (VObject
           [(''outbounds'', VArray outbounds),
            (''route'', VObject [(''final'', VString ''select'')])]))"

definition render_singbox_client_subscription ::
    "CompatUser \<Rightarrow> CompatEndpoint list \<Rightarrow> CompatError + Value" where
  "render_singbox_client_subscription user endpoints =
     render_singbox_client_subscription_with_profile user endpoints SelectionProfile_default"

subsection \<open>The standard endpoints\<close>

definition standard_endpoints ::
    "string \<Rightarrow> u16 \<Rightarrow> u16 \<Rightarrow> string \<Rightarrow> string \<Rightarrow> string \<Rightarrow> string option \<Rightarrow> CompatEndpoint list" where
  "standard_endpoints public_host reality_port hysteria_port reality_public_key_hex reality_short_id
      handshake_server hysteria_obfs_password =
     [\<lparr>ce_id = ''reality-1'', ce_transport = VlessReality, ce_host = public_host, ce_port = reality_port,
       ce_server_name = Some handshake_server, ce_label = ''Reality'',
       ce_public_parameters = RealityParams reality_public_key_hex reality_short_id ''chrome''\<rparr>,
      \<lparr>ce_id = ''hysteria2-1'', ce_transport = Hysteria2, ce_host = public_host, ce_port = hysteria_port,
       ce_server_name = Some public_host, ce_label = ''Hysteria2'',
       ce_public_parameters = Hysteria2Params hysteria_obfs_password\<rparr>]"

definition endpoints_fingerprint ::
    "(u8 list \<Rightarrow> u8 list) \<Rightarrow> hex_codec \<Rightarrow> (CompatEndpoint list \<Rightarrow> string + string) \<Rightarrow> CompatEndpoint list \<Rightarrow> string"
  where
  "endpoints_fingerprint sha hx to_string endpoints =
     (let json = (case to_string endpoints of Inr s \<Rightarrow> s | Inl _ \<Rightarrow> [])
      in hash_token sha hx json)"

subsection \<open>Labels in links\<close>

definition nibble_value :: "char \<Rightarrow> nat" where
  "nibble_value c = (let n = (of_char c :: nat) in if n < 58 then n - 48 else n - 55)"

fun percent_decode :: "string \<Rightarrow> string" where
  "percent_decode (c # h # l # r) =
     (if c = CHR ''%'' then char_of (16 * nibble_value h + nibble_value l) # percent_decode r
      else c # percent_decode (h # l # r))"
| "percent_decode s = s"

lemma percent_decode_plain: "c \<noteq> CHR ''%'' \<Longrightarrow> percent_decode (c # r) = c # percent_decode r"
  by (cases r; cases "tl r") simp_all

lemma nibble_value_upper: "n < 16 \<Longrightarrow> nibble_value (hex_nibble_upper n) = n"
  by (simp add: nibble_value_def hex_nibble_upper_def Let_def)

lemma unreserved_not_percent: "unreserved c \<Longrightarrow> c \<noteq> CHR ''%''"
  by (auto simp: unreserved_def Let_def)

lemma unreserved_hex_upper: "n < 16 \<Longrightarrow> unreserved (hex_nibble_upper n)"
  by (simp add: unreserved_def hex_nibble_upper_def Let_def)

lemma unat_nibbles: "unat b div 16 < 16" "unat b mod 16 < 16" for b :: u8
  using unsigned_less [of b, where ?'a = nat] by simp_all

lemma percent_decode_escaped:
  "percent_decode (''%'' @ fmt_02X (of_char b) @ r) = b # percent_decode r"
proof -
  have "(of_char b :: nat) div 16 < 16" "(of_char b :: nat) mod 16 < 16"
    using unat_nibbles [of "of_char b"] by (simp_all add: unat_of_char)
  then show ?thesis
    by (simp add: fmt_02X_def nibble_value_upper unat_of_char)
qed

lemma percent_round_trip: "percent_decode (percent_encode_label s) = s"
proof (induction s)
  case (Cons b s)
  then show ?case
    using percent_decode_escaped [of b "percent_encode_label s"]
    by (simp add: percent_decode_plain unreserved_not_percent)
qed simp

lemma percent_alphabet: "list_all (\<lambda>c. unreserved c \<or> c = CHR ''%'') (percent_encode_label s)"
  by (induction s) (simp_all add: fmt_02X_def unreserved_hex_upper unat_nibbles)

subsection \<open>Links fail only for mismatched endpoints\<close>

definition params_match :: "CompatEndpoint \<Rightarrow> bool" where
  "params_match ep \<longleftrightarrow>
     (case ce_public_parameters ep of
        RealityParams _ _ _ \<Rightarrow> ce_transport ep = VlessReality
      | Hysteria2Params _ \<Rightarrow> ce_transport ep = Hysteria2)"

lemma render_uri_result:
  "if params_match ep then \<exists>uri. render_uri user ep = Inr uri
   else render_uri user ep = Inl WrongTransportForEndpoint"
  by (cases "ce_transport ep"; cases "ce_public_parameters ep")
    (simp_all add: params_match_def render_uri_def render_vless_reality_uri_def render_hysteria2_uri_def)

lemma render_uri_lines_result:
  "if \<forall>ep\<in>set eps. params_match ep then \<exists>ls. render_uri_lines user eps acc = Inr ls
   else render_uri_lines user eps acc = Inl WrongTransportForEndpoint"
proof (induction eps arbitrary: acc)
  case (Cons ep eps)
  show ?case
  proof (cases "params_match ep")
    case True
    then obtain uri where uri: "render_uri user ep = Inr uri"
      using render_uri_result [of ep user] by auto
    then show ?thesis
      using Cons.IH [of "acc @ [uri]"] True by simp
  next
    case False
    then show ?thesis
      using render_uri_result [of ep user] by simp
  qed
qed simp

lemma render_uri_list_result:
  "if \<forall>ep\<in>set eps. params_match ep then \<exists>body. render_uri_list user eps = Inr body
   else render_uri_list user eps = Inl WrongTransportForEndpoint"
  using render_uri_lines_result [of eps user "[]"] by (auto simp: render_uri_list_def split: if_splits)

lemma standard_endpoints_match: "ep \<in> set (standard_endpoints h r y pk sid hs obfs) \<Longrightarrow> params_match ep"
  by (auto simp: standard_endpoints_def params_match_def)

subsection \<open>The loop over the endpoints\<close>

lemma or_else_simps [simp]: "or_else None b = b" "or_else (Some x) b = Some x"
  by (simp_all add: or_else_def)

lemma unwrap_or_simps [simp]: "unwrap_or None d = d" "unwrap_or (Some x) d = x"
  by (simp_all add: unwrap_or_def)

definition first_label :: "CompatTransport \<Rightarrow> CompatEndpoint list \<Rightarrow> string option" where
  "first_label t eps = map_option ce_label (find (\<lambda>e. ce_transport e = t) eps)"

lemma collect_fold:
  "fold (collect_endpoint user) eps c =
     \<lparr>co_outbounds = co_outbounds c @ map (render_outbound user) eps,
      co_tags = co_tags c @ map ce_label eps,
      co_reality_tag = or_else (co_reality_tag c) (first_label VlessReality eps),
      co_hysteria2_tag = or_else (co_hysteria2_tag c) (first_label Hysteria2 eps)\<rparr>"
proof (induction eps arbitrary: c)
  case Nil
  then show ?case
    by (cases c) (simp add: first_label_def or_else_def split: option.split)
next
  case (Cons ep eps)
  then show ?case
    by (cases "co_reality_tag c"; cases "co_hysteria2_tag c")
      (auto simp: collect_endpoint_def first_label_def)
qed

lemma first_label_in: "first_label t eps = Some l \<Longrightarrow> l \<in> set (map ce_label eps)"
  by (auto simp: first_label_def find_Some_iff)

lemma default_tag_listed:
  "default_tag profile \<lparr>co_outbounds = obs, co_tags = map ce_label eps,
      co_reality_tag = first_label VlessReality eps, co_hysteria2_tag = first_label Hysteria2 eps\<rparr>
     \<in> set (map ce_label eps @ [''auto''])"
  using first_label_in [of _ eps]
  by (cases profile; cases "first_label VlessReality eps"; cases "first_label Hysteria2 eps"; cases eps)
    (auto simp: default_tag_def first_tag_def)

text \<open>Reading a document: its outbounds, their tags, and the tags they mention.\<close>

definition doc_outbounds :: "Value \<Rightarrow> Value list" where
  "doc_outbounds doc = (case obj_get doc ''outbounds'' of Some (VArray obs) \<Rightarrow> obs | _ \<Rightarrow> [])"

definition tag_of :: "Value \<Rightarrow> Value option" where
  "tag_of ob = obj_get ob ''tag''"

definition mentioned :: "Value \<Rightarrow> Value list" where
  "mentioned ob =
     (case obj_get ob ''outbounds'' of Some (VArray vs) \<Rightarrow> vs | _ \<Rightarrow> []) @
     (case obj_get ob ''default'' of Some v \<Rightarrow> [v] | None \<Rightarrow> [])"

lemma render_outbound_tag: "tag_of (render_outbound user ep) = Some (VString (ce_label ep))"
  by (simp add: tag_of_def render_outbound_def Let_def split: PublicParameters.split option.split)

lemma render_outbound_mentions: "mentioned (render_outbound user ep) = []"
  by (simp add: mentioned_def render_outbound_def Let_def split: PublicParameters.split option.split)

definition collected_from :: "CompatUser \<Rightarrow> CompatEndpoint list \<Rightarrow> collected" where
  "collected_from user eps =
     \<lparr>co_outbounds = map (render_outbound user) eps, co_tags = map ce_label eps,
      co_reality_tag = first_label VlessReality eps, co_hysteria2_tag = first_label Hysteria2 eps\<rparr>"

lemma client_subscription_doc:
  assumes "render_singbox_client_subscription_with_profile user eps profile = Inr doc"
  shows "doc_outbounds doc = map (render_outbound user) eps @
      [urltest_outbound (map ce_label eps),
       selector_outbound (map ce_label eps @ [''auto'']) (default_tag profile (collected_from user eps)),
       direct_outbound]"
    and "obj_get doc ''route'' = Some (VObject [(''final'', VString ''select'')])"
  using assms
  by (auto simp: render_singbox_client_subscription_with_profile_def collect_fold Let_def doc_outbounds_def
      collected_from_def)

lemma group_outbounds:
  "tag_of (urltest_outbound tags) = Some (VString ''auto'')"
  "tag_of (selector_outbound options d) = Some (VString ''select'')"
  "mentioned (urltest_outbound tags) = map VString tags"
  "mentioned (selector_outbound options d) = map VString (options @ [d])"
  "mentioned direct_outbound = []"
  "obj_get (selector_outbound options d) ''type'' = Some (VString ''selector'')"
  "obj_get (selector_outbound options d) ''default'' = Some (VString d)"
  by (simp_all add: tag_of_def mentioned_def urltest_outbound_def selector_outbound_def direct_outbound_def)

lemma mentioned_tags:
  assumes "render_singbox_client_subscription_with_profile user eps profile = Inr doc"
    and "ob \<in> set (doc_outbounds doc)" and "v \<in> set (mentioned ob)"
  shows "\<exists>t \<in> set (map ce_label eps @ [''auto'']). v = VString t"
  using assms(2,3) default_tag_listed [of profile "map (render_outbound user) eps" eps]
  unfolding client_subscription_doc(1) [OF assms(1)]
  by (auto simp: group_outbounds render_outbound_mentions collected_from_def)

lemma tag_resolves:
  assumes "render_singbox_client_subscription_with_profile user eps profile = Inr doc"
    and "t \<in> set (map ce_label eps @ [''auto''])"
  shows "\<exists>target\<in>set (doc_outbounds doc). tag_of target = Some (VString t)"
  using assms(2) unfolding client_subscription_doc(1) [OF assms(1)]
  by (auto simp: group_outbounds render_outbound_tag)

text \<open>A label in a share link is written with unreserved characters and percent escapes only, so
  it cannot end or extend the link, and decoding the escapes gives the label back.\<close>

theorem share_link_label_round_trip:
  "percent_decode (percent_encode_label label) = label \<and>
   list_all (\<lambda>c. unreserved c \<or> c = CHR ''%'') (percent_encode_label label)"
  using percent_round_trip percent_alphabet by blast


definition demo_user :: CompatUser where
  "demo_user =
     \<lparr>cu_id = ''user_1'', cu_name = ''ann'', cu_enabled = True, cu_vless_uuid = ''u-1'',
      cu_hysteria2_password = SecretString ''pw'', cu_subscription_token_hash_hex = ''h'',
      cu_created_at = 0, cu_expires_at = Some 1000\<rparr>"

definition demo_endpoints :: "CompatEndpoint list" where
  "demo_endpoints = standard_endpoints ''vpn.example'' 443 8443 ''pk'' ''0a1b'' ''www.example'' (Some ''ob'')"


end
