(* ===== verification/Compat_Store.thy ===== *)
theory Compat_Store
  imports Compat_Model File_System
begin

text \<open>
  Persistence of the compatibility state, \<^verbatim>\<open>crates/compat-config/src\<close>: \<^verbatim>\<open>ownership.rs\<close>,
  \<^verbatim>\<open>migrate.rs\<close> and \<^verbatim>\<open>store.rs\<close>, over the file-system world. The JSON serialiser is a
  parameter. The lemmas show that a save is all or nothing under every pattern of I/O
  faults, and that a migration keeps the users.
\<close>

subsection \<open>Ownership\<close>

definition compat_io :: "(world \<Rightarrow> (io_error + 'a) \<times> world) \<Rightarrow> world \<Rightarrow> (CompatError + 'a) \<times> world" where
  "compat_io m = map_err_io (\<lambda>e. CompatIo (io_detail e)) m"

definition preserve_ownership_before_rename ::
    "(path \<Rightarrow> string) \<Rightarrow> path \<Rightarrow> path \<Rightarrow> world \<Rightarrow> (CompatError + unit) \<times> world" where
  "preserve_ownership_before_rename dbg tmp_path target_path =
     try_io (metadata target_path) (\<lambda>meta.
       let apply_owner = (\<lambda>uid gid. map_err_io
             (\<lambda>e. CompatIo (''failed to preserve ownership on '' @ dbg tmp_path @ '': '' @ io_detail e))
             (chown tmp_path uid gid))
       in case meta of
            Inr m \<Rightarrow> apply_owner (i_uid m) (i_gid m)
          | Inl _ \<Rightarrow>
              (case path_parent target_path of
                 Some parent \<Rightarrow>
                   bind_io (compat_io (metadata tmp_path)) (\<lambda>t.
                   bind_io (compat_io (metadata parent)) (\<lambda>d.
                   apply_owner (i_uid t) (i_gid d)))
               | None \<Rightarrow> return_io ()))"

subsection \<open>Backup and atomic replacement\<close>

definition write_file_mode :: "path \<Rightarrow> u8 list \<Rightarrow> u32 \<Rightarrow> world \<Rightarrow> (CompatError + unit) \<times> world" where
  "write_file_mode p bytes mode =
     bind_io (compat_io (open_truncate p mode)) (\<lambda>_.
     bind_io (compat_io (write_all p bytes)) (\<lambda>_.
     compat_io (sync_all p)))"

definition get_world :: "('w \<Rightarrow> 'a) \<Rightarrow> 'w \<Rightarrow> ('e + 'a) \<times> 'w" where
  "get_world f w = (Inr (f w), w)"

definition backup_before_mutate :: "path \<Rightarrow> world \<Rightarrow> (CompatError + path) \<times> world" where
  "backup_before_mutate p =
     bind_io (get_world w_unix_time) (\<lambda>ts.
     let backup_path = path_set_file_name p
           (file_name_or ''state'' p @ ''.pre-migration-'' @ show_nat (unat ts) @ ''.bak'')
     in bind_io (compat_io (fs_read p)) (\<lambda>bytes.
        bind_io (write_file_mode backup_path bytes mode_0600) (\<lambda>_.
        return_io backup_path)))"

text \<open>Opening a directory and syncing it; failures are ignored.\<close>

definition fsync_parent_dir :: "path \<Rightarrow> world \<Rightarrow> ('e + unit) \<times> world" where
  "fsync_parent_dir p =
     (case path_parent p of
        Some parent \<Rightarrow> ignore_io (bind_io (metadata parent) (\<lambda>_. sync_all parent))
      | None \<Rightarrow> return_io ())"

definition tmp_path_for :: "string \<Rightarrow> path \<Rightarrow> nat \<Rightarrow> path" where
  "tmp_path_for d p pid = path_set_file_name p (file_name_or d p @ ''.tmp.'' @ show_nat pid)"

definition create_parent :: "path \<Rightarrow> world \<Rightarrow> (CompatError + unit) \<times> world" where
  "create_parent p =
     (case path_parent p of
        Some parent \<Rightarrow> compat_io (create_dir_all parent)
      | None \<Rightarrow> return_io ())"

definition atomic_write ::
    "(path \<Rightarrow> string) \<Rightarrow> path \<Rightarrow> u8 list \<Rightarrow> u32 \<Rightarrow> world \<Rightarrow> (CompatError + unit) \<times> world" where
  "atomic_write dbg p bytes mode =
     bind_io (create_parent p) (\<lambda>_.
     bind_io (get_world w_pid) (\<lambda>pid.
     let tmp = tmp_path_for ''state'' p pid
     in bind_io (write_file_mode tmp bytes mode) (\<lambda>_.
        bind_io (preserve_ownership_before_rename dbg tmp p) (\<lambda>_.
        bind_io (compat_io (fs_rename tmp p)) (\<lambda>_.
        fsync_parent_dir p)))))"

subsection \<open>The user store\<close>

definition USERS_SCHEMA_VERSION :: u32 where
  "USERS_SCHEMA_VERSION = 1"

record UsersFile =
  uf_schema_version :: u32
  uf_users :: "CompatUser list"

datatype UsersSchemaState = UsersMissing | UsersLegacy | UsersCurrent | UsersFuture u32 | UsersCorrupted string

record users_json =
  uj_to_vec_pretty :: "UsersFile \<Rightarrow> string + u8 list"
  uj_file :: "u8 list \<Rightarrow> string + UsersFile"
  uj_legacy :: "u8 list \<Rightarrow> string + CompatUser list"

definition users_json_ok :: "users_json \<Rightarrow> bool" where
  "users_json_ok J \<longleftrightarrow> (\<forall>f bs. uj_to_vec_pretty J f = Inr bs \<longrightarrow> uj_file J bs = Inr f)"

definition users_schema_of :: "users_json \<Rightarrow> u8 list \<Rightarrow> UsersSchemaState" where
  "users_schema_of J bytes =
     (case uj_file J bytes of
        Inr versioned \<Rightarrow>
          if uf_schema_version versioned > USERS_SCHEMA_VERSION
          then UsersFuture (uf_schema_version versioned) else UsersCurrent
      | Inl _ \<Rightarrow>
          (case uj_legacy J bytes of
             Inr _ \<Rightarrow> UsersLegacy
           | Inl _ \<Rightarrow> UsersCorrupted
               ''neither the current versioned format nor the legacy bare-array format parses''))"

definition detect_users_schema :: "users_json \<Rightarrow> path \<Rightarrow> world \<Rightarrow> ('e + UsersSchemaState) \<times> world" where
  "detect_users_schema J p =
     bind_io (path_exists p) (\<lambda>present.
     if \<not> present then return_io UsersMissing
     else try_io (fs_read p) (\<lambda>r. return_io
       (case r of Inl e \<Rightarrow> UsersCorrupted (io_detail e) | Inr bytes \<Rightarrow> users_schema_of J bytes)))"

definition parse_users_bytes :: "users_json \<Rightarrow> u8 list \<Rightarrow> CompatError + CompatUser list" where
  "parse_users_bytes J bytes =
     (case uj_file J bytes of
        Inr versioned \<Rightarrow>
          if uf_schema_version versioned > USERS_SCHEMA_VERSION
          then Inl (UnsupportedSchema ''users.json'' (uf_schema_version versioned) USERS_SCHEMA_VERSION)
          else Inr (uf_users versioned)
      | Inl _ \<Rightarrow> map_err CompatParse (uj_legacy J bytes))"

definition load_users :: "users_json \<Rightarrow> path \<Rightarrow> world \<Rightarrow> (CompatError + CompatUser list) \<times> world" where
  "load_users J p =
     bind_io (path_exists p) (\<lambda>present.
     if \<not> present then return_io []
     else bind_io (compat_io (fs_read p)) (\<lambda>bytes. lift_r (parse_users_bytes J bytes)))"

definition save_users_atomic ::
    "users_json \<Rightarrow> (path \<Rightarrow> string) \<Rightarrow> path \<Rightarrow> CompatUser list \<Rightarrow> world \<Rightarrow> (CompatError + unit) \<times> world" where
  "save_users_atomic J dbg p users =
     bind_io (case path_parent p of
                Some parent \<Rightarrow>
                  bind_io (compat_io (create_dir_all parent)) (\<lambda>_.
                  compat_io (set_permissions parent mode_0750))
              | None \<Rightarrow> return_io ()) (\<lambda>_.
     let envelope = \<lparr>uf_schema_version = USERS_SCHEMA_VERSION, uf_users = users\<rparr>
     in bind_io (lift_r (map_err CompatParse (uj_to_vec_pretty J envelope))) (\<lambda>json.
        bind_io (get_world w_pid) (\<lambda>pid.
        let tmp_path = tmp_path_for ''store'' p pid
        in bind_io (write_file_mode tmp_path json mode_0640) (\<lambda>_.
           bind_io (preserve_ownership_before_rename dbg tmp_path p) (\<lambda>_.
           bind_io (compat_io (fs_rename tmp_path p)) (\<lambda>_.
           fsync_parent_dir p))))))"

datatype UsersMigrationOutcome = MigrationMissing | MigrationAlreadyCurrent | UsersMigrated path

text \<open>What happens to a file in the legacy format, and the whole migration.\<close>

definition migrate_legacy_users ::
    "users_json \<Rightarrow> (path \<Rightarrow> string) \<Rightarrow> path \<Rightarrow> world \<Rightarrow> (CompatError + UsersMigrationOutcome) \<times> world" where
  "migrate_legacy_users J dbg p =
     bind_io (compat_io (fs_read p)) (\<lambda>bytes.
     bind_io (lift_r (map_err CompatParse (uj_legacy J bytes))) (\<lambda>legacy.
     let envelope = \<lparr>uf_schema_version = USERS_SCHEMA_VERSION, uf_users = legacy\<rparr>
     in bind_io (lift_r (map_err CompatParse (uj_to_vec_pretty J envelope))) (\<lambda>json.
        bind_io (lift_r (map_err CompatParse (uj_file J json))) (\<lambda>reparsed.
        if uf_schema_version reparsed \<noteq> USERS_SCHEMA_VERSION \<or>
           length (uf_users reparsed) \<noteq> length legacy
        then fail_io (CompatParse (''migrated users.json failed to reparse to the expected shape '' @
               em_dash @ '' this is a bug, not applying''))
        else bind_io (backup_before_mutate p) (\<lambda>backup_path.
          bind_io (atomic_write dbg p json mode_0640) (\<lambda>_.
          return_io (UsersMigrated backup_path)))))))"

definition migrate_users ::
    "users_json \<Rightarrow> (path \<Rightarrow> string) \<Rightarrow> path \<Rightarrow> world \<Rightarrow> (CompatError + UsersMigrationOutcome) \<times> world" where
  "migrate_users J dbg p =
     bind_io (detect_users_schema J p) (\<lambda>state.
     case state of
       UsersMissing \<Rightarrow> return_io MigrationMissing
     | UsersCurrent \<Rightarrow> return_io MigrationAlreadyCurrent
     | UsersFuture found \<Rightarrow> fail_io (UnsupportedSchema ''users.json'' found USERS_SCHEMA_VERSION)
     | UsersCorrupted msg \<Rightarrow>
         fail_io (CompatParse (''cannot migrate '' @ dbg p @ '': '' @ msg @ ''; no changes made''))
     | UsersLegacy \<Rightarrow> migrate_legacy_users J dbg p)"

subsection \<open>Invariants of operations\<close>

definition keeps :: "((path \<Rightarrow> inode option) \<Rightarrow> bool) \<Rightarrow> (world \<Rightarrow> ('e + 'a) \<times> world) \<Rightarrow> bool" where
  "keeps P m \<longleftrightarrow> (\<forall>w. P (w_fs w) \<longrightarrow> P (w_fs (snd (m w))))"

named_theorems keeps_intros \<open>invariants kept by the operations\<close>

lemma keepsD: "keeps P m \<Longrightarrow> m w = (r, w') \<Longrightarrow> P (w_fs w) \<Longrightarrow> P (w_fs w')"
  unfolding keeps_def by (metis snd_conv)

lemma keeps_frame: "frame {} m \<Longrightarrow> keeps P m"
  unfolding keeps_def frame_def by (metis empty_iff ext)

lemma keeps_bind [keeps_intros]: "keeps P m \<Longrightarrow> (\<And>x. keeps P (f x)) \<Longrightarrow> keeps P (bind_io m f)"
  unfolding keeps_def bind_io_def by (auto split: prod.splits sum.splits)

lemma keeps_try [keeps_intros]: "keeps P m \<Longrightarrow> (\<And>r. keeps P (f r)) \<Longrightarrow> keeps P (try_io m f)"
  unfolding keeps_def try_io_def by (auto split: prod.splits)

lemma keeps_map_err [keeps_intros]: "keeps P m \<Longrightarrow> keeps P (map_err_io h m)"
  unfolding keeps_def map_err_io_def by (auto split: prod.splits)

lemma keeps_compat [keeps_intros]: "keeps P m \<Longrightarrow> keeps P (compat_io m)"
  unfolding compat_io_def by (rule keeps_map_err)

lemma keeps_pure [keeps_intros]:
  "keeps P (return_io x)" "keeps P (fail_io e)" "keeps P (lift_r r)" "keeps P (get_world f)"
  "keeps P (metadata p)" "keeps P (sync_all p)" "keeps P (fs_read p)" "keeps P (path_exists p)"
  by (simp_all add: keeps_frame frame_intros)
    (simp_all add: keeps_def get_world_def)

lemma frame_compat [frame_intros]: "frame S m \<Longrightarrow> frame S (compat_io m)"
  unfolding compat_io_def by (rule frame_map_err)

lemma frame_get_world [frame_intros]: "frame S (get_world f)"
  by (simp add: frame_def get_world_def)

lemma compat_io_eq_Inr [io_simps]: "compat_io m w = (Inr y, w') \<longleftrightarrow> m w = (Inr y, w')"
  by (simp add: compat_io_def io_simps)

lemma get_world_eq [io_simps]: "get_world f w = (Inr y, w') \<longleftrightarrow> y = f w \<and> w' = w"
  by (auto simp: get_world_def)

lemma bind_ioE:
  assumes "bind_io m f w = (r, w')"
  obtains (fail) e where "m w = (Inl e, w')" "r = Inl e"
  | (ok) x w1 where "m w = (Inr x, w1)" "f x w1 = (r, w')"
  using assms by (cases "m w"; cases "fst (m w)") (auto simp: bind_io_def)

lemma lift_r_eq: "lift_r x w = (r, w') \<longleftrightarrow> r = x \<and> w' = w"
  by (auto simp: lift_r_def)

lemma get_world_result: "get_world f w = (r, w') \<longleftrightarrow> r = Inr (f w) \<and> w' = w"
  by (auto simp: get_world_def)

subsection \<open>Replacing a file\<close>

definition holds_data :: "u8 list \<Rightarrow> u32 option \<Rightarrow> inode option \<Rightarrow> bool" where
  "holds_data bs mode n \<longleftrightarrow>
     (case n of Some n \<Rightarrow> \<not> i_dir n \<and> i_content n = bs \<and> (case mode of Some m \<Rightarrow> i_mode n = m | None \<Rightarrow> True)
      | None \<Rightarrow> False)"

lemma chown_keeps_data [keeps_intros]: "keeps (\<lambda>fs. holds_data bs mode (fs p)) (chown q u g)"
  by (auto simp: keeps_def chown_def prim_def holds_data_def
      split: list.split fault.split option.splits)

lemma preserve_keeps_data:
  "keeps (\<lambda>fs. holds_data bs mode (fs tmp)) (preserve_ownership_before_rename dbg tmp p)"
  unfolding preserve_ownership_before_rename_def Let_def
  by (auto intro!: keeps_intros split: sum.split option.split)

lemma frame_preserve [frame_intros]: "tmp \<in> S \<Longrightarrow> frame S (preserve_ownership_before_rename dbg tmp p)"
  unfolding preserve_ownership_before_rename_def Let_def
  by (auto intro!: frame_intros split: sum.split option.split)

lemma frame_write_file_mode [frame_intros]: "p \<in> S \<Longrightarrow> frame S (write_file_mode p bs mode)"
  unfolding write_file_mode_def by (auto intro!: frame_intros)

lemma frame_fsync_parent [frame_intros]: "frame S (fsync_parent_dir p)"
  unfolding fsync_parent_dir_def by (auto intro!: frame_intros split: option.split)

lemma frame_create_parent [frame_intros]:
  "set (prefixes (butlast p)) \<subseteq> S \<Longrightarrow> frame S (create_parent p)"
  unfolding create_parent_def path_parent_def by (auto intro!: frame_intros split: option.split)

lemma fs_rename_result:
  "fs_rename a b w = (Inr (), w') \<Longrightarrow> \<exists>n. w_fs w a = Some n \<and> w_fs w' = (w_fs w)(a := None, b := Some n)"
  "fs_rename a b w = (Inl e, w') \<Longrightarrow> w_fs w' = w_fs w"
  by (auto simp: fs_rename_def prim_def split: list.splits fault.splits option.splits if_splits)

lemma write_file_mode_data:
  assumes "write_file_mode p bs mode w = (Inr (), w')"
  shows "holds_data bs (if w_fs w p = None then Some (mode AND NOT (w_umask w)) else None) (w_fs w' p)"
proof -
  from assms obtain w1 w2 where
    w1: "open_truncate p mode w = (Inr (), w1)" and w2: "write_all p bs w1 = (Inr (), w2)"
    and w': "sync_all p w2 = (Inr (), w')"
    by (auto simp: write_file_mode_def io_simps)
  have "w_fs w' p = w_fs w2 p"
    using w' frame_step [OF frame_sync [of "{}"]] by blast
  moreover note open_truncate_result(1) [OF w1]
  moreover note open_truncate_result(2) [OF w1]
  ultimately show ?thesis
    using write_all_result [OF w2] by (cases "w_fs w p") (simp_all add: holds_data_def)
qed

text \<open>The common end of every replacement: ownership, rename, sync.\<close>

definition commit_file :: "(path \<Rightarrow> string) \<Rightarrow> path \<Rightarrow> path \<Rightarrow> world \<Rightarrow> (CompatError + unit) \<times> world" where
  "commit_file dbg tmp p =
     bind_io (preserve_ownership_before_rename dbg tmp p) (\<lambda>_.
     bind_io (compat_io (fs_rename tmp p)) (\<lambda>_.
     fsync_parent_dir p))"

lemma fsync_parent_result: "fsync_parent_dir p w = (r, w') \<Longrightarrow> r = Inr () \<and> w_fs w' = w_fs w"
proof
  assume w': "fsync_parent_dir p w = (r, w')"
  then show "r = Inr ()"
    by (auto simp: fsync_parent_dir_def return_io_def ignore_io_def split: option.splits)
  show "w_fs w' = w_fs w"
    using frame_step [OF frame_fsync_parent [of "{}"] w'] by auto
qed

lemma frame_commit [frame_intros]: "{tmp, p} \<subseteq> S \<Longrightarrow> frame S (commit_file dbg tmp p)"
  unfolding commit_file_def by (auto intro!: frame_intros)

lemma commit_file_fails:
  assumes "commit_file dbg tmp p w = (Inl e, w')" and "tmp \<noteq> p"
  shows "w_fs w' p = w_fs w p"
  using assms(1) unfolding commit_file_def
proof (cases rule: bind_ioE)
  case (ok u w1)
  have w1: "w_fs w1 p = w_fs w p"
    using frame_step [OF frame_preserve [of tmp "{tmp}"] ok(1)] assms(2) by simp
  from ok(2) have "\<exists>e'. fs_rename tmp p w1 = (Inl e', w')"
    using fsync_parent_result
    by (auto simp: bind_io_def compat_io_def map_err_io_def map_err_def split: prod.splits sum.splits)
  with w1 show ?thesis
    using fs_rename_result(2) by metis
qed (use frame_step [OF frame_preserve [of tmp "{tmp}"]] assms(2) in auto)

lemma commit_file_succeeds:
  assumes "commit_file dbg tmp p w = (Inr (), w')" and "holds_data bs mode (w_fs w tmp)"
  shows "holds_data bs mode (w_fs w' p)"
proof -
  from assms(1) obtain w1 w2 where
    w1: "preserve_ownership_before_rename dbg tmp p w = (Inr (), w1)"
    and w2: "fs_rename tmp p w1 = (Inr (), w2)" and w': "fsync_parent_dir p w2 = (Inr () :: CompatError + unit, w')"
    by (auto simp: commit_file_def io_simps)
  have "holds_data bs mode (w_fs w1 tmp)"
    using keepsD [OF preserve_keeps_data w1 assms(2)] .
  then show ?thesis
    using fs_rename_result(1) [OF w2] fsync_parent_result [OF w'] by (auto simp: holds_data_def)
qed

subsection \<open>The temporary name differs from the target\<close>

lemma show_nat_ascii: "list_all (\<lambda>c. (of_char c :: nat) < 128) (show_nat n)"
proof (induction n rule: less_induct)
  case (less n)
  then show ?case
    by (cases "n < 10") (simp_all add: show_nat.simps [of n])
qed

lemma tmp_path_neq: "p \<noteq> [] \<Longrightarrow> d \<in> {''state'', ''store'', ''config.json''} \<Longrightarrow> tmp_path_for d p pid \<noteq> p"
proof
  assume p: "p \<noteq> []" and d: "d \<in> {''state'', ''store'', ''config.json''}" and eq: "tmp_path_for d p pid = p"
  from p have "last (tmp_path_for d p pid) = file_name_or d p @ ''.tmp.'' @ show_nat pid"
    by (simp add: tmp_path_for_def path_set_file_name_def)
  with eq have last: "last p = file_name_or d p @ ''.tmp.'' @ show_nat pid"
    by simp
  have "list_all (\<lambda>c. (of_char c :: nat) < 128) d"
    using d by auto
  then have "rust_str (d @ ''.tmp.'' @ show_nat pid)"
    using show_nat_ascii [of pid] by (intro rust_str_ascii) simp
  with last p show False
    by (cases "rust_str (last p)") (simp_all add: file_name_or_def path_file_name_def)
qed

lemma parent_prefixes:
  assumes "p \<noteq> []"
  shows "p \<notin> set (prefixes (butlast p))" "path_set_file_name p x \<notin> set (prefixes (butlast p))"
proof -
  have "length q < length p" if "q \<in> set (prefixes (butlast p))" for q
    using that assms by (cases p rule: rev_cases) (auto dest!: prefix_length_le)
  then show "p \<notin> set (prefixes (butlast p))" "path_set_file_name p x \<notin> set (prefixes (butlast p))"
    using assms by (auto simp: path_set_file_name_def)
qed

text \<open>Operations that leave a path alone, always or when they fail.\<close>

definition keeps_path :: "path \<Rightarrow> (world \<Rightarrow> ('e + 'a) \<times> world) \<Rightarrow> bool" where
  "keeps_path p m \<longleftrightarrow> (\<forall>w. w_fs (snd (m w)) p = w_fs w p)"

definition keeps_on_error :: "path \<Rightarrow> (world \<Rightarrow> ('e + 'a) \<times> world) \<Rightarrow> bool" where
  "keeps_on_error p m \<longleftrightarrow> (\<forall>w e w'. m w = (Inl e, w') \<longrightarrow> w_fs w' p = w_fs w p)"

lemma keeps_path_frame: "frame S m \<Longrightarrow> p \<notin> S \<Longrightarrow> keeps_path p m"
  by (simp add: keeps_path_def frame_def)

lemma keeps_on_error_leaf:
  "keeps_on_error p (return_io x)" "keeps_on_error p (fail_io e)" "keeps_on_error p (lift_r r)"
  by (auto simp: keeps_on_error_def return_io_def fail_io_def lift_r_def)

lemma keeps_on_error_bind:
  assumes "keeps_path p m" and "\<And>x. keeps_on_error p (f x)"
  shows "keeps_on_error p (bind_io m f)"
  unfolding keeps_on_error_def
proof (intro allI impI)
  fix w e w'
  assume "bind_io m f w = (Inl e, w')"
  then show "w_fs w' p = w_fs w p"
  proof (cases rule: bind_ioE)
    case (fail e')
    then show ?thesis
      using assms(1) by (metis keeps_path_def snd_conv)
  next
    case (ok x w1)
    then have "w_fs w' p = w_fs w1 p" "w_fs w1 p = w_fs w p"
      using assms unfolding keeps_path_def keeps_on_error_def by (blast, metis snd_conv)
    then show ?thesis
      by simp
  qed
qed

lemma keeps_on_error_last:
  "keeps_on_error p m \<Longrightarrow> (\<And>x w. \<not> isl (fst (f x w))) \<Longrightarrow> keeps_on_error p (bind_io m f)"
  unfolding keeps_on_error_def by (auto elim!: bind_ioE) (metis fst_conv isl_def)

subsection \<open>Atomicity\<close>

lemma write_and_commit:
  assumes "bind_io (write_file_mode tmp bs mode) (\<lambda>_. commit_file dbg tmp p) w = (r, w')" and "tmp \<noteq> p"
  shows "case r of Inl e \<Rightarrow> w_fs w' p = w_fs w p
    | Inr _ \<Rightarrow> holds_data bs (if w_fs w tmp = None then Some (mode AND NOT (w_umask w)) else None) (w_fs w' p)"
  using assms(1)
proof (cases rule: bind_ioE)
  case (ok u w1)
  have w1: "w_fs w1 p = w_fs w p"
    using frame_step [OF frame_write_file_mode [of tmp "{tmp}"] ok(1)] assms(2) by simp
  show ?thesis
    using ok w1 commit_file_fails [of dbg tmp p w1 _ w', OF _ assms(2)] write_file_mode_data [of tmp bs mode w w1]
    by (auto intro: commit_file_succeeds split: sum.split)
qed (use frame_step [OF frame_write_file_mode [of tmp "{tmp}"]] assms(2) in auto)

lemma save_users_cases:
  assumes "save_users_atomic J dbg p users w = (r, w')" and "p \<noteq> []"
  shows "case r of Inl e \<Rightarrow> w_fs w' p = w_fs w p
    | Inr _ \<Rightarrow> \<exists>json mode. uj_to_vec_pretty J \<lparr>uf_schema_version = USERS_SCHEMA_VERSION, uf_users = users\<rparr> = Inr json \<and>
        holds_data json mode (w_fs w' p)"
proof -
  let ?dirs = "case path_parent p of
      Some parent \<Rightarrow> bind_io (compat_io (create_dir_all parent)) (\<lambda>_. compat_io (set_permissions parent mode_0750))
    | None \<Rightarrow> return_io ()"
  let ?rest = "\<lambda>_. bind_io (lift_r (map_err CompatParse (uj_to_vec_pretty J
      \<lparr>uf_schema_version = USERS_SCHEMA_VERSION, uf_users = users\<rparr>))) (\<lambda>json.
    bind_io (get_world w_pid) (\<lambda>pid. bind_io (write_file_mode (tmp_path_for ''store'' p pid) json mode_0640)
      (\<lambda>_. commit_file dbg (tmp_path_for ''store'' p pid) p)))"
  have save: "bind_io ?dirs ?rest w = (r, w')"
    using assms(1) by (simp add: save_users_atomic_def commit_file_def Let_def)
  have "frame (set (prefixes (butlast p))) ?dirs"
    using assms(2) by (auto simp: path_parent_def intro!: frame_intros)
  then have w1: "w_fs w1 p = w_fs w p" if "?dirs w = (r1, w1)" for r1 w1
    using that parent_prefixes(1) [OF assms(2)] by (rule frame_step)
  from save show ?thesis
  proof (cases rule: bind_ioE)
    case (ok u w1)
    from ok(2) show ?thesis
    proof (cases rule: bind_ioE)
      case (ok json w2)
      then have w2: "w2 = w1" "uj_to_vec_pretty J \<lparr>uf_schema_version = USERS_SCHEMA_VERSION, uf_users = users\<rparr> = Inr json"
        by (simp_all add: lift_r_eq_Inr map_err_eq_Inr)
      from ok(2) have "bind_io (write_file_mode (tmp_path_for ''store'' p (w_pid w1)) json mode_0640)
          (\<lambda>_. commit_file dbg (tmp_path_for ''store'' p (w_pid w1)) p) w1 = (r, w')"
        by (simp add: w2 bind_io_def [of "get_world _"] get_world_def)
      from write_and_commit [OF this tmp_path_neq] w1 [OF \<open>?dirs w = (Inr u, w1)\<close>] w2(2) assms(2) show ?thesis
        by (auto split: sum.splits)
    qed (use w1 ok in \<open>auto simp: lift_r_eq\<close>)
  qed (use w1 in auto)
qed

lemma load_of_saved:
  assumes "users_json_ok J" "uj_to_vec_pretty J \<lparr>uf_schema_version = USERS_SCHEMA_VERSION, uf_users = users\<rparr> = Inr json"
    and "holds_data json mode (w_fs w p)" "w_faults w = []"
  shows "load_users J p w = (Inr users, w)"
  using assms
  by (auto simp: users_json_ok_def holds_data_def load_users_def path_exists_def try_io_def prim_def return_io_def
      bind_io_def compat_io_def map_err_io_def fs_read_def lift_r_def parse_users_bytes_def split: option.splits)

lemma atomic_write_cases:
  assumes "atomic_write dbg p bs mode w = (r, w')" and "p \<noteq> []"
  shows "case r of Inl e \<Rightarrow> w_fs w' p = w_fs w p | Inr _ \<Rightarrow> \<exists>m. holds_data bs m (w_fs w' p)"
proof -
  have dirs: "w_fs w1 p = w_fs w p" if "create_parent p w = (r1, w1)" for r1 w1
    using frame_step [OF frame_create_parent that] parent_prefixes(1) [OF assms(2)] by blast
  from assms(1) show ?thesis
    unfolding atomic_write_def
  proof (cases rule: bind_ioE)
    case (ok u w1)
    then have "bind_io (write_file_mode (tmp_path_for ''state'' p (w_pid w1)) bs mode)
        (\<lambda>_. commit_file dbg (tmp_path_for ''state'' p (w_pid w1)) p) w1 = (r, w')"
      by (simp add: bind_io_def [of "get_world _"] get_world_def Let_def commit_file_def)
    from write_and_commit [OF this tmp_path_neq] dirs [OF ok(1)] assms(2) show ?thesis
      by (auto split: sum.splits)
  qed (use dirs in auto)
qed

lemma frame_atomic_write:
  assumes "p \<noteq> []"
  shows "frame (set (prefixes (butlast p)) \<union> {tmp_path_for ''state'' p pid |pid. True} \<union> {p}) (atomic_write dbg p bs mode)"
  unfolding atomic_write_def Let_def by (intro frame_intros) auto

definition backup_path_for :: "path \<Rightarrow> u64 \<Rightarrow> path" where
  "backup_path_for p ts = path_set_file_name p
     (file_name_or ''state'' p @ ''.pre-migration-'' @ show_nat (unat ts) @ ''.bak'')"

lemma backup_path_neq:
  assumes "p \<noteq> []"
  shows "backup_path_for p ts \<noteq> p" "backup_path_for p ts \<noteq> tmp_path_for ''state'' p pid"
    "backup_path_for p ts \<notin> set (prefixes (butlast p))"
proof -
  show "backup_path_for p ts \<noteq> tmp_path_for ''state'' p pid"
    using assms by (simp add: backup_path_for_def tmp_path_for_def path_set_file_name_def)
  show "backup_path_for p ts \<notin> set (prefixes (butlast p))"
    unfolding backup_path_for_def by (rule parent_prefixes(2) [OF assms])
  have "rust_str (''state'' @ ''.pre-migration-'' @ show_nat (unat ts) @ ''.bak'')"
    using show_nat_ascii [of "unat ts"] by (intro rust_str_ascii) simp
  moreover have "last p = file_name_or ''state'' p @ ''.pre-migration-'' @ show_nat (unat ts) @ ''.bak''"
    if "backup_path_for p ts = p"
    using that assms by (metis backup_path_for_def last_snoc path_set_file_name_def)
  ultimately show "backup_path_for p ts \<noteq> p"
    using assms by (cases "rust_str (last p)") (auto simp: file_name_or_def path_file_name_def)
qed

lemma backup_result:
  assumes "backup_before_mutate p w = (r, w')" and "p \<noteq> []"
  shows "w_fs w' p = w_fs w p"
    and "r = Inr b \<Longrightarrow> \<exists>old m. b = backup_path_for p (w_unix_time w) \<and> w_fs w p = Some old \<and>
      holds_data (i_content old) m (w_fs w' b)"
proof -
  let ?b = "backup_path_for p (w_unix_time w)"
  have run: "bind_io (compat_io (fs_read p)) (\<lambda>bytes. bind_io (write_file_mode ?b bytes mode_0600)
      (\<lambda>_. return_io ?b)) w = (r, w')"
    using assms(1)
    by (simp add: backup_before_mutate_def bind_io_def [of "get_world _"] get_world_def Let_def backup_path_for_def)
  have "frame {?b} (bind_io (compat_io (fs_read p)) (\<lambda>bytes. bind_io (write_file_mode ?b bytes mode_0600)
      (\<lambda>_. return_io ?b)))"
    by (auto intro!: frame_intros)
  then show "w_fs w' p = w_fs w p"
    using run by (rule frame_step) (simp add: backup_path_neq(1) [OF assms(2), symmetric])
  show "\<exists>old m. b = ?b \<and> w_fs w p = Some old \<and> holds_data (i_content old) m (w_fs w' b)" if "r = Inr b"
    using run that fs_read_result(1) [of p w] write_file_mode_data
    by (simp add: io_simps) blast
qed

lemma backup_and_write:
  assumes "bind_io (backup_before_mutate p) (\<lambda>b. bind_io (atomic_write dbg p bs mode) (\<lambda>_. return_io (F b))) w = (r, w')"
    and p: "p \<noteq> []"
  shows "case r of Inl e \<Rightarrow> w_fs w' p = w_fs w p
    | Inr out \<Rightarrow> \<exists>old b m1 m2. out = F b \<and> w_fs w p = Some old \<and> holds_data bs m1 (w_fs w' p) \<and>
        holds_data (i_content old) m2 (w_fs w' b)"
  using assms(1)
proof (cases rule: bind_ioE)
  case (fail e)
  with backup_result(1) [OF fail(1) p] show ?thesis
    by simp
next
  case (ok b w1)
  note w1 = backup_result [OF ok(1) p]
  from w1(2) obtain old m where bk: "b = backup_path_for p (w_unix_time w)" "w_fs w p = Some old" "holds_data (i_content old) m (w_fs w1 b)"
    by blast
  from ok(2) show ?thesis
  proof (cases rule: bind_ioE)
    case (fail e)
    with atomic_write_cases [OF fail(1) p] w1(1) show ?thesis
      by simp
  next
    case (ok u w2)
    have "w_fs w2 b = w_fs w1 b"
      using frame_step [OF frame_atomic_write [OF p] ok(1), of b] backup_path_neq [OF p] unfolding bk(1) by auto
    moreover from atomic_write_cases [OF ok(1) p] obtain m1 where "holds_data bs m1 (w_fs w2 p)"
      by auto
    ultimately have "w_fs w p = Some old \<and> holds_data bs m1 (w_fs w2 p) \<and> holds_data (i_content old) m (w_fs w2 b)"
      using bk(2,3) by simp
    moreover from ok(2) have "r = Inr (F b)" "w2 = w'"
      by (simp_all add: return_io_def)
    ultimately show ?thesis
      by simp blast
  qed
qed

lemma detect_legacy:
  assumes "detect_users_schema J p w = (Inr UsersLegacy :: 'e + UsersSchemaState, w')"
  shows "\<exists>old e legacy. w_fs w p = Some old \<and> uj_file J (i_content old) = Inl e \<and> uj_legacy J (i_content old) = Inr legacy"
proof -
  from assms obtain w1 x where w1: "path_exists p w = (Inr True :: 'e + bool, w1)" and x: "fs_read p w1 = (x, w')"
    and state: "(case x of Inl e \<Rightarrow> UsersCorrupted (io_detail e) | Inr bytes \<Rightarrow> users_schema_of J bytes) = UsersLegacy"
    by (auto simp: detect_users_schema_def io_simps split: if_splits)
  from state obtain bytes where bytes: "x = Inr bytes" "users_schema_of J bytes = UsersLegacy"
    by (cases x) simp_all
  from fs_read_result(1) [OF x [unfolded bytes]] path_exists_result(1) [OF w1] bytes(2) show ?thesis
    by (auto simp: users_schema_of_def split: sum.splits if_splits)
qed

lemma frame_detect [frame_intros]: "frame S (detect_users_schema J p)"
  unfolding detect_users_schema_def by (auto intro!: frame_intros)

lemma migrate_legacy:
  assumes J: "users_json_ok J" and p: "p \<noteq> []" and run: "migrate_legacy_users J dbg p w = (Inr out, w')"
  shows "\<exists>old legacy json b m1 m2. w_fs w p = Some old \<and> out = UsersMigrated b \<and> uj_legacy J (i_content old) = Inr legacy \<and>
    uj_to_vec_pretty J \<lparr>uf_schema_version = USERS_SCHEMA_VERSION, uf_users = legacy\<rparr> = Inr json \<and>
    holds_data json m1 (w_fs w' p) \<and> holds_data (i_content old) m2 (w_fs w' b)"
proof -
  let ?put = "\<lambda>json. bind_io (backup_before_mutate p) (\<lambda>b. bind_io (atomic_write dbg p json mode_0640) (\<lambda>_. return_io (UsersMigrated b)))"
  from run obtain bytes w1 legacy json where rd: "fs_read p w = (Inr bytes, w1)"
    and l: "uj_legacy J bytes = Inr legacy"
    and j: "uj_to_vec_pretty J \<lparr>uf_schema_version = USERS_SCHEMA_VERSION, uf_users = legacy\<rparr> = Inr json"
    and wr: "?put json w1 = (Inr out :: CompatError + UsersMigrationOutcome, w')"
    by (auto simp: migrate_legacy_users_def Let_def bind_io_eq_Inr [of "compat_io _"] bind_io_eq_Inr [of "lift_r _"]
        compat_io_eq_Inr lift_r_eq_Inr fail_io_neq_Inr map_err_eq_Inr split: if_splits)
  from fs_read_result [OF rd] obtain old where "w_fs w p = Some old" "i_content old = bytes" "w_fs w1 = w_fs w"
    by blast
  with backup_and_write [OF wr p] l j show ?thesis
    by auto
qed

lemma migrate_users_fails:
  assumes p: "p \<noteq> []"
  shows "keeps_on_error p (migrate_users J dbg p)"
proof -
  have bw: "keeps_on_error p (bind_io (backup_before_mutate p) (\<lambda>b. bind_io (atomic_write dbg p json mode_0640)
      (\<lambda>_. return_io (UsersMigrated b))))" for json
    unfolding keeps_on_error_def using backup_and_write [OF _ p] by fastforce
  show ?thesis
    unfolding migrate_users_def migrate_legacy_users_def Let_def
    by (auto intro!: bw keeps_on_error_bind [of _ "compat_io _"] keeps_on_error_bind [of _ "lift_r _"]
        keeps_on_error_bind [of _ "detect_users_schema _ _"] keeps_on_error_leaf keeps_path_frame [of "{}"] frame_intros
        split: UsersSchemaState.split)
qed

subsection \<open>Properties\<close>

text \<open>A codec that knows one file, and a world with an empty directory, for the witnesses.\<close>

definition store_user :: CompatUser where
  "store_user =
     \<lparr>cu_id = ''u1'', cu_name = ''ann'', cu_enabled = True, cu_vless_uuid = ''v'',
      cu_hysteria2_password = SecretString ''pw'', cu_subscription_token_hash_hex = ''h'',
      cu_created_at = 0, cu_expires_at = None\<rparr>"

definition store_json :: users_json where
  "store_json =
     (let file = \<lparr>uf_schema_version = 1, uf_users = [store_user]\<rparr> in
      \<lparr>uj_to_vec_pretty = (\<lambda>f. if f = file then Inr [1] else Inl []),
       uj_file = (\<lambda>bs. if bs = [1] then Inr file else Inl []),
       uj_legacy = (\<lambda>bs. if bs = [2] then Inr [store_user] else Inl [])\<rparr>)"

definition store_world :: "u8 list option \<Rightarrow> world" where
  "store_world content =
     empty_world\<lparr>w_fs := (\<lambda>p. if p = [] \<or> p = [''d''] then Some \<lparr>i_dir = True, i_content = [], i_mode = 488, i_uid = 0, i_gid = 7\<rparr>
        else if p = [''d'', ''users.json''] then map_option (\<lambda>c. \<lparr>i_dir = False, i_content = c, i_mode = 416, i_uid = 0, i_gid = 7\<rparr>) content
        else None)\<rparr>"

lemma store_json_ok: "users_json_ok store_json"
  by (auto simp: users_json_ok_def store_json_def Let_def split: if_splits)

text \<open>C23. Saving the users is all or nothing, whichever operation fails and after however many bytes:
  on an error the file is exactly what it was, and on success loading it yields exactly
  the saved users. Loading a saved file therefore never sees a half-written store.\<close>

theorem save_users_all_or_nothing:
  assumes "users_json_ok J" and "p \<noteq> []" and "save_users_atomic J dbg p users w = (r, w')"
  shows "case r of
      Inl e \<Rightarrow> w_fs w' p = w_fs w p
    | Inr _ \<Rightarrow> \<forall>w2. w_fs w2 = w_fs w' \<and> w_faults w2 = [] \<longrightarrow> load_users J p w2 = (Inr users, w2)"
proof (cases r)
  case (Inr u)
  with save_users_cases [OF assms(3,2)] obtain json mode where
    json: "uj_to_vec_pretty J \<lparr>uf_schema_version = USERS_SCHEMA_VERSION, uf_users = users\<rparr> = Inr json"
    and data: "holds_data json mode (w_fs w' p)"
    by auto
  have "load_users J p w2 = (Inr users, w2)" if "w_fs w2 = w_fs w' \<and> w_faults w2 = []" for w2
    using load_of_saved [OF assms(1) json, of mode w2 p] data that by auto
  then show ?thesis
    using Inr by simp
qed (use save_users_cases [OF assms(3,2)] in auto)

definition store_saved :: "(CompatError + unit) \<times> world" where
  "store_saved = save_users_atomic store_json (\<lambda>_. []) [''d'', ''users.json''] [store_user] (store_world (Some [2]))"

theorem save_users_all_or_nothing_witness:
  "load_users store_json [''d'', ''users.json''] ((snd store_saved)\<lparr>w_faults := []\<rparr>) =
   (Inr [store_user], (snd store_saved)\<lparr>w_faults := []\<rparr>)"
proof -
  have "fst store_saved = Inr ()"
    by code_simp
  then have "store_saved = (Inr (), snd store_saved)"
    by (metis prod.collapse)
  then have "save_users_atomic store_json (\<lambda>_. []) [''d'', ''users.json''] [store_user] (store_world (Some [2])) =
      (Inr (), snd store_saved)"
    by (simp only: store_saved_def)
  from save_users_all_or_nothing [OF store_json_ok _ this] show ?thesis
    by simp
qed

text \<open>C32. Migrating the user store never loses a user: a failed or unnecessary migration leaves the
  file as it was, and a performed one leaves a file that loads to exactly the users of the
  old one, with the old bytes in the backup.\<close>

theorem migrate_users_preserves:
  assumes "users_json_ok J" and "p \<noteq> []" and "migrate_users J dbg p w = (r, w')"
  shows "case r of
      Inr (UsersMigrated b) \<Rightarrow>
        \<exists>old users m. w_fs w p = Some old \<and> parse_users_bytes J (i_content old) = Inr users \<and>
          (\<forall>w2. w_fs w2 = w_fs w' \<and> w_faults w2 = [] \<longrightarrow> load_users J p w2 = (Inr users, w2)) \<and>
          holds_data (i_content old) m (w_fs w' b)
    | _ \<Rightarrow> w_fs w' p = w_fs w p"
proof (cases r)
  case (Inl e)
  with migrate_users_fails [OF assms(2), of J dbg] assms(3) show ?thesis
    unfolding keeps_on_error_def by auto
next
  case (Inr out)
  from assms(3) [unfolded Inr migrate_users_def] show ?thesis
  proof (cases rule: bind_ioE)
    case (ok state w1)
    have w1: "w_fs w1 = w_fs w"
      using frame_step [OF frame_detect [of "{}"] ok(1)] by auto
    show ?thesis
    proof (cases state)
      case UsersLegacy
      with ok(2) migrate_legacy [OF assms(1,2), of dbg w1 out w'] obtain old users json b m1 m2 where
        m: "w_fs w p = Some old" "out = UsersMigrated b" "uj_legacy J (i_content old) = Inr users"
          "uj_to_vec_pretty J \<lparr>uf_schema_version = USERS_SCHEMA_VERSION, uf_users = users\<rparr> = Inr json"
          "holds_data json m1 (w_fs w' p)" "holds_data (i_content old) m2 (w_fs w' b)"
        unfolding w1 by auto
      have "parse_users_bytes J (i_content old) = Inr users"
        using detect_legacy [OF ok(1) [unfolded UsersLegacy]] m(1,3) by (auto simp: parse_users_bytes_def)
      then show ?thesis
        using m load_of_saved [OF assms(1) m(4)] Inr by auto
    qed (use ok(2) w1 Inr in \<open>auto simp: io_simps\<close>)
  qed simp
qed

definition store_migrated :: "(CompatError + UsersMigrationOutcome) \<times> world" where
  "store_migrated = migrate_users store_json (\<lambda>_. []) [''d'', ''users.json''] (store_world (Some [2]))"

theorem migrate_users_preserves_witness:
  "\<exists>b old m. fst store_migrated = Inr (UsersMigrated b) \<and>
     w_fs (store_world (Some [2])) [''d'', ''users.json''] = Some old \<and>
     holds_data (i_content old) m (w_fs (snd store_migrated) b)"
proof -
  have "fst store_migrated = Inr (UsersMigrated [''d'', ''users.json.pre-migration-0.bak''])"
    by code_simp
  then have "store_migrated = (Inr (UsersMigrated [''d'', ''users.json.pre-migration-0.bak'']), snd store_migrated)"
    by (metis prod.collapse)
  then have "migrate_users store_json (\<lambda>_. []) [''d'', ''users.json''] (store_world (Some [2])) =
      (Inr (UsersMigrated [''d'', ''users.json.pre-migration-0.bak'']), snd store_migrated)"
    by (simp only: store_migrated_def)
  from migrate_users_preserves [OF store_json_ok _ this] \<open>fst store_migrated = _\<close> show ?thesis
    by auto
qed

end
