(* ===== verification/Deployment.thy ===== *)
theory Deployment
  imports Compat_Render Compat_Store
begin

text \<open>
  The deployment file shared by the administration tool and the subscription service,
  \<^verbatim>\<open>crates/compat-config/src/deployment.rs\<close>: its sections and their defaults, validation, the
  paths derived from it, and its migration. The TOML parser is a parameter that yields the
  keys present in a text; what the code makes of absent keys is modelled here. Paths are
  lists of components.
\<close>

subsection \<open>Sections and defaults\<close>

definition DEPLOYMENT_SCHEMA_VERSION :: u32 where
  "DEPLOYMENT_SCHEMA_VERSION = 1"

record UdpProbeSection =
  up_ipv4_resolvers :: "string list"
  up_ipv6_resolvers :: "string list"
  up_retries :: nat
  up_timeout_ms :: u64
  up_delay_ms :: u64

record RealitySection =
  rl_listen_port :: u16
  rl_handshake_server :: string
  rl_handshake_port :: u16

record Hysteria2Section =
  hy_listen_port :: u16
  hy_up_mbps :: "u32 option"
  hy_down_mbps :: "u32 option"

record SubscriptionSection =
  sb_listen_port :: u16
  sb_public_port :: u16

record DeploymentConfig =
  dc_schema_version :: u32
  dc_public_host :: string
  dc_subscription_host :: string
  dc_reality :: RealitySection
  dc_hysteria2 :: Hysteria2Section
  dc_subscription :: SubscriptionSection
  dc_udp_probe :: "UdpProbeSection option"
  dc_state_dir :: path
  dc_singbox_binary :: path

definition default_state_dir :: path where
  "default_state_dir = [''etc'', ''vpn'', ''compat'']"

definition default_singbox_binary :: path where
  "default_singbox_binary = [''usr'', ''local'', ''bin'', ''sing-box'']"

definition default_handshake_port :: u16 where
  "default_handshake_port = 443"

definition default_public_port :: u16 where
  "default_public_port = 8443"

definition default_ipv4_resolvers :: "string list" where
  "default_ipv4_resolvers = [''1.1.1.1'', ''8.8.8.8'']"

definition default_ipv6_resolvers :: "string list" where
  "default_ipv6_resolvers = [''2606:4700:4700::1111'', ''2001:4860:4860::8888'']"

definition default_udp_retries :: nat where
  "default_udp_retries = 2"

definition default_udp_timeout_ms :: u64 where
  "default_udp_timeout_ms = 2000"

definition default_udp_delay_ms :: u64 where
  "default_udp_delay_ms = 250"

definition UdpProbeSection_default :: UdpProbeSection where
  "UdpProbeSection_default =
     \<lparr>up_ipv4_resolvers = default_ipv4_resolvers, up_ipv6_resolvers = default_ipv6_resolvers,
      up_retries = default_udp_retries, up_timeout_ms = default_udp_timeout_ms,
      up_delay_ms = default_udp_delay_ms\<rparr>"

subsection \<open>Absent keys\<close>

text \<open>The keys of a parsed text: optional where the declarations carry a serde default. A text
  without one of the other keys does not parse.\<close>

record raw_udp_probe =
  ru_ipv4_resolvers :: "string list option"
  ru_ipv6_resolvers :: "string list option"
  ru_retries :: "nat option"
  ru_timeout_ms :: "u64 option"
  ru_delay_ms :: "u64 option"

record raw_deployment =
  rw_schema_version :: "u32 option"
  rw_public_host :: string
  rw_subscription_host :: string
  rw_reality_listen_port :: u16
  rw_handshake_server :: string
  rw_handshake_port :: "u16 option"
  rw_hysteria_listen_port :: u16
  rw_up_mbps :: "u32 option"
  rw_down_mbps :: "u32 option"
  rw_subscription_listen_port :: u16
  rw_public_port :: "u16 option"
  rw_udp_probe :: "raw_udp_probe option"
  rw_state_dir :: "path option"
  rw_singbox_binary :: "path option"

definition deserialize_udp_probe :: "raw_udp_probe \<Rightarrow> UdpProbeSection" where
  "deserialize_udp_probe r =
     \<lparr>up_ipv4_resolvers = unwrap_or (ru_ipv4_resolvers r) default_ipv4_resolvers,
      up_ipv6_resolvers = unwrap_or (ru_ipv6_resolvers r) default_ipv6_resolvers,
      up_retries = unwrap_or (ru_retries r) default_udp_retries,
      up_timeout_ms = unwrap_or (ru_timeout_ms r) default_udp_timeout_ms,
      up_delay_ms = unwrap_or (ru_delay_ms r) default_udp_delay_ms\<rparr>"

definition deserialize_deployment :: "raw_deployment \<Rightarrow> DeploymentConfig" where
  "deserialize_deployment r =
     \<lparr>dc_schema_version = unwrap_or (rw_schema_version r) 0,
      dc_public_host = rw_public_host r,
      dc_subscription_host = rw_subscription_host r,
      dc_reality =
        \<lparr>rl_listen_port = rw_reality_listen_port r, rl_handshake_server = rw_handshake_server r,
         rl_handshake_port = unwrap_or (rw_handshake_port r) default_handshake_port\<rparr>,
      dc_hysteria2 =
        \<lparr>hy_listen_port = rw_hysteria_listen_port r, hy_up_mbps = rw_up_mbps r, hy_down_mbps = rw_down_mbps r\<rparr>,
      dc_subscription =
        \<lparr>sb_listen_port = rw_subscription_listen_port r,
         sb_public_port = unwrap_or (rw_public_port r) default_public_port\<rparr>,
      dc_udp_probe = map_option deserialize_udp_probe (rw_udp_probe r),
      dc_state_dir = unwrap_or (rw_state_dir r) default_state_dir,
      dc_singbox_binary = unwrap_or (rw_singbox_binary r) default_singbox_binary\<rparr>"

text \<open>\<^verbatim>\<open>toml::from_str\<close>, its error already printed.\<close>

type_synonym toml = "string \<Rightarrow> string + raw_deployment"

definition toml_from_str :: "toml \<Rightarrow> string \<Rightarrow> string + DeploymentConfig" where
  "toml_from_str T text = bind_r (T text) (\<lambda>r. Inr (deserialize_deployment r))"

subsection \<open>Loading\<close>

definition DeploymentConfig_validate :: "DeploymentConfig \<Rightarrow> CompatError + unit" where
  "DeploymentConfig_validate cfg =
     (if dc_schema_version cfg > DEPLOYMENT_SCHEMA_VERSION
      then Inl (UnsupportedSchema ''deployment.toml'' (dc_schema_version cfg) DEPLOYMENT_SCHEMA_VERSION)
      else if (hy_up_mbps (dc_hysteria2 cfg) \<noteq> None) \<noteq> (hy_down_mbps (dc_hysteria2 cfg) \<noteq> None)
      then Inl (CompatParse (''[hysteria2] up_mbps and down_mbps must be set together (both, or neither) '' @
             em_dash @ '' see docs/PERFORMANCE_OPTIMIZATION_PLAN.md''))
      else Inr ())"

definition DeploymentConfig_load :: "toml \<Rightarrow> path \<Rightarrow> world \<Rightarrow> (CompatError + DeploymentConfig) \<times> world" where
  "DeploymentConfig_load T p =
     bind_io (compat_io (read_to_string p)) (\<lambda>text.
     bind_io (lift_r (map_err CompatParse (toml_from_str T text))) (\<lambda>cfg.
     bind_io (lift_r (DeploymentConfig_validate cfg)) (\<lambda>_.
     return_io cfg)))"

definition udp_probe_config :: "DeploymentConfig \<Rightarrow> UdpProbeSection" where
  "udp_probe_config cfg = unwrap_or (dc_udp_probe cfg) UdpProbeSection_default"

definition users_file :: "DeploymentConfig \<Rightarrow> path" where
  "users_file cfg = dc_state_dir cfg @ [''users'', ''users.json'']"

definition reality_dir :: "DeploymentConfig \<Rightarrow> path" where
  "reality_dir cfg = dc_state_dir cfg @ [''reality'']"

definition reality_private_key_file :: "DeploymentConfig \<Rightarrow> path" where
  "reality_private_key_file cfg = reality_dir cfg @ [''private.key'']"

definition reality_public_key_file :: "DeploymentConfig \<Rightarrow> path" where
  "reality_public_key_file cfg = reality_dir cfg @ [''public.key'']"

definition hysteria_dir :: "DeploymentConfig \<Rightarrow> path" where
  "hysteria_dir cfg = dc_state_dir cfg @ [''hysteria'']"

definition hysteria_obfs_password_file :: "DeploymentConfig \<Rightarrow> path" where
  "hysteria_obfs_password_file cfg = reality_dir cfg @ [''hysteria_obfs_password.txt'']"

definition singbox_config_file :: "DeploymentConfig \<Rightarrow> path" where
  "singbox_config_file cfg = dc_state_dir cfg @ [''sing-box'', ''config.json'']"

subsection \<open>Migration\<close>

datatype DeploymentMigrationOutcome = DeploymentMissing | DeploymentAlreadyCurrent | DeploymentMigrated path

text \<open>\<^verbatim>\<open>str::lines\<close>: a line ends with a line feed, which is dropped together with a carriage return
  before it.\<close>

fun split_inclusive :: "string \<Rightarrow> string list" where
  "split_inclusive [] = []"
| "split_inclusive (c # s) =
     (if c = CHR 0x0A then [c] # split_inclusive s
      else case split_inclusive s of [] \<Rightarrow> [[c]] | l # ls \<Rightarrow> (c # l) # ls)"

definition strip_suffix :: "char \<Rightarrow> string \<Rightarrow> string option" where
  "strip_suffix c s = (if s \<noteq> [] \<and> last s = c then Some (butlast s) else None)"

definition line_content :: "string \<Rightarrow> string" where
  "line_content l =
     (case strip_suffix (CHR 0x0A) l of
        None \<Rightarrow> l
      | Some l \<Rightarrow> unwrap_or (strip_suffix (CHR 0x0D) l) l)"

definition str_lines :: "string \<Rightarrow> string list" where
  "str_lines s = map line_content (split_inclusive s)"

definition migrate_deployment_toml_text :: "string \<Rightarrow> string option" where
  "migrate_deployment_toml_text original =
     (let already_versioned =
            list_ex (\<lambda>l. strip_prefix ''schema_version'' (trim_start l) \<noteq> None) (str_lines original)
      in if already_versioned then None
         else Some (''schema_version = '' @ show_nat (unat DEPLOYMENT_SCHEMA_VERSION) @ [CHR 0x0A] @ original))"

fun obj_remove :: "Value \<Rightarrow> string \<Rightarrow> Value" where
  "obj_remove (VObject fs) k = VObject (filter (\<lambda>f. fst f \<noteq> k) fs)"
| "obj_remove v k = v"

text \<open>\<open>to_value\<close> is \<^verbatim>\<open>serde_json::to_value\<close> on the configuration.\<close>

definition migrate_deployment_toml ::
    "toml \<Rightarrow> (DeploymentConfig \<Rightarrow> string + Value) \<Rightarrow> (path \<Rightarrow> string) \<Rightarrow> path \<Rightarrow>
     world \<Rightarrow> (CompatError + DeploymentMigrationOutcome) \<times> world" where
  "migrate_deployment_toml T to_value dbg p =
     bind_io (path_exists p) (\<lambda>present.
     if \<not> present then return_io DeploymentMissing
     else bind_io (compat_io (read_to_string p)) (\<lambda>original.
       bind_io (lift_r (map_err (\<lambda>e. CompatParse (''cannot migrate '' @ dbg p @
           '': existing file does not parse ('' @ e @ ''); no changes made'')) (toml_from_str T original))) (\<lambda>original_cfg.
       bind_io (lift_r (DeploymentConfig_validate original_cfg)) (\<lambda>_.
       case migrate_deployment_toml_text original of
         None \<Rightarrow> return_io DeploymentAlreadyCurrent
       | Some patched \<Rightarrow>
           bind_io (lift_r (map_err (\<lambda>e. CompatParse (''migrated deployment.toml failed to reparse ('' @ e @
               '') '' @ em_dash @ '' this is a bug, not applying'')) (toml_from_str T patched))) (\<lambda>migrated_cfg.
           bind_io (lift_r (DeploymentConfig_validate migrated_cfg)) (\<lambda>_.
           if dc_schema_version migrated_cfg \<noteq> DEPLOYMENT_SCHEMA_VERSION
           then fail_io (CompatParse (''migration produced schema_version '' @
                  show_nat (unat (dc_schema_version migrated_cfg)) @ '' (expected '' @
                  show_nat (unat DEPLOYMENT_SCHEMA_VERSION) @ '') '' @ em_dash @ '' refusing to apply''))
           else bind_io (lift_r (map_err CompatParse (to_value original_cfg))) (\<lambda>original_value.
             bind_io (lift_r (map_err CompatParse (to_value migrated_cfg))) (\<lambda>migrated_value.
             if obj_remove original_value ''schema_version'' \<noteq> obj_remove migrated_value ''schema_version''
             then fail_io (CompatParse (''migration would change a value other than schema_version '' @
                    em_dash @ '' refusing to apply (this is a bug in migrate_deployment_toml_text)''))
             else bind_io (backup_before_mutate p) (\<lambda>backup_path.
               bind_io (atomic_write dbg p (as_bytes patched) mode_0644) (\<lambda>_.
               return_io (DeploymentMigrated backup_path)))))))))))"

subsection \<open>The patch\<close>

lemma split_inclusive_line:
  "CHR 0x0A \<notin> set l \<Longrightarrow> split_inclusive (l @ CHR 0x0A # s) = (l @ [CHR 0x0A]) # split_inclusive s"
  by (induction l) auto

lemma line_content_prefix:
  assumes "q \<noteq> []" "last q \<noteq> CHR 0x0D"
  shows "\<exists>r. line_content ((q @ l) @ [CHR 0x0A]) = q @ r"
proof -
  have "line_content ((q @ l) @ [CHR 0x0A]) = (if last (q @ l) = CHR 0x0D then butlast (q @ l) else q @ l)"
    using assms(1) by (simp add: line_content_def strip_suffix_def del: append_assoc)
  with assms show ?thesis
    by (cases l) (auto simp: butlast_append)
qed

lemma strip_prefix_append: "strip_prefix p (p @ s) = Some s"
  by (induction p) auto

lemma trim_start_plain_hd: "plain_char c \<Longrightarrow> trim_start (c # s) = c # s"
proof -
  assume c: "plain_char c"
  have "strip_any white_space (c # s) = None"
    using white_space_ends c by (intro strip_any_None) (metis list.sel(1))
  then show ?thesis
    by (simp add: trim_start_def strip_while.simps)
qed

lemma versioned_text_kept:
  assumes "CHR 0x0A \<notin> set l"
  shows "migrate_deployment_toml_text (''schema_version'' @ l @ CHR 0x0A # rest) = None"
proof -
  define q where "q = ''schema_version''"
  have q: "q \<noteq> []" "last q \<noteq> CHR 0x0D" "plain_char (hd q)" "CHR 0x0A \<notin> set q"
    by (simp_all add: q_def plain_char_def)
  obtain r where r: "line_content ((q @ l) @ [CHR 0x0A]) = q @ r"
    using line_content_prefix [OF q(1,2)] by blast
  moreover have "trim_start (q @ r) = q @ r"
    using trim_start_plain_hd [of "hd q" "tl q @ r"] q by (simp flip: append_Cons)
  moreover have "split_inclusive ((q @ l) @ CHR 0x0A # rest) = ((q @ l) @ [CHR 0x0A]) # split_inclusive rest"
    using assms q(4) by (intro split_inclusive_line) simp
  ultimately show ?thesis
    using strip_prefix_append [of q r]
    by (simp add: migrate_deployment_toml_text_def str_lines_def flip: q_def)
qed

lemma show_one: "show_nat 1 = ''1''"
  by code_simp

lemma patched_text:
  assumes "migrate_deployment_toml_text original = Some patched"
  shows "patched = ''schema_version = 1'' @ CHR 0x0A # original"
  using assms show_one
  by (simp add: migrate_deployment_toml_text_def Let_def DEPLOYMENT_SCHEMA_VERSION_def split: if_splits)

lemma migrate_text_idempotent:
  "migrate_deployment_toml_text original = Some patched \<Longrightarrow> migrate_deployment_toml_text patched = None"
  using versioned_text_kept [of "'' = 1''" original] by (auto dest!: patched_text)

text \<open>An explicit old version is not brought up to date.\<close>

lemma explicit_old_version_kept:
  "migrate_deployment_toml_text (''schema_version = 0'' @ CHR 0x0A # rest) = None"
  using versioned_text_kept [of "'' = 0''" rest] by simp

subsection \<open>The migration\<close>

text \<open>The JSON form of a configuration determines every setting but the version.\<close>

definition json_projection_ok :: "(DeploymentConfig \<Rightarrow> string + Value) \<Rightarrow> bool" where
  "json_projection_ok to_value \<longleftrightarrow>
     (\<forall>a b x y. to_value a = Inr x \<and> to_value b = Inr y \<and>
        obj_remove x ''schema_version'' = obj_remove y ''schema_version'' \<longrightarrow>
        a\<lparr>dc_schema_version := 0\<rparr> = b\<lparr>dc_schema_version := 0\<rparr>)"

lemma settings_agree:
  assumes "json_projection_ok to_value" "to_value a = Inr x" "to_value b = Inr y"
    and "obj_remove x ''schema_version'' = obj_remove y ''schema_version''"
  shows "b = a\<lparr>dc_schema_version := dc_schema_version b\<rparr>"
proof -
  have "a\<lparr>dc_schema_version := 0\<rparr> = b\<lparr>dc_schema_version := 0\<rparr>"
    using assms unfolding json_projection_ok_def by blast
  then show ?thesis
    by (cases a; cases b) simp
qed

abbreviation replace_deployment :: "(path \<Rightarrow> string) \<Rightarrow> path \<Rightarrow> string \<Rightarrow> world \<Rightarrow> (CompatError + DeploymentMigrationOutcome) \<times> world" where
  "replace_deployment dbg p patched \<equiv>
     bind_io (backup_before_mutate p) (\<lambda>b. bind_io (atomic_write dbg p (as_bytes patched) mode_0644) (\<lambda>_.
       return_io (DeploymentMigrated b)))"

lemma frame_read_to_string [frame_intros]: "frame S (read_to_string p)"
  unfolding read_to_string_def by (auto intro!: frame_intros)

lemma read_to_string_result:
  assumes "read_to_string p w = (Inr text, w')"
  shows "\<exists>n. w_fs w p = Some n \<and> from_utf8 (i_content n) = Some text \<and> w_fs w' = w_fs w"
proof -
  from assms obtain bs where rd: "fs_read p w = (Inr bs, w')" and "from_utf8 bs = Some text"
    by (auto simp: read_to_string_def io_simps ok_or_def split: option.splits)
  with fs_read_result [OF rd] show ?thesis
    by blast
qed

lemma migrate_deployment_fails:
  assumes p: "p \<noteq> []"
  shows "keeps_on_error p (migrate_deployment_toml T to_value dbg p)"
proof -
  have bw: "keeps_on_error p (replace_deployment dbg p patched)" for patched
    unfolding keeps_on_error_def using backup_and_write [OF _ p] by fastforce
  show ?thesis
    unfolding migrate_deployment_toml_def Let_def
    by (auto intro!: bw keeps_on_error_bind [of _ "compat_io (read_to_string p)"] keeps_on_error_bind [of _ "lift_r _"]
        keeps_on_error_bind [of _ "path_exists _"] keeps_on_error_leaf keeps_path_frame [of "{}"] frame_intros
        split: option.split)
qed

lemma migrate_deployment_succeeds:
  assumes "migrate_deployment_toml T to_value dbg p w = (Inr out, w')"
  shows "out \<in> {DeploymentMissing, DeploymentAlreadyCurrent} \<and> w_fs w' = w_fs w \<or>
    (\<exists>old text patched w1 cfg cfg' x y. w_fs w p = Some old \<and> from_utf8 (i_content old) = Some text \<and>
       toml_from_str T text = Inr cfg \<and> migrate_deployment_toml_text text = Some patched \<and>
       toml_from_str T patched = Inr cfg' \<and> dc_schema_version cfg' = DEPLOYMENT_SCHEMA_VERSION \<and>
       to_value cfg = Inr x \<and> to_value cfg' = Inr y \<and>
       obj_remove x ''schema_version'' = obj_remove y ''schema_version'' \<and>
       w_fs w1 = w_fs w \<and> replace_deployment dbg p patched w1 = (Inr out, w'))" (is "?kept \<or> ?replaced")
proof (cases "\<exists>w0. path_exists p w = (Inr False :: CompatError + bool, w0)")
  case True
  then have ?kept
    using assms path_exists_result(1) [of p w]
    by (auto simp: migrate_deployment_toml_def bind_io_eq_Inr return_io_eq_Inr)
  then show ?thesis ..
next
  case False
  note elims = bind_io_eq_Inr [of "path_exists _"] bind_io_eq_Inr [of "compat_io _"] bind_io_eq_Inr [of "lift_r _"]
    compat_io_eq_Inr lift_r_eq_Inr fail_io_neq_Inr map_err_eq_Inr return_io_eq_Inr
  from assms False obtain w0 w1 content cfg where w0: "path_exists p w = (Inr True :: CompatError + bool, w0)"
    and w1: "read_to_string p w0 = (Inr content, w1)" and cfg: "toml_from_str T content = Inr cfg"
    and rest: "out = DeploymentAlreadyCurrent \<and> w' = w1 \<or>
      (\<exists>patched cfg' x y. migrate_deployment_toml_text content = Some patched \<and> toml_from_str T patched = Inr cfg' \<and>
        dc_schema_version cfg' = DEPLOYMENT_SCHEMA_VERSION \<and> to_value cfg = Inr x \<and> to_value cfg' = Inr y \<and>
        obj_remove x ''schema_version'' = obj_remove y ''schema_version'' \<and> replace_deployment dbg p patched w1 = (Inr out, w'))"
    by (auto simp: migrate_deployment_toml_def elims split: if_splits option.splits)
  have "w_fs w1 = w_fs w \<and> (\<exists>old. w_fs w p = Some old \<and> from_utf8 (i_content old) = Some content)"
    using read_to_string_result [OF w1] frame_step [OF frame_path_exists [of "{}" p] w0] by auto
  with rest cfg show ?thesis
    by auto
qed

subsection \<open>Properties\<close>

text \<open>C33. Migrating the deployment file keeps every setting and never loses the file: unless the
  migration reports that it was performed, the file is exactly what it was, and if it was
  performed, the new text is the old one behind a version line, it parses to the old configuration
  at the current version, the old bytes are in the backup, and migrating again changes nothing.\<close>

theorem migrate_deployment_preserves:
  assumes "json_projection_ok to_value" and "p \<noteq> []" and "migrate_deployment_toml T to_value dbg p w = (r, w')"
  shows "case r of
      Inr (DeploymentMigrated b) \<Rightarrow>
        \<exists>old text cfg m1 m2. w_fs w p = Some old \<and> from_utf8 (i_content old) = Some text \<and>
          toml_from_str T text = Inr cfg \<and>
          toml_from_str T (''schema_version = 1'' @ CHR 0x0A # text) = Inr (cfg\<lparr>dc_schema_version := DEPLOYMENT_SCHEMA_VERSION\<rparr>) \<and>
          migrate_deployment_toml_text (''schema_version = 1'' @ CHR 0x0A # text) = None \<and>
          holds_data (as_bytes (''schema_version = 1'' @ CHR 0x0A # text)) m1 (w_fs w' p) \<and>
          holds_data (i_content old) m2 (w_fs w' b)
    | _ \<Rightarrow> w_fs w' p = w_fs w p"
proof (cases r)
  case (Inl e)
  with migrate_deployment_fails [OF assms(2), of T to_value dbg] assms(3) show ?thesis
    unfolding keeps_on_error_def by auto
next
  case (Inr out)
  from migrate_deployment_succeeds [OF assms(3) [unfolded Inr]] show ?thesis
  proof (elim disjE exE conjE)
    fix old content patched w1 cfg cfg' x y
    assume m: "w_fs w p = Some old" "from_utf8 (i_content old) = Some content" "toml_from_str T content = Inr cfg"
      "migrate_deployment_toml_text content = Some patched" "toml_from_str T patched = Inr cfg'"
      "dc_schema_version cfg' = DEPLOYMENT_SCHEMA_VERSION" "to_value cfg = Inr x" "to_value cfg' = Inr y"
      "obj_remove x ''schema_version'' = obj_remove y ''schema_version''" "w_fs w1 = w_fs w"
      "replace_deployment dbg p patched w1 = (Inr out, w')"
    have "cfg' = cfg\<lparr>dc_schema_version := DEPLOYMENT_SCHEMA_VERSION\<rparr>"
      using settings_agree [OF assms(1) m(7-9)] m(6) by simp
    with m(1-5,10) backup_and_write [OF m(11) assms(2)] migrate_text_idempotent [OF m(4)] patched_text [OF m(4)] Inr
    show ?thesis
      by auto
  qed (use Inr in auto)
qed

definition demo_raw :: "u32 option \<Rightarrow> raw_deployment" where
  "demo_raw v =
     \<lparr>rw_schema_version = v, rw_public_host = ''vpn.example'', rw_subscription_host = ''sub.example'',
      rw_reality_listen_port = 443, rw_handshake_server = ''www.example'', rw_handshake_port = None,
      rw_hysteria_listen_port = 8443, rw_up_mbps = None, rw_down_mbps = None, rw_subscription_listen_port = 9100,
      rw_public_port = None, rw_udp_probe = None, rw_state_dir = None, rw_singbox_binary = None\<rparr>"

definition demo_toml :: toml where
  "demo_toml text =
     (if text = ''a'' then Inr (demo_raw None)
      else if text = ''schema_version = 1'' @ CHR 0x0A # ''a'' then Inr (demo_raw (Some 1))
      else Inl ''unexpected'')"

definition demo_to_value :: "DeploymentConfig \<Rightarrow> string + Value" where
  "demo_to_value cfg =
     (if cfg\<lparr>dc_schema_version := 0\<rparr> = deserialize_deployment (demo_raw None)
      then Inr (VObject [(''schema_version'', json_u32 (dc_schema_version cfg)), (''public_host'', VString (dc_public_host cfg))])
      else Inl [])"

lemma demo_to_value_ok: "json_projection_ok demo_to_value"
  unfolding json_projection_ok_def demo_to_value_def by (auto split: if_splits)

definition demo_migrated :: "(CompatError + DeploymentMigrationOutcome) \<times> world" where
  "demo_migrated = migrate_deployment_toml demo_toml demo_to_value (\<lambda>_. []) [''d'', ''users.json'']
     (store_world (Some (as_bytes ''a'')))"

theorem migrate_deployment_preserves_witness:
  "\<exists>b old text cfg. fst demo_migrated = Inr (DeploymentMigrated b) \<and>
     w_fs (store_world (Some (as_bytes ''a''))) [''d'', ''users.json''] = Some old \<and> from_utf8 (i_content old) = Some text \<and>
     toml_from_str demo_toml (''schema_version = 1'' @ CHR 0x0A # text) = Inr (cfg\<lparr>dc_schema_version := 1\<rparr>)"
proof -
  have "fst demo_migrated = Inr (DeploymentMigrated [''d'', ''users.json.pre-migration-0.bak''])"
    by code_simp
  then have run: "demo_migrated = (Inr (DeploymentMigrated [''d'', ''users.json.pre-migration-0.bak'']), snd demo_migrated)"
    by (metis prod.collapse)
  from migrate_deployment_preserves [OF demo_to_value_ok _ run [unfolded demo_migrated_def]]
    \<open>fst demo_migrated = _\<close> show ?thesis
    by (auto simp: DEPLOYMENT_SCHEMA_VERSION_def)
qed

end
