(* ===== verification/Compat_Server.thy ===== *)
theory Compat_Server
  imports Compat_Render Compat_Store
begin

unbundle bit_operations_syntax

text \<open>
  The server side of the compatibility domain, \<^verbatim>\<open>crates/compat-config/src/server.rs\<close>: the
  sing-box configuration rendered from the users, and the write-validate-swap that installs
  it. The sing-box binary is a parameter that judges the content of the file it is given.
\<close>

subsection \<open>The configuration\<close>

record ServerPorts =
  sp_vless_reality_port :: u16
  sp_hysteria2_port :: u16

definition vless_server_user :: "CompatUser \<Rightarrow> Value" where
  "vless_server_user u = VObject
     [(''name'', VString (cu_id u)), (''uuid'', VString (cu_vless_uuid u)),
      (''flow'', VString ''xtls-rprx-vision'')]"

definition hysteria_server_user :: "CompatUser \<Rightarrow> Value" where
  "hysteria_server_user u = VObject
     [(''name'', VString (cu_id u)), (''password'', VString (expose (cu_hysteria2_password u)))]"

definition hysteria_inbound :: "CompatUser list \<Rightarrow> Hysteria2ServerParams \<Rightarrow> ServerPorts \<Rightarrow> Value" where
  "hysteria_inbound active hysteria ports =
     (let inbound = VObject
        [(''type'', VString ''hysteria2''), (''tag'', VString ''hysteria2-in''), (''listen'', VString ''::''),
         (''listen_port'', json_u16 (sp_hysteria2_port ports)),
         (''users'', VArray (map hysteria_server_user active)),
         (''tls'', VObject
            [(''enabled'', VBool True), (''certificate_path'', VString (hs_tls_cert_path hysteria)),
             (''key_path'', VString (hs_tls_key_path hysteria))])];
          inbound = (case hs_masquerade_dir_path hysteria of
             Some masq_path \<Rightarrow> obj_set inbound ''masquerade''
               (VObject [(''type'', VString ''file''), (''directory'', VString masq_path)])
           | None \<Rightarrow> inbound);
          inbound = (case hs_obfs_password hysteria of
             Some obfs_pw \<Rightarrow> obj_set inbound ''obfs''
               (VObject [(''type'', VString ''salamander''), (''password'', VString (expose obfs_pw))])
           | None \<Rightarrow> inbound)
      in case (hs_up_mbps hysteria, hs_down_mbps hysteria) of
           (Some up, Some down) \<Rightarrow>
             obj_set (obj_set (obj_set inbound ''up_mbps'' (json_u32 up)) ''down_mbps'' (json_u32 down))
               ''ignore_client_bandwidth'' (VBool True)
         | _ \<Rightarrow> inbound)"

definition vless_inbound :: "CompatUser list \<Rightarrow> RealityServerParams \<Rightarrow> ServerPorts \<Rightarrow> Value" where
  "vless_inbound active reality ports = VObject
     [(''type'', VString ''vless''), (''tag'', VString ''vless-reality-in''), (''listen'', VString ''::''),
      (''listen_port'', json_u16 (sp_vless_reality_port ports)),
      (''users'', VArray (map vless_server_user active)),
      (''tls'', VObject
         [(''enabled'', VBool True), (''server_name'', VString (rs_handshake_server reality)),
          (''reality'', VObject
             [(''enabled'', VBool True),
              (''handshake'', VObject
                 [(''server'', VString (rs_handshake_server reality)),
                  (''server_port'', json_u16 (rs_handshake_port reality))]),
              (''private_key'', VString (expose (rs_private_key_hex reality))),
              (''short_id'', VArray (map VString (rs_short_ids reality)))])])]"

definition render_singbox_server_config ::
    "CompatUser list \<Rightarrow> RealityServerParams \<Rightarrow> Hysteria2ServerParams \<Rightarrow> ServerPorts \<Rightarrow> i64 \<Rightarrow> Value" where
  "render_singbox_server_config users reality hysteria ports now_unix =
     (let active = filter (\<lambda>u. is_active u now_unix) users in
      VObject
        [(''log'', VObject [(''level'', VString ''warn''), (''timestamp'', VBool True)]),
         (''inbounds'', VArray [vless_inbound active reality ports, hysteria_inbound active hysteria ports]),
         (''outbounds'', VArray [VObject [(''type'', VString ''direct''), (''tag'', VString ''direct'')]])])"

subsection \<open>Installing a configuration\<close>

text \<open>\<^verbatim>\<open>std::fs::copy\<close>: the copy takes the permission bits of the source.\<close>

definition fs_copy :: "path \<Rightarrow> path \<Rightarrow> unit io" where
  "fs_copy src dst =
     bind_io (metadata src) (\<lambda>m.
     bind_io (fs_read src) (\<lambda>bytes.
     bind_io (open_truncate dst (i_mode m)) (\<lambda>_.
     bind_io (set_permissions dst (i_mode m)) (\<lambda>_.
     write_all dst bytes))))"

text \<open>\<open>sing_box\<close> runs \<^verbatim>\<open>sing-box check\<close> on a file with this content: starting it may fail, or it
  ends with a status and its error output.\<close>

definition SingBoxBackend_validate ::
    "(u8 list option \<Rightarrow> io_error + bool \<times> string) \<Rightarrow> path \<Rightarrow> world \<Rightarrow> (CompatError + unit) \<times> world" where
  "SingBoxBackend_validate sing_box config_path w =
     (case sing_box (map_option i_content (w_fs w config_path)) of
        Inl e \<Rightarrow> (Inl (CompatIo (''failed to run sing-box check: '' @ io_detail e)), w)
      | Inr (success, stderr) \<Rightarrow>
          (if success then (Inr (), w) else (Inl (ConfigValidationFailed stderr), w)))"

definition config_backup_path :: "path \<Rightarrow> path" where
  "config_backup_path target = path_set_file_name target (file_name_or ''config.json'' target @ ''.bak'')"

definition apply_config_atomically ::
    "(Value \<Rightarrow> string + u8 list) \<Rightarrow> (path \<Rightarrow> string) \<Rightarrow> Value \<Rightarrow> path \<Rightarrow>
     (path \<Rightarrow> world \<Rightarrow> (CompatError + unit) \<times> world) \<Rightarrow> world \<Rightarrow> (CompatError + unit) \<times> world" where
  "apply_config_atomically to_vec_pretty dbg new_config target validate_fn =
     bind_io (create_parent target) (\<lambda>_.
     bind_io (get_world w_pid) (\<lambda>pid.
     let tmp_path = tmp_path_for ''config.json'' target pid
     in bind_io (lift_r (map_err CompatParse (to_vec_pretty new_config))) (\<lambda>bytes.
        bind_io (write_file_mode tmp_path bytes mode_0640) (\<lambda>_.
        try_io (validate_fn tmp_path) (\<lambda>checked.
        case checked of
          Inl e \<Rightarrow> bind_io (ignore_io (remove_file tmp_path)) (\<lambda>_. fail_io e)
        | Inr _ \<Rightarrow>
            bind_io (path_exists target) (\<lambda>present.
            bind_io (if present
                     then bind_io (compat_io (fs_copy target (config_backup_path target))) (\<lambda>_.
                          compat_io (set_permissions (config_backup_path target) mode_0640))
                     else return_io ()) (\<lambda>_.
            bind_io (preserve_ownership_before_rename dbg tmp_path target) (\<lambda>_.
            bind_io (compat_io (fs_rename tmp_path target)) (\<lambda>_.
            fsync_parent_dir target)))))))))"

definition SingBoxBackend_apply ::
    "(Value \<Rightarrow> string + u8 list) \<Rightarrow> (path \<Rightarrow> string) \<Rightarrow> (u8 list option \<Rightarrow> io_error + bool \<times> string) \<Rightarrow>
     Value \<Rightarrow> path \<Rightarrow> world \<Rightarrow> (CompatError + unit) \<times> world" where
  "SingBoxBackend_apply to_vec_pretty dbg sing_box new_config target =
     apply_config_atomically to_vec_pretty dbg new_config target (SingBoxBackend_validate sing_box)"

subsection \<open>Paths\<close>

lemma config_backup_path_neq:
  assumes "target \<noteq> []"
  shows "config_backup_path target \<noteq> target" "config_backup_path target \<noteq> tmp_path_for ''config.json'' target pid"
proof -
  show "config_backup_path target \<noteq> tmp_path_for ''config.json'' target pid"
    using assms by (simp add: config_backup_path_def tmp_path_for_def path_set_file_name_def)
  have "rust_str (''config.json'' @ ''.bak'')"
    by (intro rust_str_ascii) simp
  moreover have "last target = file_name_or ''config.json'' target @ ''.bak''" if "config_backup_path target = target"
    using that assms by (metis config_backup_path_def last_snoc path_set_file_name_def)
  ultimately show "config_backup_path target \<noteq> target"
    using assms by (cases "rust_str (last target)") (auto simp: file_name_or_def path_file_name_def)
qed

subsection \<open>Runs without faults\<close>

definition faultless :: "(world \<Rightarrow> ('e + 'a) \<times> world) \<Rightarrow> bool" where
  "faultless m \<longleftrightarrow> (\<forall>w. w_faults w = [] \<longrightarrow> w_faults (snd (m w)) = [])"

named_theorems faultless_intros \<open>operations that add no faults\<close>

lemma faultlessD: "faultless m \<Longrightarrow> m w = (r, w') \<Longrightarrow> w_faults w = [] \<Longrightarrow> w_faults w' = []"
  unfolding faultless_def by (metis snd_conv)

lemma faultless_bind [faultless_intros]:
  "faultless m \<Longrightarrow> (\<And>x. faultless (f x)) \<Longrightarrow> faultless (bind_io m f)"
  unfolding faultless_def bind_io_def by (auto split: prod.splits sum.splits)

lemma faultless_compat_io [faultless_intros]: "faultless m \<Longrightarrow> faultless (compat_io m)"
  unfolding faultless_def compat_io_def map_err_io_def by (auto split: prod.splits sum.splits)

lemma mkdirs_faults: "w_faults (snd (mkdirs ps w)) = w_faults w"
  by (induction ps w rule: mkdirs.induct) (auto split: option.split)

lemma append_bytes_faults: "w_faults (append_bytes p bs w) = w_faults w"
  by (simp add: append_bytes_def split: option.split)

lemma faultless_prims [faultless_intros]:
  "faultless (return_io x)" "faultless (lift_r r)" "faultless (get_world h)" "faultless (open_truncate p mode)"
  "faultless (write_all p bs)" "faultless (sync_all p)" "faultless (create_dir_all p)" "faultless (metadata p)"
  by (auto simp: faultless_def return_io_def lift_r_def get_world_def open_truncate_def write_all_def sync_all_def
      create_dir_all_def metadata_def prim_def mkdirs_faults append_bytes_faults split: option.splits)

lemma faultless_write_file_mode [faultless_intros]: "faultless (write_file_mode p bs mode)"
  unfolding write_file_mode_def by (intro faultless_intros)

lemma faultless_create_parent [faultless_intros]: "faultless (create_parent p)"
  unfolding create_parent_def by (auto intro!: faultless_intros split: option.split)

subsection \<open>Copying\<close>

lemma frame_fs_copy [frame_intros]: "dst \<in> S \<Longrightarrow> frame S (fs_copy src dst)"
  unfolding fs_copy_def by (auto intro!: frame_intros)

lemma metadata_inv:
  "metadata p w = (Inr m, w') \<Longrightarrow> w_fs w p = Some m \<and> w_fs w' = w_fs w"
  by (auto simp: metadata_def prim_def ok_or_def split: list.splits fault.splits option.splits)

lemma set_permissions_data:
  assumes "set_permissions p mode w = (Inr (), w')" and "holds_data bs m (w_fs w p)"
  shows "holds_data bs (Some mode) (w_fs w' p)"
  using assms
  by (auto simp: set_permissions_def prim_def holds_data_def split: list.splits fault.splits option.splits)

lemma fs_copy_data:
  assumes "fs_copy src dst w = (Inr (), w')" and "src \<noteq> dst"
  shows "\<exists>old m. w_fs w src = Some old \<and> holds_data (i_content old) m (w_fs w' dst)"
proof -
  from assms(1) obtain m w1 bytes w2 w3 w4 where w1: "metadata src w = (Inr m, w1)"
    and w2: "fs_read src w1 = (Inr bytes, w2)" and w3: "open_truncate dst (i_mode m) w2 = (Inr (), w3)"
    and w4: "set_permissions dst (i_mode m) w3 = (Inr (), w4)" and w': "write_all dst bytes w4 = (Inr (), w')"
    by (auto simp: fs_copy_def io_simps)
  have src: "w_fs w src = Some m" "i_content m = bytes"
    using metadata_inv [OF w1] fs_read_result(1) [OF w2] by auto
  have "holds_data [] None (w_fs w3 dst)"
    using open_truncate_result [OF w3] by (auto simp: holds_data_def split: option.splits)
  from set_permissions_data [OF w4 this] obtain n where "w_fs w4 dst = Some n" "\<not> i_dir n" "i_content n = []"
    by (auto simp: holds_data_def split: option.splits)
  with write_all_result [OF w'] src show ?thesis
    by (auto simp: holds_data_def intro: exI [of _ None])
qed

subsection \<open>Installation\<close>

definition backup_config :: "path \<Rightarrow> world \<Rightarrow> (CompatError + unit) \<times> world" where
  "backup_config target =
     bind_io (path_exists target) (\<lambda>present.
     if present
     then bind_io (compat_io (fs_copy target (config_backup_path target))) (\<lambda>_.
          compat_io (set_permissions (config_backup_path target) mode_0640))
     else return_io ())"

definition install_validated ::
    "(path \<Rightarrow> string) \<Rightarrow> path \<Rightarrow> path \<Rightarrow> CompatError + unit \<Rightarrow> world \<Rightarrow> (CompatError + unit) \<times> world" where
  "install_validated dbg tmp target checked =
     (case checked of
        Inl e \<Rightarrow> bind_io (ignore_io (remove_file tmp)) (\<lambda>_. fail_io e)
      | Inr _ \<Rightarrow> bind_io (backup_config target) (\<lambda>_. commit_file dbg tmp target))"

lemma bind_io_assoc: "bind_io (bind_io m f) g = bind_io m (\<lambda>x. bind_io (f x) g)"
  by (auto simp: bind_io_def fun_eq_iff split: prod.splits sum.splits)

lemma apply_as_install:
  "SingBoxBackend_apply to_vec dbg sing_box cfg target =
     bind_io (create_parent target) (\<lambda>_.
     bind_io (get_world w_pid) (\<lambda>pid.
     bind_io (lift_r (map_err CompatParse (to_vec cfg))) (\<lambda>bytes.
     bind_io (write_file_mode (tmp_path_for ''config.json'' target pid) bytes mode_0640) (\<lambda>_.
     try_io (SingBoxBackend_validate sing_box (tmp_path_for ''config.json'' target pid))
       (install_validated dbg (tmp_path_for ''config.json'' target pid) target)))))"
  unfolding SingBoxBackend_apply_def apply_config_atomically_def install_validated_def [abs_def]
    backup_config_def commit_file_def Let_def bind_io_assoc ..

lemma frame_backup_config [frame_intros]: "config_backup_path target \<in> S \<Longrightarrow> frame S (backup_config target)"
  unfolding backup_config_def by (auto intro!: frame_intros)

lemma validate_world: "snd (SingBoxBackend_validate sing_box p w) = w"
  by (auto simp: SingBoxBackend_validate_def split: sum.split)

lemma frame_validate [frame_intros]: "frame S (SingBoxBackend_validate sing_box p)"
  by (simp add: frame_def validate_world)

lemma keeps_on_error_try:
  assumes "keeps_path p m" and "\<And>r. keeps_on_error p (f r)"
  shows "keeps_on_error p (try_io m f)"
  using assms unfolding keeps_on_error_def keeps_path_def
  by (auto simp: try_io_eq) (metis snd_conv)

lemma apply_keeps_on_error:
  assumes "target \<noteq> []"
  shows "keeps_on_error target (SingBoxBackend_apply to_vec dbg sing_box cfg target)"
proof -
  note bk = config_backup_path_neq(1) [OF assms] and tp = tmp_path_neq [OF assms, of "''config.json''"]
  have commit: "keeps_on_error target (commit_file dbg (tmp_path_for ''config.json'' target pid) target)" for pid
    unfolding keeps_on_error_def using commit_file_fails tp by blast
  have inst: "keeps_on_error target (install_validated dbg (tmp_path_for ''config.json'' target pid) target r)" for pid r
    unfolding install_validated_def using bk tp tp [THEN not_sym]
    by (auto intro!: commit keeps_on_error_bind keeps_on_error_leaf
        keeps_path_frame [of "{tmp_path_for ''config.json'' target pid}" "ignore_io _"]
        keeps_path_frame [of "{config_backup_path target}" "backup_config _"] frame_intros split: sum.split)
  show ?thesis
    unfolding apply_as_install using tp [THEN not_sym]
    by (intro keeps_on_error_bind keeps_on_error_try inst
        keeps_path_frame [OF frame_create_parent [OF subset_refl] parent_prefixes(1) [OF assms]]
        keeps_path_frame [of "{}" "get_world _"] keeps_path_frame [of "{}" "lift_r _"]
        keeps_path_frame [of "{}" "SingBoxBackend_validate _ _"]
        keeps_path_frame [OF frame_write_file_mode [OF singletonI]])
      (auto intro: frame_intros)
qed

lemma validate_accepts:
  assumes "SingBoxBackend_validate sing_box p w = (Inr (), w')" and "holds_data bs m (w_fs w p)"
  shows "w' = w \<and> (\<exists>msg. sing_box (Some bs) = Inr (True, msg))"
  using assms by (auto simp: SingBoxBackend_validate_def holds_data_def split: sum.splits if_splits option.splits)

lemma path_exists_faultless:
  "path_exists p w = (Inr b, w') \<Longrightarrow> w_fs w' = w_fs w \<and> (w_faults w = [] \<longrightarrow> b = (w_fs w p \<noteq> None))"
  by (auto simp: path_exists_def try_io_def return_io_def prim_def split: list.splits fault.splits)

lemma backup_config_data:
  assumes "backup_config target w = (Inr (), w')" and "w_faults w = []" "w_fs w target = Some old" "target \<noteq> []"
  shows "holds_data (i_content old) (Some mode_0640) (w_fs w' (config_backup_path target))"
proof -
  from assms(1-3) obtain w1 w2 where "w_fs w1 = w_fs w"
    and copy: "fs_copy target (config_backup_path target) w1 = (Inr (), w2)"
    and perm: "set_permissions (config_backup_path target) mode_0640 w2 = (Inr (), w')"
    by (auto simp: backup_config_def io_simps dest!: path_exists_faultless split: if_splits)
  with fs_copy_data [OF copy] config_backup_path_neq(1) [OF assms(4)] assms(3)
  obtain m where "holds_data (i_content old) m (w_fs w2 (config_backup_path target))"
    by auto
  with perm show ?thesis
    by (rule set_permissions_data)
qed

lemma apply_succeedsE:
  assumes "SingBoxBackend_apply to_vec dbg sing_box cfg target w = (Inr (), w')" and "target \<noteq> []"
  obtains tmp bytes mode msg w1 w2 w3 w4 where "tmp \<noteq> target" "config_backup_path target \<notin> {tmp, target}"
    "to_vec cfg = Inr bytes" "sing_box (Some bytes) = Inr (True, msg)"
    "create_parent target w = (Inr () :: CompatError + unit, w1)"
    "write_file_mode tmp bytes mode_0640 w1 = (Inr () :: CompatError + unit, w2)" "holds_data bytes mode (w_fs w2 tmp)"
    "backup_config target w2 = (Inr (), w3)" "commit_file dbg tmp target w3 = (Inr (), w')"
proof -
  from assms(1) obtain bytes pid w1 w2 r w4 where run: "to_vec cfg = Inr bytes"
      "create_parent target w = (Inr () :: CompatError + unit, w1)"
      "write_file_mode (tmp_path_for ''config.json'' target pid) bytes mode_0640 w1 = (Inr () :: CompatError + unit, w2)"
    and validate: "SingBoxBackend_validate sing_box (tmp_path_for ''config.json'' target pid) w2 = (r, w4)"
    and inst: "install_validated dbg (tmp_path_for ''config.json'' target pid) target r w4 = (Inr (), w')"
    by (auto simp: apply_as_install io_simps get_world_def map_err_eq_Inr)
  obtain mode where data: "holds_data bytes mode (w_fs w2 (tmp_path_for ''config.json'' target pid))"
    using write_file_mode_data [OF run(3)] by blast
  from inst obtain w3 where r: "r = Inr ()" "backup_config target w4 = (Inr (), w3)"
      "commit_file dbg (tmp_path_for ''config.json'' target pid) target w3 = (Inr (), w')"
    by (cases r) (auto simp: install_validated_def io_simps)
  with validate_accepts [of sing_box _ w2 w4 bytes mode] validate data obtain msg where
    "w4 = w2" "sing_box (Some bytes) = Inr (True, msg)"
    by blast
  with r run data config_backup_path_neq [OF assms(2)] tmp_path_neq [OF assms(2), of "''config.json''"] show ?thesis
    by (intro that [of "tmp_path_for ''config.json'' target pid"]) auto
qed

lemma apply_installs_validated:
  assumes "SingBoxBackend_apply to_vec dbg sing_box cfg target w = (Inr (), w')" and "target \<noteq> []"
  shows "\<exists>bytes mode msg. to_vec cfg = Inr bytes \<and> sing_box (Some bytes) = Inr (True, msg) \<and>
      holds_data bytes mode (w_fs w' target)"
  using assms
proof (rule apply_succeedsE)
  fix tmp bytes mode msg w2 w3
  assume tmp: "config_backup_path target \<notin> {tmp, target}" and "to_vec cfg = Inr bytes" "sing_box (Some bytes) = Inr (True, msg)"
    and data: "holds_data bytes mode (w_fs w2 tmp)"
    and bk: "backup_config target w2 = (Inr (), w3)" and commit: "commit_file dbg tmp target w3 = (Inr (), w')"
  moreover have "w_fs w3 tmp = w_fs w2 tmp"
    using frame_step [OF frame_backup_config [OF singletonI] bk] tmp by auto
  with commit data have "holds_data bytes mode (w_fs w' target)"
    by (auto intro: commit_file_succeeds)
  ultimately show ?thesis
    by blast
qed

lemma apply_keeps_backup:
  assumes "SingBoxBackend_apply to_vec dbg sing_box cfg target w = (Inr (), w')" and target: "target \<noteq> []"
    and ok: "w_faults w = []" "w_fs w target = Some old"
  shows "holds_data (i_content old) (Some mode_0640) (w_fs w' (config_backup_path target))"
  using assms(1,2)
proof (rule apply_succeedsE)
  fix tmp bytes mode w1 w2 w3
  assume tmp: "tmp \<noteq> target" "config_backup_path target \<notin> {tmp, target}"
    and w1: "create_parent target w = (Inr () :: CompatError + unit, w1)"
    and w2: "write_file_mode tmp bytes mode_0640 w1 = (Inr () :: CompatError + unit, w2)"
    and bk: "backup_config target w2 = (Inr (), w3)" and commit: "commit_file dbg tmp target w3 = (Inr (), w')"
  have "w_faults w2 = []"
    using ok(1) w1 w2 faultlessD faultless_create_parent faultless_write_file_mode by metis
  moreover have "w_fs w2 target = Some old"
    using ok(2) frame_step [OF frame_create_parent [OF subset_refl] w1 parent_prefixes(1) [OF target]]
      frame_step [OF frame_write_file_mode [OF singletonI] w2, of target] tmp by auto
  ultimately have "holds_data (i_content old) (Some mode_0640) (w_fs w3 (config_backup_path target))"
    using bk target by (intro backup_config_data)
  moreover have "w_fs w' (config_backup_path target) = w_fs w3 (config_backup_path target)"
    using frame_step [OF frame_commit [OF subset_refl] commit] tmp by blast
  ultimately show ?thesis
    by simp
qed

subsection \<open>What a server accepts\<close>

text \<open>The parameters the two sides of a tunnel have to agree on, read out of the configurations:
  an outbound is served by an inbound of its protocol, on its port, that lists its credential
  and shares its obfuscation or its REALITY key, short id and server name.\<close>

fun field :: "Value \<Rightarrow> string list \<Rightarrow> Value option" where
  "field v [] = Some v"
| "field v (k # ks) = (case obj_get v k of Some v' \<Rightarrow> field v' ks | None \<Rightarrow> None)"

definition elements :: "Value option \<Rightarrow> Value list" where
  "elements v = (case v of Some (VArray vs) \<Rightarrow> vs | _ \<Rightarrow> [])"

definition serves_vless :: "(string \<Rightarrow> string + string) \<Rightarrow> Value \<Rightarrow> Value \<Rightarrow> bool" where
  "serves_vless derive ib ob \<longleftrightarrow>
     field ib [''type''] = Some (VString ''vless'') \<and> field ob [''type''] = Some (VString ''vless'') \<and>
     field ib [''listen_port''] = field ob [''server_port''] \<and>
     (\<exists>u\<in>set (elements (field ib [''users''])).
        field u [''uuid''] = field ob [''uuid''] \<and> field u [''flow''] = field ob [''flow'']) \<and>
     field ib [''tls'', ''server_name''] = field ob [''tls'', ''server_name''] \<and>
     field ob [''tls'', ''reality'', ''short_id''] \<in>
       Some ` set (elements (field ib [''tls'', ''reality'', ''short_id''])) \<and>
     (case (field ib [''tls'', ''reality'', ''private_key''], field ob [''tls'', ''reality'', ''public_key'']) of
        (Some (VString sk), Some (VString pk)) \<Rightarrow> derive sk = Inr pk
      | _ \<Rightarrow> False)"

definition serves_hysteria2 :: "Value \<Rightarrow> Value \<Rightarrow> bool" where
  "serves_hysteria2 ib ob \<longleftrightarrow>
     field ib [''type''] = Some (VString ''hysteria2'') \<and> field ob [''type''] = Some (VString ''hysteria2'') \<and>
     field ib [''listen_port''] = field ob [''server_port''] \<and>
     (\<exists>u\<in>set (elements (field ib [''users''])). field u [''password''] = field ob [''password'']) \<and>
     field ib [''obfs''] = field ob [''obfs'']"

definition served :: "(string \<Rightarrow> string + string) \<Rightarrow> Value \<Rightarrow> Value \<Rightarrow> bool" where
  "served derive config ob \<longleftrightarrow>
     (\<exists>ib\<in>set (elements (field config [''inbounds''])). serves_vless derive ib ob \<or> serves_hysteria2 ib ob)"

lemma hysteria_inbound_fields:
  "field (hysteria_inbound active hy ports) [''type''] = Some (VString ''hysteria2'')"
  "field (hysteria_inbound active hy ports) [''listen_port''] = Some (json_u16 (sp_hysteria2_port ports))"
  "field (hysteria_inbound active hy ports) [''users''] = Some (VArray (map hysteria_server_user active))"
  "field (hysteria_inbound active hy ports) [''obfs''] = map_option (\<lambda>pw. VObject [(''type'', VString ''salamander''),
     (''password'', VString (expose pw))]) (hs_obfs_password hy)"
  by (auto simp: hysteria_inbound_def Let_def split: option.split)

lemma vless_inbound_fields:
  "field (vless_inbound active re ports) [''type''] = Some (VString ''vless'')"
  "field (vless_inbound active re ports) [''listen_port''] = Some (json_u16 (sp_vless_reality_port ports))"
  "field (vless_inbound active re ports) [''users''] = Some (VArray (map vless_server_user active))"
  "field (vless_inbound active re ports) [''tls'', ''server_name''] = Some (VString (rs_handshake_server re))"
  "field (vless_inbound active re ports) [''tls'', ''reality'', ''private_key''] = Some (VString (expose (rs_private_key_hex re)))"
  "field (vless_inbound active re ports) [''tls'', ''reality'', ''short_id''] = Some (VArray (map VString (rs_short_ids re)))"
  by (simp_all add: vless_inbound_def)

lemma server_inbounds:
  "elements (field (render_singbox_server_config users re hy ports now) [''inbounds'']) =
     [vless_inbound (filter (\<lambda>u. is_active u now) users) re ports,
      hysteria_inbound (filter (\<lambda>u. is_active u now) users) hy ports]"
  by (simp add: render_singbox_server_config_def elements_def Let_def)

definition params_agree ::
    "(string \<Rightarrow> string + string) \<Rightarrow> RealityServerParams \<Rightarrow> Hysteria2ServerParams \<Rightarrow> ServerPorts \<Rightarrow> CompatEndpoint \<Rightarrow> bool" where
  "params_agree derive re hy ports ep \<longleftrightarrow>
     (case ce_public_parameters ep of
        RealityParams pk sid _ \<Rightarrow> ce_port ep = sp_vless_reality_port ports \<and> sni_of ep = rs_handshake_server re \<and>
          sid \<in> set (rs_short_ids re) \<and> derive (expose (rs_private_key_hex re)) = Inr pk
      | Hysteria2Params obfs \<Rightarrow> ce_port ep = sp_hysteria2_port ports \<and> obfs = map_option expose (hs_obfs_password hy))"

definition same_credential :: "CompatEndpoint \<Rightarrow> CompatUser \<Rightarrow> CompatUser \<Rightarrow> bool" where
  "same_credential ep u v \<longleftrightarrow>
     (case ce_public_parameters ep of
        RealityParams _ _ _ \<Rightarrow> cu_vless_uuid u = cu_vless_uuid v
      | Hysteria2Params _ \<Rightarrow> expose (cu_hysteria2_password u) = expose (cu_hysteria2_password v))"

lemma json_u16_inject [simp]: "json_u16 a = json_u16 b \<longleftrightarrow> a = b"
  by (simp add: json_u16_def word_uint_eq_iff)

lemma server_user_fields:
  "field (vless_server_user u) [''uuid''] = Some (VString (cu_vless_uuid u))"
  "field (vless_server_user u) [''flow''] = Some (VString ''xtls-rprx-vision'')"
  "field (hysteria_server_user u) [''password''] = Some (VString (expose (cu_hysteria2_password u)))"
  by (simp_all add: vless_server_user_def hysteria_server_user_def)

lemma reality_outbound_fields:
  assumes "ce_public_parameters ep = RealityParams pk sid fp"
  shows "field (render_outbound user ep) [''type''] = Some (VString ''vless'')"
    "field (render_outbound user ep) [''server_port''] = Some (json_u16 (ce_port ep))"
    "field (render_outbound user ep) [''uuid''] = Some (VString (cu_vless_uuid user))"
    "field (render_outbound user ep) [''flow''] = Some (VString ''xtls-rprx-vision'')"
    "field (render_outbound user ep) [''tls'', ''server_name''] = Some (VString (sni_of ep))"
    "field (render_outbound user ep) [''tls'', ''reality'', ''short_id''] = Some (VString sid)"
    "field (render_outbound user ep) [''tls'', ''reality'', ''public_key''] = Some (VString pk)"
  using assms by (simp_all add: render_outbound_def)

lemma hysteria2_outbound_fields:
  assumes "ce_public_parameters ep = Hysteria2Params obfs"
  shows "field (render_outbound user ep) [''type''] = Some (VString ''hysteria2'')"
    "field (render_outbound user ep) [''server_port''] = Some (json_u16 (ce_port ep))"
    "field (render_outbound user ep) [''password''] = Some (VString (expose (cu_hysteria2_password user)))"
    "field (render_outbound user ep) [''obfs''] = map_option (\<lambda>pw. VObject [(''type'', VString ''salamander''),
     (''password'', VString pw)]) obfs"
  using assms by (auto simp: render_outbound_def Let_def split: option.split)

lemma served_iff:
  "served derive (render_singbox_server_config users re hy ports now) (render_outbound user ep) \<longleftrightarrow>
     params_agree derive re hy ports ep \<and> (\<exists>u\<in>set users. is_active u now \<and> same_credential ep u user)"
proof (cases "ce_public_parameters ep")
  case (RealityParams pk sid fp)
  then show ?thesis
    unfolding served_def server_inbounds serves_vless_def serves_hysteria2_def
    by (auto simp del: field.simps simp: hysteria_inbound_fields vless_inbound_fields elements_def server_user_fields
        reality_outbound_fields params_agree_def same_credential_def)
next
  case (Hysteria2Params obfs)
  then show ?thesis
    unfolding served_def server_inbounds serves_vless_def serves_hysteria2_def
    by (cases obfs; cases "hs_obfs_password hy")
      (auto simp del: field.simps simp: hysteria_inbound_fields vless_inbound_fields elements_def server_user_fields
        hysteria2_outbound_fields params_agree_def same_credential_def)
qed

subsection \<open>Properties\<close>

text \<open>C22. Installing a server configuration is all or nothing and never unvalidated: on any error the
  installed file is exactly what it was; on success it holds the rendered configuration, and
  sing-box accepted exactly those bytes. When no operation failed on the way, the previous configuration is in the
  backup file, readable by owner and group only.\<close>

theorem config_install_all_or_nothing:
  assumes "target \<noteq> []" and "SingBoxBackend_apply to_vec dbg sing_box cfg target w = (r, w')"
  shows "case r of
      Inl e \<Rightarrow> w_fs w' target = w_fs w target
    | Inr _ \<Rightarrow> (\<exists>bytes mode msg. to_vec cfg = Inr bytes \<and> sing_box (Some bytes) = Inr (True, msg) \<and>
          holds_data bytes mode (w_fs w' target)) \<and>
        (\<forall>old. w_faults w = [] \<and> w_fs w target = Some old \<longrightarrow>
          holds_data (i_content old) (Some mode_0640) (w_fs w' (config_backup_path target)))"
  using assms apply_keeps_on_error [OF assms(1), of to_vec dbg sing_box cfg]
    apply_installs_validated [of to_vec dbg sing_box cfg target w w'] apply_keeps_backup [of to_vec dbg sing_box cfg target w w']
  by (auto simp: keeps_on_error_def split: sum.split)

definition demo_sing_box :: "u8 list option \<Rightarrow> io_error + bool \<times> string" where
  "demo_sing_box content = Inr (content = Some [123, 125], ''unexpected token'')"

definition demo_install :: "u8 list \<Rightarrow> (CompatError + unit) \<times> world" where
  "demo_install bytes = SingBoxBackend_apply (\<lambda>_. Inr bytes) (\<lambda>_. []) demo_sing_box (VObject []) [''d'', ''users.json'']
     (store_world (Some [2]))"

theorem config_install_all_or_nothing_witness:
  "holds_data [2] (Some mode_0640) (w_fs (snd (demo_install [123, 125])) [''d'', ''users.json.bak'']) \<and>
   fst (demo_install [0]) = Inl (ConfigValidationFailed ''unexpected token'') \<and>
   w_fs (snd (demo_install [0])) [''d'', ''users.json''] = w_fs (store_world (Some [2])) [''d'', ''users.json'']"
proof -
  have ok: "fst (demo_install [123, 125]) = Inr ()"
    by code_simp
  have bad: "fst (demo_install [0]) = Inl (ConfigValidationFailed ''unexpected token'')"
    by code_simp
  have backup: "config_backup_path [''d'', ''users.json''] = [''d'', ''users.json.bak'']"
    by code_simp
  have old: "w_fs (store_world (Some [2])) [''d'', ''users.json''] =
      Some \<lparr>i_dir = False, i_content = [2], i_mode = 416, i_uid = 0, i_gid = 7\<rparr>" "w_faults (store_world (Some [2])) = []"
    by (simp_all add: store_world_def empty_world_def)
  note run = config_install_all_or_nothing [OF _ surjective_pairing, of "[''d'', ''users.json'']" "\<lambda>_. Inr _"
      "\<lambda>_. []" demo_sing_box "VObject []" "store_world (Some [2])", folded demo_install_def]
  show ?thesis
    using run [of "[123, 125]"] run [of "[0]"] ok bad backup old by auto
qed

text \<open>C15. What the subscription gives a user is exactly what the server lets in: an outbound rendered for
  one of the standard endpoints is served by the rendered server configuration if and only
  if some user active at rendering time holds the same credential. So every active user's
  links work, both transports, and a disabled or expired user whose credentials are no
  one else's is shut out of both.\<close>

theorem subscription_matches_server:
  assumes "validate_reality_keypair b mul (expose (rs_private_key_hex re)) (rs_public_key_hex re) = Inr ()"
    and "rs_short_ids re = sid # sids"
    and "ep \<in> set (standard_endpoints host (sp_vless_reality_port ports) (sp_hysteria2_port ports)
      (trim (rs_public_key_hex re)) sid (rs_handshake_server re) (map_option expose (hs_obfs_password hy)))"
  shows "served (derive_reality_public_key b mul) (render_singbox_server_config users re hy ports now) (render_outbound user ep) \<longleftrightarrow>
    (\<exists>u\<in>set users. is_active u now \<and> same_credential ep u user)"
  unfolding served_iff
  using assms valid_keypair_derived [OF assms(1)]
  by (auto simp: standard_endpoints_def params_agree_def sni_of_def)

definition demo_base64 :: base64 where
  "demo_base64 =
     \<lparr>b64_encode = (\<lambda>bs. if bs = replicate 32 1 then ''sk'' else ''pk''),
      b64_decode = (\<lambda>s. if s = ''sk'' then Inr (replicate 32 1) else if s = ''pk'' then Inr (replicate 32 2) else Inl ''invalid'')\<rparr>"

definition demo_reality :: RealityServerParams where
  "demo_reality = \<lparr>rs_private_key_hex = SecretString ''sk'', rs_public_key_hex = ''pk'',
     rs_short_ids = [''0a1b''], rs_handshake_server = ''www.example'', rs_handshake_port = 443\<rparr>"

definition demo_hysteria :: Hysteria2ServerParams where
  "demo_hysteria = \<lparr>hs_tls_cert_path = ''c'', hs_tls_key_path = ''k'', hs_obfs_password = Some (SecretString ''ob''),
     hs_masquerade_dir_path = None, hs_up_mbps = None, hs_down_mbps = None\<rparr>"

definition demo_mul :: "u8 list \<Rightarrow> u8 list" where
  "demo_mul _ = replicate 32 2"

definition demo_ports :: ServerPorts where
  "demo_ports = \<lparr>sp_vless_reality_port = 443, sp_hysteria2_port = 8443\<rparr>"

definition demo_endpoint :: CompatEndpoint where
  "demo_endpoint = hd (standard_endpoints ''vpn.example'' (sp_vless_reality_port demo_ports) (sp_hysteria2_port demo_ports)
     (trim (rs_public_key_hex demo_reality)) ''0a1b'' (rs_handshake_server demo_reality)
     (map_option expose (hs_obfs_password demo_hysteria)))"

theorem subscription_matches_server_witness:
  "served (derive_reality_public_key demo_base64 demo_mul)
     (render_singbox_server_config [demo_user] demo_reality demo_hysteria demo_ports 999) (render_outbound demo_user demo_endpoint) \<and>
   \<not> served (derive_reality_public_key demo_base64 demo_mul)
     (render_singbox_server_config [demo_user] demo_reality demo_hysteria demo_ports 1000) (render_outbound demo_user demo_endpoint)"
proof -
  have key: "validate_reality_keypair demo_base64 demo_mul (expose (rs_private_key_hex demo_reality)) (rs_public_key_hex demo_reality) = Inr ()"
    using trim_plain [of "''sk''"] trim_plain [of "''pk''"]
    by (simp add: validate_reality_keypair_def validate_reality_public_key_shape_def derive_reality_public_key_def
        demo_reality_def demo_base64_def demo_mul_def numeral_eq_Suc plain_char_def)
  have sid: "rs_short_ids demo_reality = ''0a1b'' # []"
    by (simp add: demo_reality_def)
  have ep: "demo_endpoint \<in> set (standard_endpoints ''vpn.example'' (sp_vless_reality_port demo_ports) (sp_hysteria2_port demo_ports)
     (trim (rs_public_key_hex demo_reality)) ''0a1b'' (rs_handshake_server demo_reality)
     (map_option expose (hs_obfs_password demo_hysteria)))"
    unfolding demo_endpoint_def by (simp add: standard_endpoints_def)
  have "is_active demo_user 999" "\<not> is_active demo_user 1000"
    by (simp_all add: is_active_def demo_user_def)
  moreover have "same_credential demo_endpoint demo_user demo_user"
    by (simp add: same_credential_def split: PublicParameters.split)
  ultimately show ?thesis
    unfolding subscription_matches_server [OF key sid ep] by simp
qed

end
