(* ===== verification/Subscription_Service.thy ===== *)
theory Subscription_Service
  imports Deployment Compat_Server Rate_Limiter
begin

text \<open>
  The subscription service, \<^verbatim>\<open>services/subscription\<close>: the lookup of a user by token, the handlers,
  the response headers, the router, and the start-up that refuses unusable keys. The rate
  limiter is the one of \<open>Rate_Limiter\<close>. What axum makes of a request before the handler
  runs is an argument: the decoded token and query, or its own rejection.
\<close>

subsection \<open>Responses\<close>

record sub_response =
  sr_status :: nat
  sr_headers :: "(string \<times> string) list"
  sr_body :: string

definition text_response :: "nat \<Rightarrow> string \<Rightarrow> sub_response" where
  "text_response status body =
     \<lparr>sr_status = status, sr_headers = [(''content-type'', ''text/plain; charset=utf-8'')], sr_body = body\<rparr>"

definition typed_response :: "string \<Rightarrow> string \<Rightarrow> sub_response" where
  "typed_response content_type body =
     \<lparr>sr_status = 200, sr_headers = [(''content-type'', content_type)], sr_body = body\<rparr>"

subsection \<open>Handlers\<close>

record SubAppState =
  sa_users_file :: path
  sa_endpoints :: "CompatEndpoint list"
  sa_rate_limiter :: RateLimiter

definition find_user_by_token ::
    "(u8 list \<Rightarrow> u8 list) \<Rightarrow> hex_codec \<Rightarrow> CompatUser list \<Rightarrow> string \<Rightarrow> i64 \<Rightarrow> CompatUser option" where
  "find_user_by_token sha hx users token now_unix =
     fold (\<lambda>u found.
       let matches = verify_token sha hx token (cu_subscription_token_hash_hex u)
       in if matches \<and> is_active u now_unix then Some u else found) users None"

record SubQuery =
  sq_format :: "string option"
  sq_profile :: "string option"

text \<open>The library functions a request meets: SHA-256, hexadecimal, the JSON codecs, and the order in
  which the hash table of the limiter iterates.\<close>

record sub_env =
  se_sha :: "u8 list \<Rightarrow> u8 list"
  se_hex :: hex_codec
  se_users_json :: users_json
  se_to_string_pretty :: "Value \<Rightarrow> string + string"
  se_endpoints_to_string :: "CompatEndpoint list \<Rightarrow> string + string"
  se_value_to_string :: "Value \<Rightarrow> string"
  se_iter :: "bucket_table \<Rightarrow> bucket_table"

text \<open>The answer once the user is known; \<open>None\<close> is the panic of an unwrapped serialisation error.\<close>

definition render_subscription :: "sub_env \<Rightarrow> SubAppState \<Rightarrow> CompatUser \<Rightarrow> SubQuery \<Rightarrow> sub_response option" where
  "render_subscription E state user query =
     (let format = unwrap_or (sq_format query) ''singbox'';
          profile = unwrap_or (Option.bind (sq_profile query) SelectionProfile_parse) SelectionProfile_default
      in if format = ''singbox'' then
           (case render_singbox_client_subscription_with_profile user (sa_endpoints state) profile of
              Inr doc \<Rightarrow>
                (case se_to_string_pretty E doc of
                   Inr body \<Rightarrow> Some (typed_response ''application/json'' body)
                 | Inl _ \<Rightarrow> None)
            | Inl e \<Rightarrow> Some (text_response 500 ''render error''))
         else if format = ''uri'' \<or> format = ''hiddify'' then
           (case render_uri_list user (sa_endpoints state) of
              Inr body \<Rightarrow> Some (typed_response ''text/plain; charset=utf-8'' body)
            | Inl e \<Rightarrow> Some (text_response 500 ''render error''))
         else Some (text_response 400 ''unknown format''))"

definition get_subscription ::
    "sub_env \<Rightarrow> SubAppState \<Rightarrow> string \<Rightarrow> SubQuery \<Rightarrow> ip_addr \<Rightarrow> instant \<Rightarrow> world \<Rightarrow>
     sub_response option \<times> SubAppState \<times> world" where
  "get_subscription E state token query ip now_instant w =
     (let (allowed, limiter) = sub_allow (se_iter E) (sa_rate_limiter state) now_instant ip;
          state = state\<lparr>sa_rate_limiter := limiter\<rparr>
      in if \<not> allowed then (Some (text_response 429 ''rate limited''), state, w)
      else if token = [] \<or> length token > 128 then (Some (text_response 404 ''not found''), state, w)
      else case load_users (se_users_json E) (sa_users_file state) w of
        (Inl e, w) \<Rightarrow> (Some (text_response 500 ''internal error''), state, w)
      | (Inr users, w) \<Rightarrow>
          let now = sint (w_unix_time w)
          in case find_user_by_token (se_sha E) (se_hex E) users token now of
               None \<Rightarrow> (Some (text_response 404 ''not found''), state, w)
             | Some user \<Rightarrow> (render_subscription E state user query, state, w))"

definition sub_health :: sub_response where
  "sub_health = text_response 200 ''ok''"

definition no_store_headers :: "sub_response \<Rightarrow> sub_response" where
  "no_store_headers resp =
     (let headers = AList.update ''cache-control'' ''no-store'' (sr_headers resp);
          headers = AList.update ''pragma'' ''no-cache'' headers;
          headers = AList.update ''x-content-type-options'' ''nosniff'' headers
      in resp\<lparr>sr_headers := headers\<rparr>)"

definition state_fingerprint :: "sub_env \<Rightarrow> SubAppState \<Rightarrow> sub_response" where
  "state_fingerprint E state =
     (let fingerprint = endpoints_fingerprint (se_sha E) (se_hex E) (se_endpoints_to_string E) (sa_endpoints state)
      in typed_response ''application/json''
           (se_value_to_string E (VObject [(''endpoints_fingerprint_sha256'', VString fingerprint)])))"

text \<open>The routes. A token route carries what the extractors yield.\<close>

datatype sub_route =
    SubRoute "sub_response + string \<times> SubQuery"
  | SubHealthz
  | SubStateFingerprint

definition build_router ::
    "sub_env \<Rightarrow> SubAppState \<Rightarrow> sub_route \<Rightarrow> ip_addr \<Rightarrow> instant \<Rightarrow> world \<Rightarrow>
     sub_response option \<times> SubAppState \<times> world" where
  "build_router E state route ip now_instant w =
     (case route of
        SubRoute (Inr (token, query)) \<Rightarrow>
          (let (resp, state, w) = get_subscription E state token query ip now_instant w
           in (map_option no_store_headers resp, state, w))
      | SubRoute (Inl rejection) \<Rightarrow> (Some (no_store_headers rejection), state, w)
      | SubHealthz \<Rightarrow> (Some sub_health, state, w)
      | SubStateFingerprint \<Rightarrow> (Some (state_fingerprint E state), state, w))"

subsection \<open>Start-up\<close>

text \<open>Errors carry their contexts, outermost first.\<close>

definition sub_start ::
    "toml \<Rightarrow> base64 \<Rightarrow> (path \<Rightarrow> string) \<Rightarrow> (string \<Rightarrow> string) \<Rightarrow> path \<Rightarrow>
     world \<Rightarrow> (string list + SubAppState \<times> SocketAddr) \<times> world" where
  "sub_start T b dbg dbg_str config =
     bind_io (map_err_io (\<lambda>e. [''loading deployment config from '' @ dbg config, CompatError_display e])
       (DeploymentConfig_load T config)) (\<lambda>cfg.
     bind_io (map_err_io (\<lambda>e. [''reality public key missing '' @ em_dash @ '' run `vpn-admin init` on the server first'',
         io_detail e]) (read_to_string (reality_public_key_file cfg))) (\<lambda>key_text.
     let pub_key = trim key_text in
     bind_io (lift_r (map_err (\<lambda>e. [''reality public key is present but invalid '' @ em_dash @
         '' refusing to start and serve broken subscriptions; run `vpn-admin doctor` to diagnose'', e])
       (validate_reality_public_key_shape b pub_key))) (\<lambda>_.
     bind_io (map_err_io (\<lambda>e. [''reality short_id missing '' @ em_dash @ '' run `vpn-admin init` on the server first'',
         io_detail e]) (read_to_string (reality_dir cfg @ [''short_id.txt'']))) (\<lambda>sid_text.
     let short_id = trim sid_text in
     bind_io (lift_r (map_err (\<lambda>e. [''reality short_id is present but invalid '' @ em_dash @
         '' refusing to start and serve broken subscriptions; run `vpn-admin doctor` to diagnose'', e])
       (validate_reality_short_id dbg_str short_id))) (\<lambda>_.
     try_io (read_to_string (hysteria_obfs_password_file cfg)) (\<lambda>obfs.
     let hysteria_obfs_password =
           (case obfs of Inr s \<Rightarrow> if trim s \<noteq> [] then Some (trim s) else None | Inl _ \<Rightarrow> None);
         endpoints = standard_endpoints (dc_public_host cfg) (rl_listen_port (dc_reality cfg))
           (hy_listen_port (dc_hysteria2 cfg)) pub_key short_id (rl_handshake_server (dc_reality cfg))
           hysteria_obfs_password
     in return_io
       (\<lparr>sa_users_file = users_file cfg, sa_endpoints = endpoints, sa_rate_limiter = RateLimiter_new 200 50\<rparr>,
        \<lparr>sock_ip = V4 0x7F000001, sock_port = sb_listen_port (dc_subscription cfg)\<rparr>)))))))"

subsection \<open>The lookup\<close>

text \<open>Which users a token opens, without the loop.\<close>

definition token_users :: "sub_env \<Rightarrow> string \<Rightarrow> i64 \<Rightarrow> CompatUser list \<Rightarrow> CompatUser list" where
  "token_users E token now users =
     filter (\<lambda>u. hash_token (se_sha E) (se_hex E) token = cu_subscription_token_hash_hex u \<and> is_active u now) users"

lemma find_user_is_last:
  "find_user_by_token (se_sha E) (se_hex E) users token now =
     (if token_users E token now users = [] then None else Some (last (token_users E token now users)))"
proof -
  have "fold (\<lambda>u found. if hash_token (se_sha E) (se_hex E) token = cu_subscription_token_hash_hex u \<and> is_active u now
          then Some u else found) users found =
      (if token_users E token now users = [] then found else Some (last (token_users E token now users)))" for found
    by (induction users arbitrary: found) (auto simp: token_users_def)
  then show ?thesis
    by (simp add: find_user_by_token_def verify_token_iff Let_def)
qed

lemma token_user_sound:
  "token_users E token now users \<noteq> [] \<Longrightarrow> last (token_users E token now users) \<in> set users \<and>
    is_active (last (token_users E token now users)) now \<and>
    hash_token (se_sha E) (se_hex E) token = cu_subscription_token_hash_hex (last (token_users E token now users))"
  using last_in_set [of "token_users E token now users"] by (simp add: token_users_def)

subsection \<open>Every answer\<close>

lemma text_response_simps [simp]:
  "sr_status (text_response s b) = s" "sr_body (text_response s b) = b" "sr_status (typed_response c b) = 200"
  by (simp_all add: text_response_def typed_response_def)

lemma no_store_simps [simp]:
  "sr_status (no_store_headers r) = sr_status r" "sr_body (no_store_headers r) = sr_body r"
  "map_of (sr_headers (no_store_headers r)) ''cache-control'' = Some ''no-store''"
  by (simp_all add: no_store_headers_def Let_def update_conv)

definition refusals :: "(nat \<times> string) set" where
  "refusals = {(429, ''rate limited''), (404, ''not found''), (500, ''internal error''), (500, ''render error''),
     (400, ''unknown format'')}"

lemma render_subscription_cases:
  "render_subscription E state user query = Some r \<Longrightarrow>
     sr_status r = 200 \<or> (sr_status r, sr_body r) \<in> refusals"
  by (auto simp: render_subscription_def refusals_def Let_def split: if_splits sum.splits)

lemma get_subscription_cases:
  assumes "get_subscription E state token query ip now w = (Some r, state', w')"
  shows "sr_status r \<noteq> 200 \<and> (sr_status r, sr_body r) \<in> refusals \<or>
    (\<exists>users user. load_users (se_users_json E) (sa_users_file state) w = (Inr users, w') \<and>
       token_users E token (sint (w_unix_time w')) users \<noteq> [] \<and>
       user = last (token_users E token (sint (w_unix_time w')) users) \<and>
       render_subscription E state' user query = Some r)"
proof -
  obtain allowed limiter where lim: "sub_allow (se_iter E) (sa_rate_limiter state) now ip = (allowed, limiter)"
    by fastforce
  obtain loaded w1 where ld: "load_users (se_users_json E) (sa_users_file state) w = (loaded, w1)"
    by fastforce
  show ?thesis
    using assms
    by (auto simp: get_subscription_def lim ld refusals_def find_user_is_last Let_def split: if_splits sum.splits)
qed

lemma router_answers:
  assumes "build_router E state (SubRoute (Inr (token, query))) ip now w = (Some r, state', w')"
  shows "\<exists>r'. get_subscription E state token query ip now w = (Some r', state', w') \<and> r = no_store_headers r'"
  using assms by (auto simp: build_router_def split: prod.splits)

subsection \<open>Properties\<close>


definition demo_env :: sub_env where
  "demo_env =
     \<lparr>se_sha = (\<lambda>bs. bs),
      se_hex = \<lparr>hex_encode = (\<lambda>bs. if bs = as_bytes ''token'' then ''h'' else ''x''), hex_decode = (\<lambda>_. Inl [])\<rparr>,
      se_users_json = store_json, se_to_string_pretty = (\<lambda>_. Inr ''doc''),
      se_endpoints_to_string = (\<lambda>_. Inr ''eps''), se_value_to_string = (\<lambda>_. ''v''), se_iter = (\<lambda>t. t)\<rparr>"

definition demo_sub_state :: SubAppState where
  "demo_sub_state = \<lparr>sa_users_file = [''d'', ''users.json''], sa_endpoints = demo_endpoints,
     sa_rate_limiter = RateLimiter_new 200 50\<rparr>"

lemma demo_limiter_allows:
  obtains l where "sub_allow (\<lambda>t. t) (RateLimiter_new 200 50) 0 (V4 1) = (True, l)"
proof -
  have f: "is_f64 200" and ok: "limiter_ok (RateLimiter_new 200 50)"
    using representable_of_nat [of 200 53 "- 1074"] by (auto intro!: limiter_ok_new)
  have "tokens_at (RateLimiter_new 200 50) 0 (V4 1) = 200"
    by (simp add: tokens_at_def RateLimiter_new_def duration_since_def f64_exact f)
  then have "fst (sub_allow (\<lambda>t. t) (RateLimiter_new 200 50) 0 (V4 1))"
    using sub.allow_iff [OF ok] by simp
  then show ?thesis
    using that by (cases "sub_allow (\<lambda>t. t) (RateLimiter_new 200 50) 0 (V4 1)") auto
qed

lemma demo_store_loads: "load_users store_json [''d'', ''users.json''] (store_world (Some [1])) = (Inr [store_user], store_world (Some [1]))"
  by (rule load_of_saved [OF store_json_ok, where json = "[1]" and mode = None])
    (simp_all add: store_json_def Let_def USERS_SCHEMA_VERSION_def store_world_def holds_data_def empty_world_def)


text \<open>C34. The service cannot be used to enumerate users: two stores in which no active user has the
  presented token, one with the user disabled, expired or absent and the other different in any
  way, give the same answer.\<close>

theorem subscription_no_enumeration:
  assumes "load_users (se_users_json E) (sa_users_file state) w1 = (Inr users1, w1')"
    and "load_users (se_users_json E) (sa_users_file state) w2 = (Inr users2, w2')"
    and "list_all (\<lambda>u. verify_token (se_sha E) (se_hex E) token (cu_subscription_token_hash_hex u) \<longrightarrow>
           \<not> is_active u (sint (w_unix_time w1'))) users1"
    and "list_all (\<lambda>u. verify_token (se_sha E) (se_hex E) token (cu_subscription_token_hash_hex u) \<longrightarrow>
           \<not> is_active u (sint (w_unix_time w2'))) users2"
  shows "fst (build_router E state (SubRoute (Inr (token, query))) ip now w1) =
         fst (build_router E state (SubRoute (Inr (token, query))) ip now w2)"
proof -
  have "token_users E token (sint (w_unix_time w1')) users1 = []" "token_users E token (sint (w_unix_time w2')) users2 = []"
    using assms(3,4) by (auto simp: token_users_def filter_empty_conv list_all_iff verify_token_iff)
  then show ?thesis
    using assms(1,2)
    by (auto simp: build_router_def get_subscription_def find_user_is_last Let_def split: prod.splits)
qed

theorem subscription_no_enumeration_witness:
  "fst (build_router demo_env demo_sub_state (SubRoute (Inr (''other'', \<lparr>sq_format = None, sq_profile = None\<rparr>)))
       (V4 1) 0 (store_world (Some [1]))) =
   fst (build_router demo_env demo_sub_state (SubRoute (Inr (''other'', \<lparr>sq_format = None, sq_profile = None\<rparr>)))
       (V4 1) 0 (store_world None))"
proof -
  have none: "load_users store_json [''d'', ''users.json''] (store_world None) = (Inr [], store_world None)"
    by (simp add: load_users_def path_exists_def try_io_def prim_def store_world_def empty_world_def return_io_def bind_io_def)
  show ?thesis
    by (rule subscription_no_enumeration [of demo_env demo_sub_state _ "[store_user]" "store_world (Some [1])" _ "[]" "store_world None"])
      (simp_all add: demo_env_def demo_sub_state_def demo_store_loads none verify_token_iff hash_token_def store_user_def as_bytes_def)
qed

end
