(* ===== verification/Client_Start.thy ===== *)
theory Client_Start
  imports Relay_Agent Rendezvous Client_Engine Compat_Store
begin

text \<open>
  How the client comes by its endpoints: the start-up of \<^verbatim>\<open>apps/client-daemon/src/main.rs\<close> up to
  the engine, and the commands of the diagnostic tool \<^verbatim>\<open>apps/cli/src/main.rs\<close>. A panic is
  \<^term>\<open>None\<close>.
\<close>

subsection \<open>The daemon\<close>

datatype start_error =
    StartMsg string
  | StartIo io_error
  | StartHex string
  | StartJson string
  | StartRendezvous RendezvousClientError

record client_args =
  ca_static_endpoints_file :: "path option"
  ca_rendezvous_url :: "string option"
  ca_rendezvous_root_pub_hex_file :: "path option"
  ca_bundle_cache_path :: path

text \<open>The libraries, and what an HTTP fetch from a URL yields.\<close>

record client_env =
  cl_ed :: ed25519
  cl_hex :: hex_codec
  cl_json :: bundle_json
  cl_fetch :: "string \<Rightarrow> RendezvousClientError + SignedBundle"
  cl_endpoints :: "string \<Rightarrow> string + EndpointDescriptor list"
  cl_parse_addr :: "string \<Rightarrow> SocketAddr option"

definition fetched_endpoints ::
    "client_env \<Rightarrow> client_args \<Rightarrow> string \<Rightarrow> string \<Rightarrow> world \<Rightarrow> (start_error + EndpointDescriptor list) option \<times> world" where
  "fetched_endpoints env args url root_hex w =
     (case hex_decode (cl_hex env) (trim root_hex) of
        Inl e \<Rightarrow> (Some (Inl (StartHex e)), w)
      | Inr root_bytes \<Rightarrow>
          (case copy_from_slice 32 root_bytes of
             None \<Rightarrow> (None, w)
           | Some root_arr \<Rightarrow>
               let trust_root = \<lparr>root_public_key = root_arr\<rparr>;
                   client = \<lparr>rc_trust_root = trust_root, rc_cache_path = ca_bundle_cache_path args\<rparr>
               in case get_bundle (cl_ed env) (cl_json env) client (cl_fetch env url) RevocationList_empty w of
                    (Inl e, w) \<Rightarrow> (Some (Inl (StartRendezvous e)), w)
                  | (Inr payload, w) \<Rightarrow> (Some (Inr (rb_endpoints payload)), w)))"

definition start_endpoints ::
    "client_env \<Rightarrow> client_args \<Rightarrow> world \<Rightarrow> (start_error + EndpointDescriptor list) option \<times> world" where
  "start_endpoints env args w =
     (case ca_rendezvous_url args of
        Some url \<Rightarrow>
          (case ca_rendezvous_root_pub_hex_file args of
             None \<Rightarrow> (Some (Inl (StartMsg ''--rendezvous-root-pub-hex-file required with --rendezvous-url'')), w)
           | Some root_pub_hex_file \<Rightarrow>
               (case read_to_string root_pub_hex_file w of
                  (Inl e, w) \<Rightarrow> (Some (Inl (StartIo e)), w)
                | (Inr root_hex, w) \<Rightarrow> fetched_endpoints env args url root_hex w))
      | None \<Rightarrow>
          (case ca_static_endpoints_file args of
             Some file \<Rightarrow>
               (case read_to_string file w of
                  (Inl e, w) \<Rightarrow> (Some (Inl (StartIo e)), w)
                | (Inr json, w) \<Rightarrow> (Some (map_err StartJson (cl_endpoints env json)), w))
           | None \<Rightarrow>
               (Some (Inl (StartMsg ''either --static-endpoints-file or --rendezvous-url must be given'')), w)))"

definition client_start ::
    "client_env \<Rightarrow> client_args \<Rightarrow> world \<Rightarrow> (start_error + ConnectionEngine) option \<times> world" where
  "client_start env args w =
     (case start_endpoints env args w of
        (None, w) \<Rightarrow> (None, w)
      | (Some r, w) \<Rightarrow> (Some (bind_r r (\<lambda>endpoints. Inr (build_engine (cl_hex env) (cl_parse_addr env) endpoints))), w))"

subsection \<open>The diagnostic tool\<close>

datatype cli_command =
    Transports
  | ConfigVerify path string
  | Diagnostics

text \<open>A run prints lines and exits with a status, or fails with an error.\<close>

definition verify_report :: "ConfigError + RelayBundlePayload \<Rightarrow> (ConfigError \<Rightarrow> string) \<Rightarrow> string list \<times> nat" where
  "verify_report r display =
     (case r of
        Inr payload \<Rightarrow>
          ([''VALID: schema_version='' @ show_nat (unat (rb_schema_version payload)) @ '', '' @
            show_nat (length (rb_endpoints payload)) @ '' endpoint(s), expires_at='' @
            show_nat (unat (rb_expires_at payload))], 0)
      | Inl e \<Rightarrow> ([''INVALID: '' @ display e], 1))"

definition config_verify ::
    "client_env \<Rightarrow> (ConfigError \<Rightarrow> string) \<Rightarrow> path \<Rightarrow> string \<Rightarrow> world \<Rightarrow> (start_error + string list \<times> nat) \<times> world" where
  "config_verify env display bundle_file root_pub_hex =
     bind_io (map_err_io StartIo (fs_read bundle_file)) (\<lambda>bytes.
     bind_io (lift_r (map_err StartJson (bj_from_slice (cl_json env) bytes))) (\<lambda>bundle.
     bind_io (lift_r (map_err StartHex (hex_decode (cl_hex env) (trim root_pub_hex)))) (\<lambda>root_bytes.
     if length root_bytes \<noteq> 32 then fail_io (StartMsg ''root public key must be 32 bytes hex-encoded'')
     else bind_io (get_world w_unix_time) (\<lambda>now.
       return_io (verify_report (verify_bundle (cl_ed env) (pj_from_slice (cl_json env)) bundle
         \<lparr>root_public_key = root_bytes\<rparr> RevocationList_empty now) display)))))"

definition cli_main ::
    "client_env \<Rightarrow> (ConfigError \<Rightarrow> string) \<Rightarrow> string + unit \<Rightarrow> cli_command \<Rightarrow> world \<Rightarrow> (start_error + string list \<times> nat) \<times> world" where
  "cli_main env display resolve_localhost command =
     (case command of
        Transports \<Rightarrow>
          return_io ([''direct-tls   family A: TCP + TLS 1.3 (rustls)'', ''noise-quic   family B: UDP + QUIC (quinn)''], 0)
      | ConfigVerify bundle_file root_pub_hex \<Rightarrow> config_verify env display bundle_file root_pub_hex
      | Diagnostics \<Rightarrow>
          return_io ([''local DNS resolution: '' @
            (case resolve_localhost of
               Inr _ \<Rightarrow> ''ok''
             | Inl e \<Rightarrow> ''FAILED ('' @ e @ '') '' @ em_dash @
                 '' possible local network failure, not necessarily censorship'')], 0))"

subsection \<open>Where endpoints come from\<close>

lemma get_bundle_some:
  assumes "get_bundle ed j c fetched rl w = (Inr p, w')"
  shows "\<exists>b now. verify_bundle ed (pj_from_slice j) b (rc_trust_root c) rl now = Inr p"
  using assms
  by (auto simp: get_bundle_def io_simps map_err_eq_Inr split: sum.splits)

lemma fetched_endpoints_verified:
  assumes "fetched_endpoints env args url root_hex w = (Some (Inr eps), w')"
  shows "\<exists>root_key b now p. hex_decode (cl_hex env) (trim root_hex) = Inr root_key \<and> length root_key = 32 \<and>
    verify_bundle (cl_ed env) (pj_from_slice (cl_json env)) b \<lparr>root_public_key = root_key\<rparr> RevocationList_empty now = Inr p \<and>
    eps = rb_endpoints p"
proof -
  from assms obtain root_key p where key: "hex_decode (cl_hex env) (trim root_hex) = Inr root_key" "length root_key = 32"
    and run: "get_bundle (cl_ed env) (cl_json env) \<lparr>rc_trust_root = \<lparr>root_public_key = root_key\<rparr>,
        rc_cache_path = ca_bundle_cache_path args\<rparr> (cl_fetch env url) RevocationList_empty w = (Inr p, w')"
    and "eps = rb_endpoints p"
    by (auto simp: fetched_endpoints_def copy_from_slice_def Let_def split: sum.splits option.splits if_splits prod.splits)
  with get_bundle_some [OF run] show ?thesis
    by auto
qed


definition demo_client_env :: client_env where
  "demo_client_env =
     \<lparr>cl_ed = echo_scheme, cl_hex = \<lparr>hex_encode = (\<lambda>_. []), hex_decode = (\<lambda>_. Inr (replicate 32 1))\<rparr>, cl_json = demo_json,
      cl_fetch = (\<lambda>_. Inr demo_bundle), cl_endpoints = (\<lambda>_. Inl []), cl_parse_addr = (\<lambda>_. None)\<rparr>"

definition demo_client_args :: client_args where
  "demo_client_args =
     \<lparr>ca_static_endpoints_file = None, ca_rendezvous_url = Some ''u'', ca_rendezvous_root_pub_hex_file = Some [''root.pub''],
      ca_bundle_cache_path = [''b.json'']\<rparr>"

definition demo_client_world :: world where
  "demo_client_world = empty_world\<lparr>w_unix_time := 500,
     w_fs := (w_fs empty_world)([''root.pub''] \<mapsto> \<lparr>i_dir = False, i_content = as_bytes ''k'', i_mode = mode_0644, i_uid = 0, i_gid = 0\<rparr>)\<rparr>"


end
