(* ===== verification/Admin_Service.thy ===== *)
theory Admin_Service
  imports Compat_Store Ieee_Float
begin

text \<open>
  The service manager of the administration tool, \<^verbatim>\<open>apps/admin/src/service.rs\<close>. A command of the
  tool acts on a host: the file-system world and a state \<open>'s\<close> of the service side that only
  \<^verbatim>\<open>systemctl\<close> and the passing of time change. What \<^verbatim>\<open>systemctl\<close> does is a parameter.
\<close>

subsection \<open>Hosts\<close>

type_synonym 's host = "world \<times> 's"

record cmd_output =
  co_success :: bool
  co_stdout :: string
  co_stderr :: string

record 's systemd =
  sd_systemctl :: "string list \<Rightarrow> world \<Rightarrow> 's \<Rightarrow> (io_error + cmd_output) \<times> 's"
  sd_sleep :: "duration \<Rightarrow> 's \<Rightarrow> 's"
  sd_clock :: "'s \<Rightarrow> instant"

definition disk :: "(world \<Rightarrow> ('e + 'a) \<times> world) \<Rightarrow> 's host \<Rightarrow> ('e + 'a) \<times> 's host" where
  "disk m h = (case m (fst h) of (r, w) \<Rightarrow> (r, w, snd h))"

definition systemctl :: "'s systemd \<Rightarrow> string list \<Rightarrow> 's host \<Rightarrow> (io_error + cmd_output) \<times> 's host" where
  "systemctl S args h = (case sd_systemctl S args (fst h) (snd h) of (r, s) \<Rightarrow> (r, fst h, s))"

definition sleep :: "'s systemd \<Rightarrow> duration \<Rightarrow> 's host \<Rightarrow> ('e + unit) \<times> 's host" where
  "sleep S d h = (Inr (), fst h, sd_sleep S d (snd h))"

subsection \<open>The manager\<close>

record CompatibilityServiceManager =
  sm_service_name :: string
  sm_settle :: duration

definition ms :: "nat \<Rightarrow> duration" where
  "ms n = n * 1000000"

definition service_manager :: "string \<Rightarrow> CompatibilityServiceManager" where
  "service_manager service_name = \<lparr>sm_service_name = service_name, sm_settle = ms 300\<rparr>"

definition service_manager_default :: CompatibilityServiceManager where
  "service_manager_default = service_manager ''sing-box''"

definition mgr_run :: "'s systemd \<Rightarrow> string list \<Rightarrow> 's host \<Rightarrow> (io_error + cmd_output) \<times> 's host" where
  "mgr_run S args =
     try_io (systemctl S args) (\<lambda>r.
     case r of
       Inr out \<Rightarrow> return_io out
     | Inl _ \<Rightarrow> bind_io (sleep S (ms 50)) (\<lambda>_. systemctl S args))"

definition ask :: "'s systemd \<Rightarrow> string list \<Rightarrow> (cmd_output \<Rightarrow> bool) \<Rightarrow> 's host \<Rightarrow> ('e + bool) \<times> 's host" where
  "ask S args p = try_io (mgr_run S args) (\<lambda>r. return_io (case r of Inr out \<Rightarrow> p out | Inl _ \<Rightarrow> False))"

definition is_available :: "'s systemd \<Rightarrow> 's host \<Rightarrow> ('e + bool) \<times> 's host" where
  "is_available S = ask S [''--version''] co_success"

definition is_unit_installed ::
    "'s systemd \<Rightarrow> CompatibilityServiceManager \<Rightarrow> 's host \<Rightarrow> ('e + bool) \<times> 's host" where
  "is_unit_installed S m =
     (let unit = sm_service_name m @ ''.service''
      in ask S [''show'', ''-p'', ''LoadState'', ''--value'', unit]
           (\<lambda>out. co_success out \<and> trim (co_stdout out) = ''loaded''))"

definition reload_or_restart ::
    "'s systemd \<Rightarrow> CompatibilityServiceManager \<Rightarrow> 's host \<Rightarrow> (string + unit) \<times> 's host" where
  "reload_or_restart S m =
     bind_io (map_err_io (\<lambda>e. ''failed to invoke systemctl: '' @ io_detail e)
       (mgr_run S [''reload-or-restart'', sm_service_name m])) (\<lambda>out.
     if co_success out then return_io ()
     else fail_io (''systemctl reload-or-restart '' @ sm_service_name m @ '' failed: '' @ co_stderr out))"

definition mgr_is_active ::
    "'s systemd \<Rightarrow> CompatibilityServiceManager \<Rightarrow> 's host \<Rightarrow> ('e + bool) \<times> 's host" where
  "mgr_is_active S m = ask S [''is-active'', ''--quiet'', sm_service_name m] co_success"

definition is_failed ::
    "'s systemd \<Rightarrow> CompatibilityServiceManager \<Rightarrow> 's host \<Rightarrow> ('e + bool) \<times> 's host" where
  "is_failed S m = ask S [''is-failed'', ''--quiet'', sm_service_name m] co_success"

text \<open>The loop that waits for three healthy observations in a row. Every round sleeps, so a
  tenfold settling time allows ten rounds; the first argument bounds them.\<close>

fun watch ::
    "nat \<Rightarrow> 's systemd \<Rightarrow> CompatibilityServiceManager \<Rightarrow> instant \<Rightarrow> nat \<Rightarrow> 's host \<Rightarrow> (string + unit) \<times> 's host" where
  "watch rounds S m deadline consecutive_active h =
     (if rounds = 0 \<or> \<not> sd_clock S (snd h) < deadline
      then fail_io (sm_service_name m @ '' did not remain active after reload'') h
      else bind_io (sleep S (sm_settle m)) (\<lambda>_.
           bind_io (mgr_is_active S m) (\<lambda>active.
           if active
           then if consecutive_active + 1 = 3 then return_io ()
                else watch (rounds - 1) S m deadline (consecutive_active + 1)
           else watch (rounds - 1) S m deadline 0)) h)"

declare watch.simps [simp del]

definition reload_and_verify ::
    "'s systemd \<Rightarrow> CompatibilityServiceManager \<Rightarrow> 's host \<Rightarrow> (string + unit) \<times> 's host" where
  "reload_and_verify S m =
     bind_io (reload_or_restart S m) (\<lambda>_ h.
     watch 11 S m (sd_clock S (snd h) + 10 * sm_settle m) 0 h)"

subsection \<open>What is relied on\<close>

text \<open>
  Time passes, sleeping for at least the given duration.
\<close>

definition clock_ok :: "'s systemd \<Rightarrow> bool" where
  "clock_ok S \<longleftrightarrow>
     (\<forall>d s. sd_clock S s + d \<le> sd_clock S (sd_sleep S d s)) \<and>
     (\<forall>args w s. sd_clock S s \<le> sd_clock S (snd (sd_systemctl S args w s)))"

text \<open>
  \<open>loaded\<close> reads off the service side what a service took from the disk when it last started:
  a successful reload of its unit takes \<open>view\<close> of the disk, and no other command changes it.
\<close>

definition service_ok :: "'s systemd \<Rightarrow> string \<Rightarrow> (world \<Rightarrow> 'v) \<Rightarrow> ('s \<Rightarrow> 'v) \<Rightarrow> bool" where
  "service_ok S name view loaded \<longleftrightarrow>
     (\<forall>d s. loaded (sd_sleep S d s) = loaded s) \<and>
     (\<forall>args w s. args \<noteq> [''reload-or-restart'', name] \<longrightarrow> loaded (snd (sd_systemctl S args w s)) = loaded s) \<and>
     (\<forall>w s out s'. sd_systemctl S [''reload-or-restart'', name] w s = (Inr out, s') \<and> co_success out \<longrightarrow> loaded s' = view w)"

text \<open>For sing-box this is the content of its configuration file.\<close>

definition file_content :: "path \<Rightarrow> world \<Rightarrow> u8 list option" where
  "file_content p w = map_option i_content (w_fs w p)"

definition systemd_ok :: "'s systemd \<Rightarrow> path \<Rightarrow> ('s \<Rightarrow> u8 list option) \<Rightarrow> bool" where
  "systemd_ok S target running \<longleftrightarrow> clock_ok S \<and> service_ok S ''sing-box'' (file_content target) running"

subsection \<open>What a command leaves alone\<close>

text \<open>An invariant \<open>P\<close> of hosts kept by an operation, on every path.\<close>

definition steady :: "('h \<Rightarrow> 'h \<Rightarrow> bool) \<Rightarrow> ('h \<Rightarrow> ('e + 'a) \<times> 'h) \<Rightarrow> bool" where
  "steady R m \<longleftrightarrow> (\<forall>h. R h (snd (m h)))"

definition pre_order :: "('h \<Rightarrow> 'h \<Rightarrow> bool) \<Rightarrow> bool" where
  "pre_order R \<longleftrightarrow> (\<forall>h. R h h) \<and> (\<forall>a b c. R a b \<longrightarrow> R b c \<longrightarrow> R a c)"

named_theorems steady_intros \<open>relations kept by the operations\<close>

lemma steadyD: "steady R m \<Longrightarrow> m h = (r, h') \<Longrightarrow> R h h'"
  unfolding steady_def by (metis snd_conv)

lemma steady_pure [steady_intros]:
  "pre_order R \<Longrightarrow> steady R (return_io x)" "pre_order R \<Longrightarrow> steady R (fail_io e)" "pre_order R \<Longrightarrow> steady R (lift_r r)"
  "pre_order R \<Longrightarrow> steady R (get_world f)"
  by (simp_all add: steady_def pre_order_def return_io_def fail_io_def lift_r_def get_world_def)

lemma steady_bind [steady_intros]:
  "pre_order R \<Longrightarrow> steady R m \<Longrightarrow> (\<And>x. steady R (f x)) \<Longrightarrow> steady R (bind_io m f)"
  unfolding steady_def
proof
  fix h
  assume *: "pre_order R" "\<forall>h. R h (snd (m h))" "\<And>x. \<forall>h. R h (snd (f x h))"
  obtain r h1 where m: "m h = (r, h1)"
    by (metis surj_pair)
  have "R h h1"
    using *(2) m by (metis snd_conv)
  then show "R h (snd (bind_io m f h))"
    using *(1,3) m unfolding pre_order_def by (cases r) (auto simp: bind_io_def)
qed

lemma steady_try [steady_intros]:
  "pre_order R \<Longrightarrow> steady R m \<Longrightarrow> (\<And>r. steady R (f r)) \<Longrightarrow> steady R (try_io m f)"
  unfolding steady_def
proof
  fix h
  assume *: "pre_order R" "\<forall>h. R h (snd (m h))" "\<And>r. \<forall>h. R h (snd (f r h))"
  obtain r h1 where m: "m h = (r, h1)"
    by (metis surj_pair)
  have "R h h1"
    using *(2) m by (metis snd_conv)
  then show "R h (snd (try_io m f h))"
    using *(1,3) m unfolding pre_order_def by (auto simp: try_io_def)
qed

lemma steady_map_err [steady_intros]: "steady R m \<Longrightarrow> steady R (map_err_io h m)"
  by (simp add: steady_def map_err_io_def split_beta)

lemma steady_ignore [steady_intros]: "steady R m \<Longrightarrow> steady R (ignore_io m)"
  unfolding steady_def ignore_io_def by simp

text \<open>The disk is untouched; the loaded configuration is untouched; time passes.\<close>

definition same_disk :: "'s host \<Rightarrow> 's host \<Rightarrow> bool" where
  "same_disk h h' \<longleftrightarrow> fst h' = fst h"

definition same_running :: "('s \<Rightarrow> 'v) \<Rightarrow> 's host \<Rightarrow> 's host \<Rightarrow> bool" where
  "same_running running h h' \<longleftrightarrow> running (snd h') = running (snd h)"

definition later :: "'s systemd \<Rightarrow> nat \<Rightarrow> 's host \<Rightarrow> 's host \<Rightarrow> bool" where
  "later S d h h' \<longleftrightarrow> sd_clock S (snd h) + d \<le> sd_clock S (snd h')"

lemma pre_orders [steady_intros]: "pre_order same_disk" "pre_order (same_running running)" "pre_order (later S 0)"
  by (auto simp: pre_order_def same_disk_def same_running_def later_def)

lemma systemctl_same_disk [steady_intros]: "steady same_disk (systemctl S args)" "steady same_disk (sleep S d)"
  by (auto simp: steady_def same_disk_def systemctl_def sleep_def split: prod.split)

lemma systemctl_same_running:
  "service_ok S name view loaded \<Longrightarrow> args \<noteq> [''reload-or-restart'', name] \<Longrightarrow> steady (same_running loaded) (systemctl S args)"
  "service_ok S name view loaded \<Longrightarrow> steady (same_running loaded) (sleep S d)"
  by (simp_all add: steady_def same_running_def service_ok_def systemctl_def sleep_def split_beta)

lemma systemctl_later:
  "clock_ok S \<Longrightarrow> steady (later S 0) (systemctl S args)"
  "clock_ok S \<Longrightarrow> steady (later S 0) (sleep S d)"
  "clock_ok S \<Longrightarrow> steady (later S d) (sleep S d)"
  by (auto simp: steady_def later_def clock_ok_def systemctl_def sleep_def split_beta intro: add_leD1)

lemma mgr_run_steady:
  assumes "pre_order R" "steady R (systemctl S args)" "\<And>d. steady R (sleep S d :: _ \<Rightarrow> (io_error + unit) \<times> _)"
  shows "steady R (mgr_run S args)"
  unfolding mgr_run_def using assms by (auto intro!: steady_intros split: sum.split)

lemma ask_steady:
  assumes "pre_order R" "steady R (systemctl S args)" "\<And>d. steady R (sleep S d :: _ \<Rightarrow> (io_error + unit) \<times> _)"
  shows "steady R (ask S args p)"
  unfolding ask_def using assms by (intro steady_intros mgr_run_steady)

lemma mgr_is_active_steady [steady_intros]:
  "steady same_disk (mgr_is_active S m)" "steady same_disk (is_available S)" "steady same_disk (is_unit_installed S m)"
  unfolding mgr_is_active_def is_available_def is_unit_installed_def Let_def by (intro ask_steady steady_intros)+

lemma observers_same_running:
  assumes "service_ok S name view running"
  shows "steady (same_running running) (mgr_is_active S m)" "steady (same_running running) (is_available S)"
    "steady (same_running running) (is_unit_installed S m)"
  unfolding mgr_is_active_def is_available_def is_unit_installed_def Let_def
  by (intro ask_steady steady_intros systemctl_same_running [OF assms]; simp)+

lemma mgr_is_active_later:
  "clock_ok S \<Longrightarrow> steady (later S 0) (mgr_is_active S m)"
  unfolding mgr_is_active_def by (intro ask_steady steady_intros systemctl_later)

subsection \<open>Waiting ends\<close>

lemma watch_Suc:
  "watch (Suc rounds) S m deadline n h =
     (if \<not> sd_clock S (snd h) < deadline then fail_io (sm_service_name m @ '' did not remain active after reload'') h
      else bind_io (sleep S (sm_settle m)) (\<lambda>_. bind_io (mgr_is_active S m) (\<lambda>active.
        if active then if n + 1 = 3 then return_io () else watch rounds S m deadline (n + 1)
        else watch rounds S m deadline 0)) h)"
  by (subst watch.simps) (simp cong: if_cong)

lemma watch_steady:
  assumes "pre_order R" "\<And>d. steady R (sleep S d :: _ \<Rightarrow> (string + unit) \<times> _)"
    "steady R (mgr_is_active S m :: _ \<Rightarrow> (string + bool) \<times> _)"
  shows "steady R (watch rounds S m deadline n)"
proof (induction rounds arbitrary: n)
  case 0
  then show ?case
    using assms(1) by (simp add: watch.simps [abs_def] steady_def pre_order_def fail_io_def)
next
  case (Suc rounds)
  have "steady R (bind_io (sleep S (sm_settle m)) (\<lambda>_. bind_io (mgr_is_active S m) (\<lambda>active.
      if active then if n + 1 = 3 then return_io () else watch rounds S m deadline (n + 1)
      else watch rounds S m deadline 0)))"
    using assms Suc by (auto intro!: steady_intros)
  then have "R h (snd (watch (Suc rounds) S m deadline n h))" for h
    using assms(1) unfolding watch_Suc steady_def pre_order_def
    by (auto simp: fail_io_def simp del: split_paired_All)
  then show ?case
    unfolding steady_def by blast
qed

text \<open>The bound on the rounds is never what ends the loop.\<close>

lemma watch_enough_rounds:
  assumes S: "clock_ok S"
  shows "deadline \<le> sd_clock S (snd h) + n * sm_settle m \<Longrightarrow> n < r1 \<Longrightarrow> n < r2 \<Longrightarrow>
    watch r1 S m deadline k h = watch r2 S m deadline k h"
proof (induction n arbitrary: r1 r2 k h)
  case 0
  then show ?case
    by (simp add: watch.simps)
next
  case (Suc n)
  obtain u h1 where h1: "sleep S (sm_settle m) h = (Inr u :: string + unit, h1)"
    by (simp add: sleep_def)
  obtain a h2 where h2: "mgr_is_active S m h1 = (a :: string + bool, h2)"
    by (metis surj_pair)
  have "sd_clock S (snd h) + sm_settle m \<le> sd_clock S (snd h1)" "sd_clock S (snd h1) \<le> sd_clock S (snd h2)"
    using steadyD [OF systemctl_later(3) [OF S] h1] steadyD [OF mgr_is_active_later [OF S] h2] by (simp_all add: later_def)
  with Suc.prems have "deadline \<le> sd_clock S (snd h2) + n * sm_settle m" "n < r1 - 1" "n < r2 - 1"
    by simp_all
  from Suc.IH [OF this] show ?case
    using Suc.prems(2,3) by (auto simp: watch.simps [of r1] watch.simps [of r2] bind_io_def h1 h2 split: sum.split)
qed

lemma reload_and_verify_rounds:
  assumes "clock_ok S" and "10 < rounds"
  shows "reload_and_verify S m =
    bind_io (reload_or_restart S m) (\<lambda>_ h. watch rounds S m (sd_clock S (snd h) + 10 * sm_settle m) 0 h)"
  unfolding reload_and_verify_def
  using watch_enough_rounds [OF assms(1) order_refl, of 10 11 rounds] assms(2)
  by (simp add: bind_io_def fun_eq_iff)

subsection \<open>Reloading\<close>

lemma mgr_run_same_disk [steady_intros]: "steady same_disk (mgr_run S args)"
  by (intro mgr_run_steady steady_intros)

lemma reload_same_disk [steady_intros]:
  "steady same_disk (reload_or_restart S m)" "steady same_disk (reload_and_verify S m)"
proof -
  show reload: "steady same_disk (reload_or_restart S m)"
    unfolding reload_or_restart_def by (auto intro!: steady_intros)
  show "steady same_disk (reload_and_verify S m)"
    unfolding steady_def reload_and_verify_def
  proof
    fix h
    obtain r h1 where h1: "reload_or_restart S m h = (r, h1)"
      by (metis surj_pair)
    have "same_disk h1 (snd (watch 11 S m d 0 h1))" for d
      using watch_steady [of same_disk S m] unfolding steady_def
      by (metis mgr_is_active_steady(1) pre_orders(1) steady_def systemctl_same_disk(2))
    with steadyD [OF reload h1] h1 show "same_disk h (snd (bind_io (reload_or_restart S m)
        (\<lambda>_ h. watch 11 S m (sd_clock S (snd h) + 10 * sm_settle m) 0 h) h))"
      by (cases r) (simp_all add: bind_io_def same_disk_def)
  qed
qed

lemma mgr_run_reload:
  assumes S: "service_ok S name view loaded"
    and run: "mgr_run S [''reload-or-restart'', name] h = (Inr out, h')" and ok: "co_success out"
  shows "loaded (snd h') = view (fst h)"
proof -
  have loads: "loaded (snd b) = view (fst a)"
    if "systemctl S [''reload-or-restart'', name] a = (Inr out, b)" for a b
    using S ok that unfolding service_ok_def systemctl_def by (auto split: prod.splits)
  obtain r h1 where h1: "systemctl S [''reload-or-restart'', name] h = (r, h1)"
    by (metis surj_pair)
  show ?thesis
  proof (cases r)
    case (Inr out')
    then show ?thesis
      using run h1 loads by (simp add: mgr_run_def try_io_def return_io_def)
  next
    case (Inl e)
    then obtain h2 where h2: "sleep S (ms 50) h1 = (Inr () :: io_error + unit, h2)"
      and "systemctl S [''reload-or-restart'', name] h2 = (Inr out, h')"
      using run h1 by (auto simp: mgr_run_def try_io_def io_simps)
    moreover have "fst h2 = fst h"
      using steadyD [OF systemctl_same_disk(1) h1] steadyD [OF systemctl_same_disk(2) h2] by (simp add: same_disk_def)
    ultimately show ?thesis
      using loads by metis
  qed
qed

lemma watch_same_running:
  assumes "service_ok S name view loaded"
  shows "steady (same_running loaded) (watch rounds S m d n)"
  by (intro watch_steady steady_intros systemctl_same_running [OF assms] observers_same_running [OF assms])

text \<open>A reload that is reported to have worked has taken the files as they are; the reload of another
  service, or one that failed to be started, changes nothing here.\<close>

lemma reload_and_verify_loads:
  assumes S: "service_ok S (sm_service_name m) view loaded" and run: "reload_and_verify S m h = (Inr (), h')"
  shows "fst h' = fst h" "loaded (snd h') = view (fst h)"
proof -
  from run obtain h1 d where h1: "reload_or_restart S m h = (Inr (), h1)"
    and w: "watch 11 S m d 0 h1 = (Inr (), h')"
    by (auto simp: reload_and_verify_def bind_io_eq_Inr)
  from h1 obtain out where "mgr_run S [''reload-or-restart'', sm_service_name m] h = (Inr out, h1)" "co_success out"
    by (auto simp: reload_or_restart_def io_simps split: if_splits)
  then have "loaded (snd h1) = view (fst h)"
    using S mgr_run_reload by blast
  with steadyD [OF watch_same_running [OF S] w] show "loaded (snd h') = view (fst h)"
    by (simp add: same_running_def)
  show "fst h' = fst h"
    using steadyD [OF reload_same_disk(2) run] by (simp add: same_disk_def)
qed

lemma reload_other_service:
  assumes S: "service_ok S name view loaded" and "sm_service_name m \<noteq> name" and run: "reload_and_verify S m h = (r, h')"
  shows "same_running loaded h h'"
proof -
  have "steady (same_running loaded) (systemctl S [''reload-or-restart'', sm_service_name m])"
    by (rule systemctl_same_running(1) [OF S]) (simp add: assms(2))
  then have quiet: "steady (same_running loaded) (reload_or_restart S m)"
    unfolding reload_or_restart_def
    by (auto intro!: steady_intros mgr_run_steady systemctl_same_running(2) [OF S])
  obtain r1 h1 where h1: "reload_or_restart S m h = (r1, h1)"
    by (metis surj_pair)
  have "same_running loaded h1 (snd (watch 11 S m d 0 h1))" for d
    using watch_same_running [OF S] unfolding steady_def by blast
  with steadyD [OF quiet h1] h1 run show ?thesis
    by (cases r1) (auto simp: reload_and_verify_def bind_io_def same_running_def, metis snd_conv)
qed

subsection \<open>Disk operations on a host\<close>

lemma disk_eq: "disk m h = (r, h') \<longleftrightarrow> (\<exists>w. m (fst h) = (r, w) \<and> h' = (w, snd h))"
  by (auto simp: disk_def split: prod.splits)

lemma disk_same_running [steady_intros]: "steady (same_running running) (disk m)"
  by (simp add: steady_def same_running_def disk_def split: prod.split)

text \<open>The files outside \<open>Q\<close> are kept.\<close>

definition same_files :: "path set \<Rightarrow> 's host \<Rightarrow> 's host \<Rightarrow> bool" where
  "same_files Q h h' \<longleftrightarrow> (\<forall>p. p \<notin> Q \<longrightarrow> w_fs (fst h') p = w_fs (fst h) p) \<and> w_pid (fst h') = w_pid (fst h) \<and>
     w_unix_time (fst h') = w_unix_time (fst h)"

lemma same_files_pre_order [steady_intros]: "pre_order (same_files Q)"
  by (simp add: pre_order_def same_files_def)

lemma disk_same_files: "frame Q m \<Longrightarrow> steady (same_files Q) (disk m)"
  by (auto simp: steady_def same_files_def disk_def frame_def split_beta)

lemma same_disk_files: "steady same_disk m \<Longrightarrow> steady (same_files Q) m"
  by (simp add: steady_def same_disk_def same_files_def)

end
