(* ===== verification/Admin_Config.thy ===== *)
theory Admin_Config
  imports Admin_Service Deployment Compat_Server
begin

text \<open>
  The part of the administration tool, \<^verbatim>\<open>apps/admin/src/main.rs\<close>, that brings a configuration to
  the running server: reading the key material, the self-test with a throwaway client,
  and rendering, installing, reloading and recording a configuration with its recovery
  path; and the commands that do only this. Printed text is left out; each refusal is a
  constructor of the error type.
\<close>

subsection \<open>Errors and parameters\<close>

text \<open>The steps of a rotation and of a restore that can fail after live files were touched, and the reasons to refuse an archive.\<close>

datatype rotate_stage =
    InstallPrivate | InstallPublic | InstallShortId | InstallPolicy | ApplyConfig | ReloadSingBox
  | RestartSubscription | HandshakeTest

datatype restore_stage = Installing | ApplyingAuthorization | RestartingSubscription

datatype archive_error =
    ArchiveUnreadable string | ArchiveNotWritten string | TooManyEntries | UnsafePath | RootNotDirectory | DuplicateEntry path | UnexpectedEntry path
  | SpecialEntry path | EntryTooLarge path u64 | SizeOverflow | ArchiveTooLarge | ExtractionFailed path string | EscapesStaging path

datatype restore_refusal = NoUsersFile | BadUsersFile CompatError | NoPrivateKey | PartialKeyset path | HalfTlsPair | NotUtf8 path

datatype admin_error =
    AdminIo io_error
  | AdminCompat CompatError
  | AdminJson string
  | KeysMissing io_error
  | KeysIncoherent string
  | NoKeyset admin_error
  | NoBinary
  | NoService
  | ApplyFailed CompatError
  | ReloadFailed string bool
  | HandshakeFailed bool
  | StampFailed admin_error
  | NotApplied
  | MigrationFailed CompatError
  | NoSuchUser string
  | NotCommitted CompatError bool
  | QrFailed string
  | LockFailed io_error
  | GenerateFailed io_error
  | GenerateRejected string
  | KeyFieldMissing string
  | IncompleteKeyset bool bool
  | StaleBackup path
  | BackupIncomplete admin_error
  | NotStaged admin_error
  | CandidateRejected CompatError
  | ServicesUnavailable
  | RotationFailed rotate_stage bool bool bool
  | ObfsNotInstalled admin_error
  | NoGroup string
  | BadArchive archive_error
  | NotRestorable restore_refusal
  | RestoreFailed restore_stage bool
  | ChecksFailed u32

text \<open>What the self-test observes: whether the request came back, what the client printed, and
  the server's journal since the test began, if it could be read.\<close>

record probe =
  pr_relay_ok :: bool
  pr_stderr :: string
  pr_journal :: "string option"

text \<open>An entry of an archive as the archive reader yields it: the components of its path, its type, its size, its
  data, and what unpacking it answers: an error, or whether it stayed inside the directory.\<close>

datatype path_component = CurDir | Normal string | ParentDir | RootDir

datatype entry_type = RegularFile | Directory | OtherEntry

record tar_entry =
  te_path :: "path_component list"
  te_type :: entry_type
  te_size :: u64
  te_data :: "u8 list"
  te_unpack :: "string + bool"

text \<open>
  What the tool is given: the service manager, \<^verbatim>\<open>sing-box\<close> (its \<^verbatim>\<open>check\<close>, its \<^verbatim>\<open>generate reality-keypair\<close> and its client),
  the codecs, the group database, the archive format, the lock, and the printed form of paths.
\<close>

record 's admin_env =
  ae_systemd :: "'s systemd"
  ae_check :: "u8 list option \<Rightarrow> io_error + bool \<times> string"
  ae_to_vec_pretty :: "Value \<Rightarrow> string + u8 list"
  ae_from_slice :: "u8 list \<Rightarrow> string + Value"
  ae_to_string :: "Value \<Rightarrow> string + string"
  ae_to_string_pretty :: "Value \<Rightarrow> string + string"
  ae_qr :: "string \<Rightarrow> string + unit"
  ae_users_json :: users_json
  ae_sha :: "u8 list \<Rightarrow> u8 list"
  ae_hex :: hex_codec
  ae_base64 :: base64
  ae_mul_base :: "u8 list \<Rightarrow> u8 list"
  ae_generate :: "io_error + cmd_output"
  ae_group :: "string \<Rightarrow> u32 option"
  ae_tar_entries :: "u8 list \<Rightarrow> string + (string + tar_entry) list"
  ae_tar_build :: "(path \<times> u8 list) list \<Rightarrow> string + u8 list"
  ae_lock_path :: "path option"
  ae_flock :: "io_error + unit"
  ae_toml :: toml
  ae_to_value :: "DeploymentConfig \<Rightarrow> string + Value"
  ae_dbg :: "path \<Rightarrow> string"
  ae_lossy :: "path \<Rightarrow> string"
  ae_offline :: bool
  ae_client :: "(u16 \<Rightarrow> Value) \<Rightarrow> world \<Rightarrow> 's \<Rightarrow> (string + probe) \<times> 's"

subsection \<open>Key material\<close>

definition admin_io :: "(world \<Rightarrow> (io_error + 'a) \<times> world) \<Rightarrow> world \<Rightarrow> (admin_error + 'a) \<times> world" where
  "admin_io m = map_err_io AdminIo m"

definition load_reality_params ::
    "'s admin_env \<Rightarrow> DeploymentConfig \<Rightarrow> world \<Rightarrow> (admin_error + RealityServerParams) \<times> world" where
  "load_reality_params E cfg =
     bind_io (map_err_io KeysMissing (read_to_string (reality_private_key_file cfg))) (\<lambda>priv.
     let private_key_hex = trim priv in
     bind_io (admin_io (read_to_string (reality_public_key_file cfg))) (\<lambda>pub.
     let public_key_hex = trim pub in
     bind_io (lift_r (map_err KeysIncoherent
       (validate_reality_keypair (ae_base64 E) (ae_mul_base E) private_key_hex public_key_hex))) (\<lambda>_.
     bind_io (admin_io (read_to_string (reality_dir cfg @ [''short_id.txt'']))) (\<lambda>sid.
     let short_id = trim sid in
     return_io
       \<lparr>rs_private_key_hex = SecretString private_key_hex, rs_public_key_hex = public_key_hex,
        rs_short_ids = [short_id], rs_handshake_server = rl_handshake_server (dc_reality cfg),
        rs_handshake_port = rl_handshake_port (dc_reality cfg)\<rparr>))))"

definition load_hysteria_params ::
    "'s admin_env \<Rightarrow> DeploymentConfig \<Rightarrow> world \<Rightarrow> ('e + Hysteria2ServerParams) \<times> world" where
  "load_hysteria_params E cfg =
     (let masquerade_dir = hysteria_dir cfg @ [''masquerade''] in
      try_io (read_to_string (hysteria_obfs_password_file cfg)) (\<lambda>obfs.
      let obfs_password =
            (case obfs of Inr s \<Rightarrow> if trim s \<noteq> [] then Some (SecretString (trim s)) else None | Inl _ \<Rightarrow> None)
      in bind_io (path_exists masquerade_dir) (\<lambda>present.
      return_io
        \<lparr>hs_tls_cert_path = ae_lossy E (hysteria_dir cfg @ [''cert.pem'']),
         hs_tls_key_path = ae_lossy E (hysteria_dir cfg @ [''key.pem'']),
         hs_obfs_password = obfs_password,
         hs_masquerade_dir_path = (if present then Some (ae_lossy E masquerade_dir) else None),
         hs_up_mbps = hy_up_mbps (dc_hysteria2 cfg), hs_down_mbps = hy_down_mbps (dc_hysteria2 cfg)\<rparr>)))"

definition server_ports :: "DeploymentConfig \<Rightarrow> ServerPorts" where
  "server_ports cfg =
     \<lparr>sp_vless_reality_port = rl_listen_port (dc_reality cfg), sp_hysteria2_port = hy_listen_port (dc_hysteria2 cfg)\<rparr>"

definition write_secret_file :: "path \<Rightarrow> string \<Rightarrow> world \<Rightarrow> (admin_error + unit) \<times> world" where
  "write_secret_file p contents =
     bind_io (admin_io (open_truncate p mode_0600)) (\<lambda>_.
     bind_io (admin_io (write_all p (as_bytes contents))) (\<lambda>_.
     admin_io (sync_all p)))"

definition fsync_dir :: "path \<Rightarrow> world \<Rightarrow> ('e + unit) \<times> world" where
  "fsync_dir dir = ignore_io (bind_io (metadata dir) (\<lambda>_. sync_all dir))"

subsection \<open>The record of what was applied\<close>

text \<open>\<^verbatim>\<open>Path::with_extension\<close>: what follows the last dot of the file name, unless it is the first
  character, is replaced.\<close>

definition file_stem :: "string \<Rightarrow> string" where
  "file_stem name =
     (let before = dropWhile (\<lambda>c. c \<noteq> CHR ''.'') (rev name)
      in if length before \<le> 1 then name else rev (tl before))"

definition with_extension :: "path \<Rightarrow> string \<Rightarrow> path" where
  "with_extension p ext = (if p = [] then p else butlast p @ [file_stem (last p) @ ''.'' @ ext])"

definition applied_config_stamp_path :: "path \<Rightarrow> path" where
  "applied_config_stamp_path target = with_extension target ''applied.sha256''"

definition rendered_config_fingerprint :: "'s admin_env \<Rightarrow> Value \<Rightarrow> admin_error + string" where
  "rendered_config_fingerprint E doc =
     bind_r (map_err AdminJson (ae_to_string E doc)) (\<lambda>canonical. Inr (hash_token (ae_sha E) (ae_hex E) canonical))"

definition commit_applied_config_stamp :: "path \<Rightarrow> string \<Rightarrow> world \<Rightarrow> (admin_error + unit) \<times> world" where
  "commit_applied_config_stamp target fingerprint =
     (let stamp = applied_config_stamp_path target in
      bind_io (get_world w_pid) (\<lambda>pid.
      let tmp = with_extension stamp (''tmp.'' @ show_nat pid) in
      bind_io (write_secret_file tmp fingerprint) (\<lambda>_.
      bind_io (admin_io (fs_rename tmp stamp)) (\<lambda>_.
      (case path_parent stamp of Some parent \<Rightarrow> fsync_dir parent | None \<Rightarrow> return_io ())))))"

subsection \<open>The self-test\<close>

datatype RealitySelfTestOutcome = Pass | HandshakeRejected | Inconclusive

datatype HandshakeVerification = Ran RealitySelfTestOutcome | NotRun string

fun str_contains :: "string \<Rightarrow> string \<Rightarrow> bool" where
  "str_contains pat [] = (pat = [])"
| "str_contains pat (c # s) = (strip_prefix pat (c # s) \<noteq> None \<or> str_contains pat s)"

definition reality_selftest_stderr_or_journal_indicates_rejection :: "string \<Rightarrow> bool \<Rightarrow> bool" where
  "reality_selftest_stderr_or_journal_indicates_rejection captured_stderr journal_hit \<longleftrightarrow>
     str_contains ''reality verification failed'' captured_stderr \<or>
     str_contains ''processed invalid connection'' captured_stderr \<or> journal_hit"

definition journal_has_local_reality_rejection :: "string \<Rightarrow> bool" where
  "journal_has_local_reality_rejection journal \<longleftrightarrow>
     list_ex (\<lambda>line. str_contains ''processed invalid connection'' line \<and>
       (str_contains ''127.0.0.1'' line \<or> str_contains ''[::1]'' line)) (str_lines journal)"

definition selftest_client_config :: "RealityServerParams \<Rightarrow> CompatUser \<Rightarrow> u16 \<Rightarrow> u16 \<Rightarrow> Value" where
  "selftest_client_config reality test_user reality_port local_port =
     (let short_id = (case rs_short_ids reality of [] \<Rightarrow> [] | s # _ \<Rightarrow> s) in
      VObject
        [(''log'', VObject [(''level'', VString ''error'')]),
         (''inbounds'', VArray
            [VObject [(''type'', VString ''mixed''), (''tag'', VString ''in''), (''listen'', VString ''127.0.0.1''),
                      (''listen_port'', json_u16 local_port)]]),
         (''outbounds'', VArray
            [VObject
               [(''type'', VString ''vless''), (''tag'', VString ''reality-selftest''),
                (''server'', VString ''127.0.0.1''), (''server_port'', json_u16 reality_port),
                (''uuid'', VString (cu_vless_uuid test_user)), (''flow'', VString ''xtls-rprx-vision''),
                (''tls'', VObject
                   [(''enabled'', VBool True), (''server_name'', VString (rs_handshake_server reality)),
                    (''utls'', VObject [(''enabled'', VBool True), (''fingerprint'', VString ''chrome'')]),
                    (''reality'', VObject
                       [(''enabled'', VBool True), (''public_key'', VString (rs_public_key_hex reality)),
                        (''short_id'', VString short_id)])])],
             VObject [(''type'', VString ''direct''), (''tag'', VString ''direct'')]]),
         (''route'', VObject [(''final'', VString ''reality-selftest'')])])"

definition selftest_outcome :: "probe \<Rightarrow> RealitySelfTestOutcome" where
  "selftest_outcome p =
     (if pr_relay_ok p then Pass
      else if reality_selftest_stderr_or_journal_indicates_rejection (pr_stderr p)
                (case pr_journal p of Some journal \<Rightarrow> journal_has_local_reality_rejection journal | None \<Rightarrow> False)
      then HandshakeRejected
      else Inconclusive)"

definition run_reality_client_selftest ::
    "'s admin_env \<Rightarrow> RealityServerParams \<Rightarrow> CompatUser \<Rightarrow> u16 \<Rightarrow> 's host \<Rightarrow> (string + RealitySelfTestOutcome) \<times> 's host" where
  "run_reality_client_selftest E reality test_user reality_port h =
     (case ae_client E (selftest_client_config reality test_user reality_port) (fst h) (snd h) of
        (r, s) \<Rightarrow> (map_sum (\<lambda>e. e) selftest_outcome r, fst h, s))"

definition verify_reality_handshake_or_warn ::
    "'s admin_env \<Rightarrow> DeploymentConfig \<Rightarrow> CompatUser list \<Rightarrow> RealityServerParams \<Rightarrow> u16 \<Rightarrow>
     's host \<Rightarrow> ('e + HandshakeVerification) \<times> 's host" where
  "verify_reality_handshake_or_warn E cfg users reality reality_port =
     bind_io (disk (path_exists (dc_singbox_binary cfg))) (\<lambda>present.
     if \<not> present then return_io (NotRun (''no sing-box binary at '' @ ae_dbg E (dc_singbox_binary cfg)))
     else bind_io (get_world (\<lambda>h. sint (w_unix_time (fst h)))) (\<lambda>now.
       case find (\<lambda>u. is_active u now) users of
         None \<Rightarrow> return_io (NotRun ''no enabled, unexpired VLESS user to test with'')
       | Some test_user \<Rightarrow>
           try_io (run_reality_client_selftest E reality test_user reality_port) (\<lambda>r.
           return_io (case r of Inr outcome \<Rightarrow> Ran outcome | Inl e \<Rightarrow> NotRun (''self-test harness failed: '' @ e)))))"

subsection \<open>Bringing a configuration to the running server\<close>

text \<open>Equality of \<^verbatim>\<open>serde_json\<close> values: an object is a map, whatever the order of its keys.\<close>

fun json_eq :: "Value \<Rightarrow> Value \<Rightarrow> bool" where
  "json_eq (VArray vs) (VArray us) \<longleftrightarrow> list_all2 json_eq vs us"
| "json_eq (VObject fs) (VObject gs) \<longleftrightarrow>
     set (map fst fs) = set (map fst gs) \<and>
     list_all (\<lambda>(k, v). list_all (\<lambda>(k', v'). k' = k \<longrightarrow> json_eq v v') gs) fs"
| "json_eq v u \<longleftrightarrow> v = u"

definition service_available :: "'s systemd \<Rightarrow> CompatibilityServiceManager \<Rightarrow> 's host \<Rightarrow> ('e + bool) \<times> 's host" where
  "service_available S mgr =
     bind_io (is_available S) (\<lambda>available. if available then is_unit_installed S mgr else return_io False)"

definition target_already_matches :: "'s admin_env \<Rightarrow> path \<Rightarrow> Value \<Rightarrow> world \<Rightarrow> ('e + bool) \<times> world" where
  "target_already_matches E target doc =
     try_io (fs_read target) (\<lambda>r.
     return_io (case bind_r (map_err io_detail r) (ae_from_slice E) of Inr current \<Rightarrow> json_eq current doc | Inl _ \<Rightarrow> False))"

definition applied_stamp_matches :: "path \<Rightarrow> string \<Rightarrow> world \<Rightarrow> ('e + bool) \<times> world" where
  "applied_stamp_matches target fingerprint =
     try_io (read_to_string (applied_config_stamp_path target)) (\<lambda>r.
     return_io (case r of Inr stamp \<Rightarrow> trim stamp = fingerprint | Inl _ \<Rightarrow> False))"

definition restore_previous_config :: "'s systemd \<Rightarrow> CompatibilityServiceManager \<Rightarrow> path \<Rightarrow> 's host \<Rightarrow> ('e + bool) \<times> 's host" where
  "restore_previous_config S mgr target =
     (let backup = config_backup_path target in
      bind_io (disk (path_exists backup)) (\<lambda>present.
      if \<not> present then return_io False
      else try_io (disk (fs_copy backup target)) (\<lambda>copied.
        case copied of
          Inl _ \<Rightarrow> return_io False
        | Inr _ \<Rightarrow> try_io (reload_and_verify S mgr) (\<lambda>r. return_io (r = Inr ())))))"

text \<open>After a successful reload: the self-test, and the record of what was applied.\<close>

definition verify_and_record ::
    "'s admin_env \<Rightarrow> DeploymentConfig \<Rightarrow> CompatUser list \<Rightarrow> RealityServerParams \<Rightarrow> string \<Rightarrow> 's host \<Rightarrow> (admin_error + bool) \<times> 's host" where
  "verify_and_record E cfg users reality fingerprint =
     bind_io (verify_reality_handshake_or_warn E cfg users reality (sp_vless_reality_port (server_ports cfg))) (\<lambda>verified.
     if verified = Ran HandshakeRejected
     then bind_io (restore_previous_config (ae_systemd E) service_manager_default (singbox_config_file cfg)) (\<lambda>recovered.
          fail_io (HandshakeFailed recovered))
     else bind_io (map_err_io StampFailed (disk (commit_applied_config_stamp (singbox_config_file cfg) fingerprint))) (\<lambda>_.
          return_io True))"

text \<open>The configuration is on disk: reload, and go back to the previous one if that fails.\<close>

definition reload_applied ::
    "'s admin_env \<Rightarrow> DeploymentConfig \<Rightarrow> CompatUser list \<Rightarrow> RealityServerParams \<Rightarrow> string \<Rightarrow> 's host \<Rightarrow> (admin_error + bool) \<times> 's host" where
  "reload_applied E cfg users reality fingerprint =
     (let S = ae_systemd E; mgr = service_manager_default in
      bind_io (is_available S) (\<lambda>available.
      if \<not> available then return_io False
      else bind_io (is_unit_installed S mgr) (\<lambda>installed.
        if \<not> installed then return_io False
        else try_io (reload_and_verify S mgr) (\<lambda>reloaded.
          case reloaded of
            Inl reload_err \<Rightarrow>
              bind_io (restore_previous_config S mgr (singbox_config_file cfg)) (\<lambda>recovered.
              fail_io (ReloadFailed reload_err recovered))
          | Inr _ \<Rightarrow> verify_and_record E cfg users reality fingerprint))))"

definition apply_singbox_config ::
    "'s admin_env \<Rightarrow> DeploymentConfig \<Rightarrow> CompatUser list \<Rightarrow> RealityServerParams \<Rightarrow> Value \<Rightarrow> string \<Rightarrow> bool \<Rightarrow>
     's host \<Rightarrow> (admin_error + bool) \<times> 's host" where
  "apply_singbox_config E cfg users reality doc fingerprint live =
     (let S = ae_systemd E; mgr = service_manager_default; target = singbox_config_file cfg in
      bind_io (disk (path_exists (dc_singbox_binary cfg))) (\<lambda>present.
      if \<not> present then (if live then fail_io NoBinary else return_io False)
      else bind_io (service_available S mgr) (\<lambda>service.
        if live \<and> \<not> service then fail_io NoService
        else bind_io (disk (target_already_matches E target doc)) (\<lambda>same.
          bind_io (disk (applied_stamp_matches target fingerprint)) (\<lambda>stamped.
          bind_io (if same \<and> stamped \<and> service then mgr_is_active S mgr else return_io False) (\<lambda>current.
          if current then return_io True
          else bind_io (map_err_io ApplyFailed (disk (apply_config_atomically (ae_to_vec_pretty E) (ae_dbg E) doc target
                 (SingBoxBackend_validate (ae_check E))))) (\<lambda>_.
               reload_applied E cfg users reality fingerprint)))))))"

definition render_and_apply_singbox_config ::
    "'s admin_env \<Rightarrow> DeploymentConfig \<Rightarrow> CompatUser list \<Rightarrow> bool \<Rightarrow> 's host \<Rightarrow> (admin_error + bool) \<times> 's host" where
  "render_and_apply_singbox_config E cfg users require_live_apply =
     (let live = (require_live_apply \<and> \<not> ae_offline E) in
      try_io (disk (load_reality_params E cfg)) (\<lambda>loaded.
      case loaded of
        Inl e \<Rightarrow> (if live then fail_io (NoKeyset e) else return_io False)
      | Inr reality \<Rightarrow>
          bind_io (disk (load_hysteria_params E cfg)) (\<lambda>hysteria.
          bind_io (get_world (\<lambda>h. sint (w_unix_time (fst h)))) (\<lambda>now.
          let doc = render_singbox_server_config users reality hysteria (server_ports cfg) now in
          bind_io (lift_r (rendered_config_fingerprint E doc)) (\<lambda>fingerprint.
          apply_singbox_config E cfg users reality doc fingerprint live)))))"

subsection \<open>Commands\<close>

definition regenerate_singbox_config ::
    "'s admin_env \<Rightarrow> DeploymentConfig \<Rightarrow> bool \<Rightarrow> 's host \<Rightarrow> (admin_error + bool) \<times> 's host" where
  "regenerate_singbox_config E cfg require_live_apply =
     bind_io (map_err_io AdminCompat (disk (load_users (ae_users_json E) (users_file cfg)))) (\<lambda>users.
     render_and_apply_singbox_config E cfg users require_live_apply)"

definition cmd_render_config :: "'s admin_env \<Rightarrow> DeploymentConfig \<Rightarrow> bool \<Rightarrow> 's host \<Rightarrow> (admin_error + unit) \<times> 's host" where
  "cmd_render_config E cfg require_applied =
     bind_io (regenerate_singbox_config E cfg False) (\<lambda>applied.
     if \<not> applied \<and> require_applied then fail_io NotApplied else return_io ())"

text \<open>The process status the command ends with.\<close>

definition cmd_config_validate :: "'s admin_env \<Rightarrow> DeploymentConfig \<Rightarrow> 's host \<Rightarrow> ('e + nat) \<times> 's host" where
  "cmd_config_validate E cfg =
     (let legacy = (dc_schema_version cfg = 0) in
      bind_io (disk (detect_users_schema (ae_users_json E) (users_file cfg))) (\<lambda>state.
      let migration_required = (legacy \<or> state = UsersLegacy);
          invalid = (case state of UsersFuture _ \<Rightarrow> True | UsersCorrupted _ \<Rightarrow> True | _ \<Rightarrow> False)
      in return_io (if invalid then 3 else if migration_required then 2 else 0)))"

definition cmd_config_migrate :: "'s admin_env \<Rightarrow> DeploymentConfig \<Rightarrow> path \<Rightarrow> 's host \<Rightarrow> (admin_error + unit) \<times> 's host" where
  "cmd_config_migrate E cfg config_path =
     bind_io (map_err_io MigrationFailed
       (disk (migrate_deployment_toml (ae_toml E) (ae_to_value E) (ae_dbg E) config_path))) (\<lambda>_.
     bind_io (map_err_io MigrationFailed (disk (migrate_users (ae_users_json E) (ae_dbg E) (users_file cfg)))) (\<lambda>_.
     bind_io (map_err_io MigrationFailed (disk (DeploymentConfig_load (ae_toml E) config_path))) (\<lambda>reloaded.
     ignore_io (regenerate_singbox_config E reloaded False))))"

definition subscription_url :: "DeploymentConfig \<Rightarrow> string \<Rightarrow> string" where
  "subscription_url cfg token =
     ''https://'' @ dc_subscription_host cfg @ '':'' @ show_nat (unat (sb_public_port (dc_subscription cfg))) @
     ''/sub/'' @ token @ ''?format=hiddify''"

definition subscription_url_singbox :: "DeploymentConfig \<Rightarrow> string \<Rightarrow> string" where
  "subscription_url_singbox cfg token =
     ''https://'' @ dc_subscription_host cfg @ '':'' @ show_nat (unat (sb_public_port (dc_subscription cfg))) @
     ''/sub/'' @ token @ ''?format=singbox''"

subsection \<open>What a command can touch\<close>

text \<open>Bringing a configuration to the server touches the service's own directory only.\<close>

definition service_dir :: "DeploymentConfig \<Rightarrow> path" where
  "service_dir cfg = dc_state_dir cfg @ [''sing-box'']"

definition service_paths :: "DeploymentConfig \<Rightarrow> path set" where
  "service_paths cfg = set (prefixes (service_dir cfg)) \<union> range (\<lambda>n. service_dir cfg @ [n])"

lemma service_path: "service_dir cfg @ [n] \<in> service_paths cfg"
  by (simp add: service_paths_def)

lemma config_file_service: "singbox_config_file cfg = service_dir cfg @ [''config.json'']"
  by (simp add: singbox_config_file_def service_dir_def)

lemma service_paths_known [intro, simp]:
  "singbox_config_file cfg \<in> service_paths cfg"
  "tmp_path_for d (singbox_config_file cfg) pid \<in> service_paths cfg"
  "config_backup_path (singbox_config_file cfg) \<in> service_paths cfg"
  "applied_config_stamp_path (singbox_config_file cfg) \<in> service_paths cfg"
  "with_extension (applied_config_stamp_path (singbox_config_file cfg)) ext \<in> service_paths cfg"
  "prefix p (butlast (singbox_config_file cfg)) \<Longrightarrow> p \<in> service_paths cfg"
  unfolding config_file_service
  by (simp_all add: tmp_path_for_def config_backup_path_def applied_config_stamp_path_def with_extension_def
      path_set_file_name_def service_path) (simp add: service_paths_def)

lemma users_file_elsewhere [simp]: "users_file cfg \<notin> service_paths cfg"
  by (auto simp: users_file_def service_paths_def service_dir_def dest: prefix_length_le)

lemma frame_admin_io [frame_intros]: "frame S m \<Longrightarrow> frame S (admin_io m)"
  unfolding admin_io_def by (rule frame_intros)

lemma frame_load_reality [frame_intros]: "frame S (load_reality_params E cfg)"
  unfolding load_reality_params_def Let_def by (intro frame_intros)

lemma frame_load_hysteria [frame_intros]: "frame S (load_hysteria_params E cfg)"
  unfolding load_hysteria_params_def Let_def by (intro frame_intros)

lemma frame_apply_config [frame_intros]:
  "frame (service_paths cfg) (apply_config_atomically to_vec dbg doc (singbox_config_file cfg) (SingBoxBackend_validate c))"
  unfolding SingBoxBackend_apply_def [symmetric] apply_as_install install_validated_def
  by (auto intro!: frame_intros split: sum.split)

lemma frame_commit_stamp [frame_intros]:
  "frame (service_paths cfg) (commit_applied_config_stamp (singbox_config_file cfg) fp)"
  unfolding commit_applied_config_stamp_def write_secret_file_def fsync_dir_def admin_io_def Let_def
  by (auto intro!: frame_intros split: option.split)

lemma frame_matches [frame_intros]:
  "frame S (target_already_matches E target doc)" "frame S (applied_stamp_matches target fp)"
  unfolding target_already_matches_def applied_stamp_matches_def by (intro frame_intros)+

lemma steady_client [steady_intros]: "steady same_disk (run_reality_client_selftest E re u p)"
  by (simp add: steady_def same_disk_def run_reality_client_selftest_def split: prod.split)

lemma service_same_files [steady_intros]:
  "steady (same_files Q) (mgr_is_active S m)" "steady (same_files Q) (is_available S)"
  "steady (same_files Q) (is_unit_installed S m)" "steady (same_files Q) (reload_and_verify S m)"
  "steady (same_files Q) (run_reality_client_selftest E re u p)"
  by (intro same_disk_files steady_intros)+

lemma steady_verify [steady_intros]: "steady (same_files Q) (verify_reality_handshake_or_warn E cfg users re p)"
  unfolding verify_reality_handshake_or_warn_def
  by (auto intro!: steady_intros disk_same_files frame_intros split: option.split)

lemma steady_restore [steady_intros]:
  "steady (same_files (service_paths cfg)) (restore_previous_config S m (singbox_config_file cfg))"
  unfolding restore_previous_config_def Let_def
  by (auto intro!: steady_intros disk_same_files frame_intros split: sum.split)

lemma steady_reload_applied [steady_intros]: "steady (same_files (service_paths cfg)) (reload_applied E cfg users re fp)"
  unfolding reload_applied_def verify_and_record_def Let_def
  by (auto intro!: steady_intros disk_same_files frame_intros split: sum.split)

lemma steady_render [steady_intros]:
  "steady (same_files (service_paths cfg)) (render_and_apply_singbox_config E cfg users live)"
  unfolding render_and_apply_singbox_config_def apply_singbox_config_def service_available_def Let_def
  by (auto intro!: steady_intros disk_same_files frame_intros split: sum.split)

end
