(* ===== verification/Admin_Apply.thy ===== *)
theory Admin_Apply
  imports Admin_Config "HOL-Library.Code_Target_Nat"
begin

text \<open>
  What applying a configuration does to the running server. The lemmas follow
  \<open>render_and_apply_singbox_config\<close> from the inside out: a reload, going back to the backup, the
  self-test and the stamp, the installation, the whole command. Each step's possible ends are
  one predicate, so that the command's are a case distinction over its result.
\<close>

text \<open>
  What is relied on beyond the service manager: the throwaway client is another process, so it
  does not change what the server has loaded.
\<close>

definition admin_ok :: "'s admin_env \<Rightarrow> DeploymentConfig \<Rightarrow> ('s \<Rightarrow> u8 list option) \<Rightarrow> bool" where
  "admin_ok E cfg running \<longleftrightarrow>
     systemd_ok (ae_systemd E) (singbox_config_file cfg) running \<and>
     (\<forall>c w s. running (snd (ae_client E c w s)) = running s)"

text \<open>The bytes \<open>b\<close> are in the configuration file and the server has loaded them.\<close>

definition live_bytes :: "DeploymentConfig \<Rightarrow> ('s \<Rightarrow> u8 list option) \<Rightarrow> u8 list \<Rightarrow> 's host \<Rightarrow> bool" where
  "live_bytes cfg running b h \<longleftrightarrow>
     running (snd h) = Some b \<and> (\<exists>m. holds_data b m (w_fs (fst h) (singbox_config_file cfg)))"

definition went_back :: "DeploymentConfig \<Rightarrow> ('s \<Rightarrow> u8 list option) \<Rightarrow> 's host \<Rightarrow> 's host \<Rightarrow> bool" where
  "went_back cfg running h h' \<longleftrightarrow>
     (\<exists>old. w_fs (fst h) (config_backup_path (singbox_config_file cfg)) = Some old \<and>
        live_bytes cfg running (i_content old) h')"

definition reload_outcome ::
    "DeploymentConfig \<Rightarrow> ('s \<Rightarrow> u8 list option) \<Rightarrow> u8 list \<Rightarrow> 's host \<Rightarrow> admin_error + bool \<Rightarrow> 's host \<Rightarrow> bool" where
  "reload_outcome cfg running b h r h' \<longleftrightarrow>
     (case r of
        Inr live \<Rightarrow> if live then live_bytes cfg running b h' else same_running running h h'
      | Inl (StampFailed _) \<Rightarrow> live_bytes cfg running b h'
      | Inl (HandshakeFailed recovered) \<Rightarrow> recovered \<longrightarrow> went_back cfg running h h'
      | Inl (ReloadFailed _ recovered) \<Rightarrow> recovered \<longrightarrow> went_back cfg running h h'
      | Inl _ \<Rightarrow> False)"

lemma target_nonempty [simp]: "singbox_config_file cfg \<noteq> []"
  by (simp add: singbox_config_file_def)

lemma holds_data_content: "holds_data b m n \<Longrightarrow> map_option i_content n = Some b"
  by (auto simp: holds_data_def split: option.splits)

lemma reload_makes_live:
  assumes "admin_ok E cfg running" and "holds_data b m (w_fs (fst h) (singbox_config_file cfg))"
    and "reload_and_verify (ae_systemd E) service_manager_default h = (Inr (), h')"
  shows "live_bytes cfg running b h'" "fst h' = fst h"
proof -
  have "service_ok (ae_systemd E) (sm_service_name service_manager_default) (file_content (singbox_config_file cfg)) running"
    using assms(1) by (simp add: admin_ok_def systemd_ok_def service_manager_default_def service_manager_def)
  from reload_and_verify_loads [OF this assms(3)] show "fst h' = fst h" "live_bytes cfg running b h'"
    using assms(2) holds_data_content [OF assms(2)] by (auto simp: live_bytes_def file_content_def)
qed

lemma path_exists_total: "\<exists>b w'. path_exists p w = (Inr b, w') \<and> w_fs w' = w_fs w"
  by (auto simp: path_exists_def try_io_def return_io_def prim_def split: list.splits fault.splits)

lemma ask_total: "\<exists>b h'. ask S args p h = (Inr b, h')"
  by (simp add: ask_def try_io_def return_io_def split: prod.split)

lemma observers_total:
  "\<exists>b h'. is_available S h = (Inr b, h')" "\<exists>b h'. is_unit_installed S m h = (Inr b, h')"
  "\<exists>b h'. mgr_is_active S m h = (Inr b, h')"
  unfolding is_available_def is_unit_installed_def mgr_is_active_def Let_def by (rule ask_total)+

lemma restore_result:
  assumes ok: "admin_ok E cfg running"
    and run: "restore_previous_config (ae_systemd E) service_manager_default (singbox_config_file cfg) h = (r, h')"
  shows "\<exists>recovered. r = Inr recovered \<and> (recovered \<longrightarrow> went_back cfg running h h')"
proof -
  let ?t = "singbox_config_file cfg"
  obtain present w1 where w1: "path_exists (config_backup_path ?t) (fst h) = (Inr present :: 'b + bool, w1)" "w_fs w1 = w_fs (fst h)"
    using path_exists_total by blast
  obtain copied w2 where w2: "fs_copy (config_backup_path ?t) ?t w1 = (copied, w2)"
    by (metis surj_pair)
  obtain rl h3 where h3: "reload_and_verify (ae_systemd E) service_manager_default (w2, snd h) = (rl, h3)"
    by (metis surj_pair)
  have "went_back cfg running h h3" if "copied = Inr ()" "rl = Inr ()"
    using fs_copy_data [OF w2 [unfolded that(1)] config_backup_path_neq(1)] reload_makes_live [OF ok _ h3 [unfolded that(2)]] w1(2)
    unfolding went_back_def by (metis fst_conv target_nonempty)
  with run w1(1) w2 h3 show ?thesis
    by (auto simp: restore_previous_config_def Let_def bind_io_def disk_def try_io_def return_io_def split: if_splits sum.splits)
qed

lemma verify_result:
  fixes r :: "'e + HandshakeVerification"
  assumes "admin_ok E cfg running"
    and "verify_reality_handshake_or_warn E cfg users re p h = (r, h')"
  shows "\<exists>v. r = Inr v" "same_running running h h'" "same_files {} h h'"
proof -
  have "steady (same_running running) (run_reality_client_selftest E re u p)" for u
    using assms(1) by (simp add: steady_def same_running_def run_reality_client_selftest_def admin_ok_def split_beta)
  then have "steady (same_running running) (verify_reality_handshake_or_warn E cfg users re p)"
    unfolding verify_reality_handshake_or_warn_def by (auto intro!: steady_intros split: option.split)
  from steadyD [OF this assms(2)] show "same_running running h h'" .
  show "same_files {} h h'"
    by (rule steadyD [OF steady_verify assms(2)])
  obtain b w where "path_exists (dc_singbox_binary cfg) (fst h) = (Inr b :: 'e + bool, w)"
    using path_exists_total by blast
  with assms(2) show "\<exists>v. r = Inr v"
    by (auto simp: verify_reality_handshake_or_warn_def bind_io_def disk_def get_world_def return_io_def try_io_def
        split: if_splits option.splits prod.splits)
qed

lemma stamp_result:
  assumes "live_bytes cfg running b h" and "disk (commit_applied_config_stamp (singbox_config_file cfg) fp) h = (r, h')"
  shows "live_bytes cfg running b h'"
proof -
  let ?s = "applied_config_stamp_path (singbox_config_file cfg)"
  have s: "?s = service_dir cfg @ [''config.applied.sha256'']"
    "with_extension (service_dir cfg @ [''config.applied.sha256'']) ext = service_dir cfg @ [''config.applied.'' @ ext]" for ext
    by (simp_all add: config_file_service applied_config_stamp_path_def with_extension_def file_stem_def)
  have "frame (- {singbox_config_file cfg}) (commit_applied_config_stamp (singbox_config_file cfg) fp)"
    unfolding commit_applied_config_stamp_def write_secret_file_def fsync_dir_def admin_io_def Let_def s
    by (auto simp: config_file_service intro!: frame_intros split: option.split)
  from steadyD [OF disk_same_files [OF this] assms(2)] have "w_fs (fst h') (singbox_config_file cfg) = w_fs (fst h) (singbox_config_file cfg)"
    by (simp add: same_files_def)
  moreover have "snd h' = snd h"
    using assms(2) by (auto simp: disk_eq)
  ultimately show ?thesis
    using assms(1) by (simp add: live_bytes_def)
qed

lemma verify_and_record_result:
  assumes ok: "admin_ok E cfg running" and b: "live_bytes cfg running b h"
    and run: "verify_and_record E cfg users re fp h = (r, h')"
  shows "reload_outcome cfg running b h r h'" "r \<noteq> Inr False"
proof -
  obtain v h1 where h1: "verify_reality_handshake_or_warn E cfg users re (sp_vless_reality_port (server_ports cfg)) h =
      (Inr v :: admin_error + _, h1)"
    using verify_result(1) [OF ok] by (metis surj_pair)
  note v = verify_result(2,3) [OF ok h1]
  have b1: "live_bytes cfg running b h1"
    using b v by (simp add: live_bytes_def same_running_def same_files_def)
  obtain rec h2 where h2: "restore_previous_config (ae_systemd E) service_manager_default (singbox_config_file cfg) h1 =
      (Inr rec :: admin_error + _, h2)" "rec \<Longrightarrow> went_back cfg running h1 h2"
    using restore_result [OF ok] by (metis surj_pair)
  obtain st h3 where h3: "disk (commit_applied_config_stamp (singbox_config_file cfg) fp) h1 = (st, h3)"
    by (metis surj_pair)
  have "went_back cfg running h h2" if rec
    using h2(2) [OF that] v(2) by (simp add: went_back_def same_files_def)
  with run h1 h2(1) h3 stamp_result [OF b1 h3] show "reload_outcome cfg running b h r h'" "r \<noteq> Inr False"
    by (auto simp: verify_and_record_def bind_io_def map_err_io_def return_io_def fail_io_def reload_outcome_def map_err_def
        split: if_splits sum.splits)
qed

lemma observer_result:
  assumes "steady same_disk m" "steady (same_running running) m" "\<exists>b h'. m h = (Inr b, h')"
  shows "\<exists>b h'. m h = (Inr b, h') \<and> fst h' = fst h \<and> same_running running h h'"
proof -
  obtain b h' where h': "m h = (Inr b, h')"
    using assms(3) by blast
  with steadyD [OF assms(1) h'] steadyD [OF assms(2) h'] show ?thesis
    unfolding same_disk_def by blast
qed

lemma observed:
  assumes "admin_ok E cfg running"
  shows "\<exists>b h'. is_available (ae_systemd E) h = (Inr b, h') \<and> fst h' = fst h \<and> same_running running h h'"
    "\<exists>b h'. is_unit_installed (ae_systemd E) m h = (Inr b, h') \<and> fst h' = fst h \<and> same_running running h h'"
    "\<exists>b h'. mgr_is_active (ae_systemd E) m h = (Inr b, h') \<and> fst h' = fst h \<and> same_running running h h'"
proof -
  have "service_ok (ae_systemd E) ''sing-box'' (file_content (singbox_config_file cfg)) running"
    using assms by (simp add: admin_ok_def systemd_ok_def)
  note quiet = observers_same_running [OF this]
  show "\<exists>b h'. is_available (ae_systemd E) h = (Inr b, h') \<and> fst h' = fst h \<and> same_running running h h'"
    by (rule observer_result [OF mgr_is_active_steady(2) quiet(2) observers_total(1)])
  show "\<exists>b h'. is_unit_installed (ae_systemd E) m h = (Inr b, h') \<and> fst h' = fst h \<and> same_running running h h'"
    by (rule observer_result [OF mgr_is_active_steady(3) quiet(3) observers_total(2)])
  show "\<exists>b h'. mgr_is_active (ae_systemd E) m h = (Inr b, h') \<and> fst h' = fst h \<and> same_running running h h'"
    by (rule observer_result [OF mgr_is_active_steady(1) quiet(1) observers_total(3)])
qed

lemma reload_or_restore:
  assumes ok: "admin_ok E cfg running" and b: "holds_data b m (w_fs (fst h) (singbox_config_file cfg))"
    and run: "try_io (reload_and_verify (ae_systemd E) service_manager_default) (\<lambda>reloaded.
        case reloaded of
          Inl reload_err \<Rightarrow>
            bind_io (restore_previous_config (ae_systemd E) service_manager_default (singbox_config_file cfg)) (\<lambda>recovered.
            fail_io (ReloadFailed reload_err recovered))
        | Inr _ \<Rightarrow> verify_and_record E cfg users re fp) h = (r, h')"
  shows "reload_outcome cfg running b h r h'"
proof -
  obtain rl h1 where h1: "reload_and_verify (ae_systemd E) service_manager_default h = (rl, h1)"
    by (metis surj_pair)
  have disk: "fst h1 = fst h"
    using steadyD [OF reload_same_disk(2) h1] by (simp add: same_disk_def)
  show ?thesis
  proof (cases rl)
    case (Inl e)
    obtain rec h2 where "restore_previous_config (ae_systemd E) service_manager_default (singbox_config_file cfg) h1 =
        (Inr rec :: admin_error + _, h2)" "rec \<Longrightarrow> went_back cfg running h1 h2"
      using restore_result [OF ok] by (metis surj_pair)
    with run h1 Inl disk show ?thesis
      by (auto simp: try_io_def bind_io_def fail_io_def reload_outcome_def went_back_def)
  next
    case (Inr u)
    with run h1 have v: "verify_and_record E cfg users re fp h1 = (r, h')"
      by (simp add: try_io_def)
    have "live_bytes cfg running b h1"
      using reload_makes_live(1) [OF ok b] h1 Inr by simp
    from verify_and_record_result [OF ok this v] show ?thesis
      using disk by (auto simp: reload_outcome_def went_back_def split: sum.splits admin_error.splits)
  qed
qed

lemma reload_applied_result:
  assumes ok: "admin_ok E cfg running" and b: "holds_data b m (w_fs (fst h) (singbox_config_file cfg))"
    and run: "reload_applied E cfg users re fp h = (r, h')"
  shows "reload_outcome cfg running b h r h'"
proof -
  obtain a h1 where h1: "is_available (ae_systemd E) h = (Inr a :: admin_error + bool, h1)" "fst h1 = fst h" "same_running running h h1"
    using observed(1) [OF ok] by blast
  obtain i h2 where h2: "is_unit_installed (ae_systemd E) service_manager_default h1 = (Inr i :: admin_error + bool, h2)"
      "fst h2 = fst h1" "same_running running h1 h2"
    using observed(2) [OF ok] by blast
  show ?thesis
  proof (cases "a \<and> i")
    case True
    have "reload_outcome cfg running b h2 r h'"
      by (rule reload_or_restore [OF ok]) (use run h1 h2 b True in \<open>auto simp: reload_applied_def Let_def bind_io_def\<close>)
    then show ?thesis
      using h1 h2 by (auto simp: reload_outcome_def went_back_def same_running_def split: sum.splits admin_error.splits)
  next
    case False
    with run h1(1) h2(1) have "r = Inr False \<and> (h' = h1 \<or> h' = h2)"
      by (auto simp: reload_applied_def Let_def bind_io_def return_io_def split: if_splits)
    with h1(3) h2(3) show ?thesis
      by (auto simp: reload_outcome_def same_running_def)
  qed
qed

text \<open>Steps that only look: files, loaded configuration and clock stay, and no fault is added.\<close>

definition quiet :: "('s \<Rightarrow> u8 list option) \<Rightarrow> 's host \<Rightarrow> 's host \<Rightarrow> bool" where
  "quiet running h h' \<longleftrightarrow>
     w_fs (fst h') = w_fs (fst h) \<and> w_unix_time (fst h') = w_unix_time (fst h) \<and> same_running running h h' \<and>
     (w_faults (fst h) = [] \<longrightarrow> w_faults (fst h') = [])"

lemma quiet_pre_order: "pre_order (quiet running)"
  by (simp add: pre_order_def quiet_def same_running_def)

lemma faultless_reads [faultless_intros]:
  "faultless (path_exists p)" "faultless (fs_read p)" "faultless (fail_io e)"
  by (auto simp: faultless_def path_exists_def fs_read_def fail_io_def try_io_def return_io_def prim_def split: option.splits)

lemma faultless_try [faultless_intros]: "faultless m \<Longrightarrow> (\<And>r. faultless (f r)) \<Longrightarrow> faultless (try_io m f)"
  unfolding faultless_def try_io_def by (auto split: prod.splits)

lemma faultless_map_err [faultless_intros]: "faultless m \<Longrightarrow> faultless (map_err_io g m)"
  unfolding faultless_def map_err_io_def by (auto split: prod.splits)

lemma faultless_read_to_string [faultless_intros]: "faultless (read_to_string p)"
  unfolding read_to_string_def by (intro faultless_intros)

lemma disk_quiet:
  assumes "frame {} m" "faultless m" "disk m h = (r, h')"
  shows "quiet running h h'"
proof -
  obtain w where w: "m (fst h) = (r, w)" "h' = (w, snd h)"
    using assms(3) by (auto simp: disk_eq)
  then have "w_fs w p = w_fs (fst h) p" "w_unix_time w = w_unix_time (fst h)" for p
    using assms(1) unfolding frame_def by (metis empty_iff snd_conv)+
  then show ?thesis
    using faultlessD [OF assms(2) w(1)] w(2) by (auto simp: quiet_def same_running_def)
qed

lemma observed_quiet: "fst h' = fst h \<Longrightarrow> same_running running h h' \<Longrightarrow> quiet running h h'"
  by (simp add: quiet_def)

text \<open>The document a rendering of these users gives, and the two ways it can be what runs: it was
  validated, installed and loaded; or the file already says the same, the stamp records it
  as loaded, and nothing was changed.\<close>

definition rendering :: "'s admin_env \<Rightarrow> DeploymentConfig \<Rightarrow> CompatUser list \<Rightarrow> world \<Rightarrow> Value \<Rightarrow> bool" where
  "rendering E cfg users w doc \<longleftrightarrow>
     (\<exists>reality hysteria w1 w2. load_reality_params E cfg w = (Inr reality, w1) \<and>
        load_hysteria_params E cfg w1 = (Inr hysteria :: admin_error + _, w2) \<and>
        doc = render_singbox_server_config users reality hysteria (server_ports cfg) (sint (w_unix_time w)))"

definition installed :: "'s admin_env \<Rightarrow> DeploymentConfig \<Rightarrow> ('s \<Rightarrow> u8 list option) \<Rightarrow> Value \<Rightarrow> 's host \<Rightarrow> bool" where
  "installed E cfg running doc h \<longleftrightarrow>
     (\<exists>bytes msg. ae_to_vec_pretty E doc = Inr bytes \<and> ae_check E (Some bytes) = Inr (True, msg) \<and>
        live_bytes cfg running bytes h)"

definition already_current :: "'s admin_env \<Rightarrow> DeploymentConfig \<Rightarrow> Value \<Rightarrow> world \<Rightarrow> bool" where
  "already_current E cfg doc w \<longleftrightarrow>
     (\<exists>n v. w_fs w (singbox_config_file cfg) = Some n \<and> ae_from_slice E (i_content n) = Inr v \<and> json_eq v doc) \<and>
     (\<exists>m stamp. w_fs w (applied_config_stamp_path (singbox_config_file cfg)) = Some m \<and>
        from_utf8 (i_content m) = Some stamp \<and> rendered_config_fingerprint E doc = Inr (trim stamp))"

definition apply_outcome ::
    "'s admin_env \<Rightarrow> DeploymentConfig \<Rightarrow> ('s \<Rightarrow> u8 list option) \<Rightarrow> Value \<Rightarrow> 's host \<Rightarrow> admin_error + bool \<Rightarrow> 's host \<Rightarrow> bool" where
  "apply_outcome E cfg running doc h r h' \<longleftrightarrow>
     (let target = singbox_config_file cfg;
          restored = (\<forall>old. w_faults (fst h) = [] \<and> w_fs (fst h) target = Some old \<longrightarrow>
            live_bytes cfg running (i_content old) h')
      in case r of
           Inr live \<Rightarrow>
             if live then installed E cfg running doc h' \<or>
               already_current E cfg doc (fst h) \<and> same_running running h h' \<and> w_fs (fst h') = w_fs (fst h)
             else same_running running h h'
         | Inl (StampFailed _) \<Rightarrow> installed E cfg running doc h'
         | Inl (HandshakeFailed recovered) \<Rightarrow> recovered \<longrightarrow> restored
         | Inl (ReloadFailed _ recovered) \<Rightarrow> recovered \<longrightarrow> restored
         | Inl _ \<Rightarrow> same_running running h h' \<and> w_fs (fst h') target = w_fs (fst h) target)"

lemma quiet_outcome:
  assumes "quiet running h h1" and "apply_outcome E cfg running doc h1 r h'"
  shows "apply_outcome E cfg running doc h r h'"
proof -
  have "w_fs (fst h1) = w_fs (fst h)" "running (snd h1) = running (snd h)" "w_faults (fst h) = [] \<Longrightarrow> w_faults (fst h1) = []"
    using assms(1) by (simp_all add: quiet_def same_running_def)
  with assms(2) show ?thesis
    unfolding apply_outcome_def already_current_def same_running_def Let_def
    by (auto split: sum.splits admin_error.splits)
qed

lemma reload_to_apply_outcome:
  assumes "reload_outcome cfg running b h1 r h'" and "snd h1 = snd h" and "installed E cfg running doc h' \<longleftrightarrow> live_bytes cfg running b h'"
    and "\<And>old. went_back cfg running h1 h' \<Longrightarrow> w_faults (fst h) = [] \<Longrightarrow> w_fs (fst h) (singbox_config_file cfg) = Some old \<Longrightarrow>
      live_bytes cfg running (i_content old) h'"
  shows "apply_outcome E cfg running doc h r h'"
proof (cases r)
  case (Inl e)
  with assms show ?thesis
    by (cases e) (simp_all add: reload_outcome_def apply_outcome_def Let_def)
next
  case (Inr live)
  with assms(1-3) show ?thesis
    by (cases live) (simp_all add: reload_outcome_def apply_outcome_def Let_def same_running_def)
qed

lemma install_result:
  assumes ok: "admin_ok E cfg running"
    and run: "bind_io (map_err_io ApplyFailed (disk (apply_config_atomically (ae_to_vec_pretty E) (ae_dbg E) doc
        (singbox_config_file cfg) (SingBoxBackend_validate (ae_check E))))) (\<lambda>_. reload_applied E cfg users re fp) h = (r, h')"
  shows "apply_outcome E cfg running doc h r h'"
proof -
  obtain ar w1 where w1: "SingBoxBackend_apply (ae_to_vec_pretty E) (ae_dbg E) (ae_check E) doc (singbox_config_file cfg) (fst h) = (ar, w1)"
    by (metis surj_pair)
  show ?thesis
  proof (cases ar)
    case (Inl e)
    with run w1 have "r = Inl (ApplyFailed e)" "h' = (w1, snd h)"
      by (simp_all add: bind_io_def map_err_io_def disk_def SingBoxBackend_apply_def)
    then show ?thesis
      using apply_keeps_on_error [OF target_nonempty, unfolded keeps_on_error_def, rule_format, OF w1 [unfolded Inl]]
      by (simp add: apply_outcome_def same_running_def)
  next
    case (Inr u)
    then have w1': "SingBoxBackend_apply (ae_to_vec_pretty E) (ae_dbg E) (ae_check E) doc (singbox_config_file cfg) (fst h) = (Inr (), w1)"
      using w1 by simp
    with run have rl: "reload_applied E cfg users re fp (w1, snd h) = (r, h')"
      by (simp add: bind_io_def map_err_io_def disk_def SingBoxBackend_apply_def)
    obtain b m msg where b: "ae_to_vec_pretty E doc = Inr b" "ae_check E (Some b) = Inr (True, msg)"
        "holds_data b m (w_fs w1 (singbox_config_file cfg))"
      using apply_installs_validated [OF w1'] target_nonempty by auto
    show ?thesis
    proof (rule reload_to_apply_outcome [OF reload_applied_result [OF ok _ rl]])
      show "holds_data b m (w_fs (fst (w1, snd h)) (singbox_config_file cfg))"
        using b(3) by simp
      show "installed E cfg running doc h' \<longleftrightarrow> live_bytes cfg running b h'"
        using b(1,2) by (simp add: installed_def)
      show "live_bytes cfg running (i_content old) h'"
        if "went_back cfg running (w1, snd h) h'" "w_faults (fst h) = []" "w_fs (fst h) (singbox_config_file cfg) = Some old" for old
        using apply_keeps_backup [OF w1' target_nonempty that(2,3)] that(1) by (auto simp: went_back_def holds_data_def)
    qed simp
  qed
qed

lemma matches_result:
  assumes "target_already_matches E (singbox_config_file cfg) doc w = (Inr same :: admin_error + bool, w1)" "same"
    and "applied_stamp_matches (singbox_config_file cfg) fp w1 = (Inr stamped :: admin_error + bool, w2)" "stamped"
    and "rendered_config_fingerprint E doc = Inr fp"
  shows "already_current E cfg doc w"
proof -
  obtain r where r: "fs_read (singbox_config_file cfg) w = (r, w1)"
    and same: "case bind_r (map_err io_detail r) (ae_from_slice E) of Inr v \<Rightarrow> json_eq v doc | Inl _ \<Rightarrow> False"
    using assms(1,2) by (auto simp: target_already_matches_def try_io_def return_io_def split: prod.splits)
  then obtain bytes v where "r = Inr bytes" and v: "ae_from_slice E bytes = Inr v" "json_eq v doc"
    by (cases r) (auto simp: bind_r_def split: sum.splits)
  with fs_read_result [of "singbox_config_file cfg" w bytes w1] r
  obtain n where n: "w_fs w (singbox_config_file cfg) = Some n" "i_content n = bytes" "w_fs w1 = w_fs w"
    by auto
  obtain stamp where "read_to_string (applied_config_stamp_path (singbox_config_file cfg)) w1 = (Inr stamp, w2)" "trim stamp = fp"
    using assms(3,4) by (auto simp: applied_stamp_matches_def try_io_def return_io_def split: prod.splits sum.splits)
  with read_to_string_result [of "applied_config_stamp_path (singbox_config_file cfg)" w1] n v assms(5) show ?thesis
    unfolding already_current_def by fastforce
qed

lemma service_observed:
  assumes "admin_ok E cfg running"
  shows "\<exists>b h'. service_available (ae_systemd E) m h = (Inr b :: 'e + bool, h') \<and> fst h' = fst h \<and> same_running running h h'"
proof -
  obtain a h1 where h1: "is_available (ae_systemd E) h = (Inr a :: 'e + bool, h1)" "fst h1 = fst h" "same_running running h h1"
    using observed(1) [OF assms] by blast
  obtain i h2 where h2: "is_unit_installed (ae_systemd E) m h1 = (Inr i :: 'e + bool, h2)" "fst h2 = fst h1" "same_running running h1 h2"
    using observed(2) [OF assms] by blast
  from h1 h2 show ?thesis
    by (cases a) (auto simp: service_available_def bind_io_def return_io_def same_running_def)
qed

lemma probes_total:
  "\<exists>b h'. disk (path_exists p) h = (Inr b, h')"
  "\<exists>b h'. disk (target_already_matches E target doc) h = (Inr b, h')"
  "\<exists>b h'. disk (applied_stamp_matches target fp) h = (Inr b, h')"
  by (simp_all add: disk_def path_exists_def target_already_matches_def applied_stamp_matches_def try_io_def return_io_def
      split: prod.split)

lemma probes_quiet:
  assumes "disk m h = (r, h')"
    and "m = path_exists p \<or> m = target_already_matches E target doc \<or> m = applied_stamp_matches target fp"
  shows "quiet running h h'"
  by (rule disk_quiet [OF _ _ assms(1)])
    (use assms(2) in \<open>auto simp: target_already_matches_def applied_stamp_matches_def intro!: frame_intros faultless_intros\<close>)

lemma quiet_trans: "quiet running a b \<Longrightarrow> quiet running b c \<Longrightarrow> quiet running a c"
  using quiet_pre_order [of running] unfolding pre_order_def by blast

lemma quiet_results:
  "quiet running h h' \<Longrightarrow> apply_outcome E cfg running doc h (Inr False) h'"
  "quiet running h h' \<Longrightarrow> apply_outcome E cfg running doc h (Inl NoBinary) h'"
  "quiet running h h' \<Longrightarrow> apply_outcome E cfg running doc h (Inl NoService) h'"
  "quiet running h h' \<Longrightarrow> already_current E cfg doc (fst h) \<Longrightarrow> apply_outcome E cfg running doc h (Inr True) h'"
  by (simp_all add: apply_outcome_def quiet_def)

lemma apply_singbox_config_result:
  assumes ok: "admin_ok E cfg running" and fp: "rendered_config_fingerprint E doc = Inr fp"
    and run: "apply_singbox_config E cfg users re doc fp live h = (r, h')"
  shows "apply_outcome E cfg running doc h r h'"
proof -
  obtain present h1 where h1: "disk (path_exists (dc_singbox_binary cfg)) h = (Inr present :: admin_error + _, h1)"
    using probes_total(1) by blast
  obtain service h2 where h2: "service_available (ae_systemd E) service_manager_default h1 = (Inr service :: admin_error + _, h2)"
      "fst h2 = fst h1" "same_running running h1 h2"
    using service_observed [OF ok] by blast
  obtain same h3 where h3: "disk (target_already_matches E (singbox_config_file cfg) doc) h2 = (Inr same :: admin_error + _, h3)"
    using probes_total(2) by blast
  obtain stamped h4 where h4: "disk (applied_stamp_matches (singbox_config_file cfg) fp) h3 = (Inr stamped :: admin_error + _, h4)"
    using probes_total(3) by blast
  obtain active h5 where h5: "mgr_is_active (ae_systemd E) service_manager_default h4 = (Inr active :: admin_error + _, h5)"
      "fst h5 = fst h4" "same_running running h4 h5"
    using observed(3) [OF ok] by blast
  have q2: "quiet running h h1" "quiet running h h2"
    using probes_quiet [OF h1] observed_quiet [OF h2(2,3)] by (blast intro: quiet_trans)+
  have q4: "quiet running h h4"
    using q2(2) probes_quiet [OF h3] probes_quiet [OF h4] by (blast intro: quiet_trans)
  have q5: "quiet running h h5"
    using q4 observed_quiet [OF h5(2,3)] by (rule quiet_trans)
  have current: "already_current E cfg doc (fst h)" if same stamped
    using matches_result [of E cfg doc "fst h2" same "fst h3" fp stamped "fst h4"] that h3 h4 fp q2(2)
    by (auto simp: disk_eq already_current_def quiet_def)
  have inst: "apply_outcome E cfg running doc h r h'" if "quiet running h g"
    "bind_io (map_err_io ApplyFailed (disk (apply_config_atomically (ae_to_vec_pretty E) (ae_dbg E) doc
        (singbox_config_file cfg) (SingBoxBackend_validate (ae_check E))))) (\<lambda>_. reload_applied E cfg users re fp) g = (r, h')" for g
    using quiet_outcome [OF that(1)] install_result [OF ok that(2)] .
  show ?thesis
    using run h1 h2(1) h3 h4 h5(1) quiet_results [OF q2(1), of E cfg doc] quiet_results [OF q2(2), of E cfg doc]
      quiet_results(4) [OF q5 current] inst [OF q4] inst [OF q5]
    by (simp add: apply_singbox_config_def Let_def bind_io_def return_io_def fail_io_def split: if_splits)
qed

lemma load_hysteria_total: "\<exists>hy w'. load_hysteria_params E cfg w = (Inr hy :: 'e + _, w')"
proof -
  obtain r w1 where r: "read_to_string (hysteria_obfs_password_file cfg) w = (r, w1)"
    by (metis surj_pair)
  obtain b w2 where "path_exists (hysteria_dir cfg @ [''masquerade'']) w1 = (Inr b :: 'e + bool, w2)"
    using path_exists_total by blast
  with r show ?thesis
    by (simp add: load_hysteria_params_def Let_def try_io_def bind_io_def return_io_def)
qed

lemma render_result:
  assumes ok: "admin_ok E cfg running" and run: "render_and_apply_singbox_config E cfg users live h = (r, h')"
  shows "(\<exists>doc. rendering E cfg users (fst h) doc \<and> apply_outcome E cfg running doc h r h') \<or>
    quiet running h h' \<and> (r = Inr False \<or> (\<exists>e. r = Inl (NoKeyset e)) \<or> (\<exists>e. r = Inl (AdminJson e)))"
proof -
  obtain lr w1 where w1: "load_reality_params E cfg (fst h) = (lr, w1)"
    by (metis surj_pair)
  have reads: "faultless (load_reality_params E cfg)" "faultless (load_hysteria_params E cfg :: _ \<Rightarrow> (admin_error + _) \<times> _)"
    unfolding load_reality_params_def load_hysteria_params_def admin_io_def Let_def
    by (auto intro!: faultless_intros split: sum.split)
  have q1: "quiet running h (w1, snd h)"
    by (rule disk_quiet [OF frame_load_reality reads(1)]) (simp add: disk_def w1)
  obtain hy w2 where w2: "load_hysteria_params E cfg w1 = (Inr hy :: admin_error + _, w2)"
    using load_hysteria_total by blast
  have q2: "quiet running h (w2, snd h)"
    by (rule quiet_trans [OF q1 disk_quiet [OF frame_load_hysteria reads(2)]]) (simp add: disk_def w2)
  show ?thesis
  proof (cases lr)
    case (Inl e)
    with run w1 q1 show ?thesis
      by (auto simp: render_and_apply_singbox_config_def Let_def try_io_def disk_def fail_io_def return_io_def split: if_splits)
  next
    case (Inr re)
    define doc where "doc = render_singbox_server_config users re hy (server_ports cfg) (sint (w_unix_time (fst h)))"
    have "w_unix_time w2 = w_unix_time (fst h)"
      using q2 by (simp add: quiet_def)
    with run w1 w2 Inr have run': "bind_io (lift_r (rendered_config_fingerprint E doc))
        (\<lambda>fp. apply_singbox_config E cfg users re doc fp (live \<and> \<not> ae_offline E)) (w2, snd h) = (r, h')"
      by (simp add: render_and_apply_singbox_config_def Let_def try_io_def disk_def bind_io_def [of "disk _"]
          bind_io_def [of "get_world _"] get_world_def doc_def)
    have doc: "rendering E cfg users (fst h) doc"
      using w1 w2 Inr unfolding rendering_def doc_def by blast
    show ?thesis
    proof (cases "rendered_config_fingerprint E doc")
      case (Inl e)
      with run' q2 show ?thesis
        by (auto simp: bind_io_def lift_r_def rendered_config_fingerprint_def bind_r_def map_err_def split: sum.splits)
    next
      case (Inr fp)
      with run' have "apply_singbox_config E cfg users re doc fp (live \<and> \<not> ae_offline E) (w2, snd h) = (r, h')"
        by (simp add: bind_io_def lift_r_def)
      from quiet_outcome [OF q2 apply_singbox_config_result [OF ok Inr this]] doc show ?thesis
        by blast
    qed
  qed
qed

subsection \<open>Properties\<close>

text \<open>C7. Applying a user list to the server ends in one of these ways. If it reports that the list is live, then the
  configuration rendered from exactly these users was accepted by sing-box, is in the configuration file and is what the
  server has loaded; or the file and the stamp already recorded it and nothing changed. If it reports that it is not
  live, the server's loaded configuration has not changed. If the reload or the handshake test fails and recovery is
  reported, then the server runs, and the file holds, the previous configuration. If only recording the stamp
  fails, the new configuration is live. Any other error leaves the loaded configuration and the file alone.\<close>

theorem config_apply_outcomes:
  assumes "admin_ok E cfg running" and "render_and_apply_singbox_config E cfg users require_live h = (r, h')"
  shows "case r of
      Inr True \<Rightarrow> \<exists>doc. rendering E cfg users (fst h) doc \<and> (installed E cfg running doc h' \<or>
        already_current E cfg doc (fst h) \<and> same_running running h h' \<and> w_fs (fst h') = w_fs (fst h))
    | Inr False \<Rightarrow> same_running running h h'
    | Inl (StampFailed _) \<Rightarrow> \<exists>doc. rendering E cfg users (fst h) doc \<and> installed E cfg running doc h'
    | Inl (HandshakeFailed recovered) \<Rightarrow> \<forall>old. recovered \<and> w_faults (fst h) = [] \<and>
        w_fs (fst h) (singbox_config_file cfg) = Some old \<longrightarrow> live_bytes cfg running (i_content old) h'
    | Inl (ReloadFailed _ recovered) \<Rightarrow> \<forall>old. recovered \<and> w_faults (fst h) = [] \<and>
        w_fs (fst h) (singbox_config_file cfg) = Some old \<longrightarrow> live_bytes cfg running (i_content old) h'
    | Inl _ \<Rightarrow> same_running running h h' \<and>
        w_fs (fst h') (singbox_config_file cfg) = w_fs (fst h) (singbox_config_file cfg)"
  using render_result [OF assms]
proof (elim disjE exE conjE)
  fix doc
  assume "rendering E cfg users (fst h) doc" "apply_outcome E cfg running doc h r h'"
  then show ?thesis
    unfolding apply_outcome_def Let_def
    by (cases r; simp split: bool.splits if_splits) (auto split: admin_error.splits)
qed (simp_all add: quiet_def)

definition demo_cfg :: DeploymentConfig where
  "demo_cfg = (deserialize_deployment (demo_raw (Some 1)))\<lparr>dc_state_dir := [''s''], dc_singbox_binary := [''sing-box'']\<rparr>"

text \<open>A service side that keeps a clock and the configuration it has loaded; a reload succeeds unless the
  configuration is one of those it cannot run.\<close>

definition demo_systemd :: "u8 list list \<Rightarrow> (nat \<times> u8 list option) systemd" where
  "demo_systemd broken =
     \<lparr>sd_systemctl = (\<lambda>args w s.
        if args = [''reload-or-restart'', ''sing-box'']
        then let c = map_option i_content (w_fs w (singbox_config_file demo_cfg)) in
             if c \<in> Some ` set broken then (Inr \<lparr>co_success = False, co_stdout = [], co_stderr = ''bad''\<rparr>, fst s, None)
             else (Inr \<lparr>co_success = True, co_stdout = [], co_stderr = []\<rparr>, fst s, c)
        else (Inr \<lparr>co_success = True, co_stdout = ''loaded'', co_stderr = []\<rparr>, s)),
      sd_sleep = (\<lambda>d s. (fst s + d, snd s)), sd_clock = fst\<rparr>"

definition demo_bob :: CompatUser where
  "demo_bob =
     \<lparr>cu_id = generate_user_id (replicate 16 0), cu_name = ''bob'', cu_enabled = True,
      cu_vless_uuid = generate_uuid_v4 (replicate 16 1), cu_hysteria2_password = SecretString ''ab'',
      cu_subscription_token_hash_hex = ''ab'', cu_created_at = 0, cu_expires_at = None\<rparr>"

definition demo_admin_json :: users_json where
  "demo_admin_json =
     (let code = [([store_user], [1]), ([store_user\<lparr>cu_enabled := False\<rparr>], [2]), ([], [3]), ([store_user, demo_bob], [4])];
          enc = (\<lambda>us. ok_or [] (map_of code us));
          dec = (\<lambda>bs. ok_or [] (map_of (map prod.swap code) bs))
      in \<lparr>uj_to_vec_pretty = (\<lambda>f. if uf_schema_version f = 1 then enc (uf_users f) else Inl []),
          uj_file = (\<lambda>bs. bind_r (dec bs) (\<lambda>us. Inr \<lparr>uf_schema_version = 1, uf_users = us\<rparr>)),
          uj_legacy = (\<lambda>_. Inl [])\<rparr>)"

text \<open>Documents are printed as one byte per user the REALITY inbound admits.\<close>

definition demo_admin :: "u8 list list \<Rightarrow> (nat \<times> u8 list option) admin_env" where
  "demo_admin broken =
     \<lparr>ae_systemd = demo_systemd broken, ae_check = (\<lambda>_. Inr (True, [])),
      ae_to_vec_pretty = (\<lambda>doc. Inr (map (\<lambda>_. 7) (elements (field (hd (elements (field doc [''inbounds'']))) [''users''])))),
      ae_from_slice = (\<lambda>_. Inl []), ae_to_string = (\<lambda>_. Inr ''json''), ae_to_string_pretty = (\<lambda>_. Inr ''json''),
      ae_qr = (\<lambda>_. Inr ()), ae_users_json = demo_admin_json,
      ae_sha = (\<lambda>bs. bs), ae_hex = \<lparr>hex_encode = (\<lambda>_. ''ab''), hex_decode = (\<lambda>_. Inl [])\<rparr>,
      ae_base64 = demo_base64, ae_mul_base = demo_mul,
      ae_generate = Inr \<lparr>co_success = True, co_stdout = ''PrivateKey: sk'' @ CHR 0x0A # ''PublicKey: pk'', co_stderr = []\<rparr>,
      ae_group = (\<lambda>_. Some 7), ae_tar_entries = (\<lambda>_. Inr []), ae_tar_build = (\<lambda>_. Inr []), ae_lock_path = None, ae_flock = Inr (),
      ae_toml = demo_toml, ae_to_value = demo_to_value,
      ae_dbg = (\<lambda>_. []), ae_lossy = concat, ae_offline = False,
      ae_client = (\<lambda>_ _ s. (Inr \<lparr>pr_relay_ok = True, pr_stderr = [], pr_journal = None\<rparr>, s))\<rparr>"

definition demo_node :: "bool \<Rightarrow> u8 list \<Rightarrow> inode" where
  "demo_node dir content = \<lparr>i_dir = dir, i_content = content, i_mode = mode_0640, i_uid = 0, i_gid = 7\<rparr>"

definition demo_host :: "(nat \<times> u8 list option) host" where
  "demo_host =
     (empty_world\<lparr>w_fs := map_of
        ([(p, demo_node True []). p \<leftarrow> [[], [''s''], [''s'', ''reality''], [''s'', ''sing-box''], [''s'', ''users'']]] @
         [([''sing-box''], demo_node False []),
          ([''s'', ''users'', ''users.json''], demo_node False [1]),
          ([''s'', ''sing-box'', ''config.json''], demo_node False [9]),
          ([''s'', ''reality'', ''private.key''], demo_node False (as_bytes ''sk'')),
          ([''s'', ''reality'', ''public.key''], demo_node False (as_bytes ''pk'')),
          ([''s'', ''reality'', ''short_id.txt''], demo_node False (as_bytes ''0a1b''))])\<rparr>, (0, Some [9]))"

lemma demo_admin_ok: "admin_ok (demo_admin broken) demo_cfg snd"
  by (auto simp: admin_ok_def systemd_ok_def clock_ok_def service_ok_def file_content_def demo_admin_def demo_systemd_def Let_def
      split: if_splits)

definition demo_apply :: "u8 list list \<Rightarrow> CompatUser list \<Rightarrow> (admin_error + bool) \<times> (nat \<times> u8 list option) host" where
  "demo_apply broken users = render_and_apply_singbox_config (demo_admin broken) demo_cfg users True demo_host"

theorem config_apply_outcomes_witness:
  "fst (demo_apply [] [store_user]) = Inr True \<and> snd (snd (snd (demo_apply [] [store_user]))) = Some [7] \<and>
   fst (demo_apply [[7]] [store_user]) = Inl (ReloadFailed ''systemctl reload-or-restart sing-box failed: bad'' True) \<and>
   live_bytes demo_cfg snd [9] (snd (demo_apply [[7]] [store_user]))"
proof -
  have good: "fst (demo_apply [] [store_user]) = Inr True \<and> snd (snd (snd (demo_apply [] [store_user]))) = Some [7]"
    by code_simp
  have bad: "fst (demo_apply [[7]] [store_user]) = Inl (ReloadFailed ''systemctl reload-or-restart sing-box failed: bad'' True)"
    by code_simp
  have old: "w_faults (fst demo_host) = []" "w_fs (fst demo_host) (singbox_config_file demo_cfg) = Some (demo_node False [9])"
    by code_simp+
  have "render_and_apply_singbox_config (demo_admin [[7]]) demo_cfg [store_user] True demo_host =
      (Inl (ReloadFailed ''systemctl reload-or-restart sing-box failed: bad'' True), snd (demo_apply [[7]] [store_user]))"
    using bad unfolding demo_apply_def by (metis prod.collapse)
  from config_apply_outcomes [OF demo_admin_ok this] old good bad show ?thesis
    by (simp add: demo_node_def)
qed

end
