(* ===== verification/Admin_Users.thy ===== *)
theory Admin_Users
  imports Admin_Apply Subscription_Service
begin

text \<open>
  The user commands of the administration tool, \<^verbatim>\<open>apps/admin/src/main.rs\<close>: creating, enabling, disabling,
  removing and listing users, rotating their credentials, and handing out links. Every
  change that the server must know goes through one transaction, which brings the new
  list to the running server and only then publishes it in the store. A command's result
  is what it prints that is not fixed text. Random bytes are arguments.
\<close>

subsection \<open>The transaction\<close>

definition admin_load_users :: "'s admin_env \<Rightarrow> DeploymentConfig \<Rightarrow> 's host \<Rightarrow> (admin_error + CompatUser list) \<times> 's host" where
  "admin_load_users E cfg = map_err_io AdminCompat (disk (load_users (ae_users_json E) (users_file cfg)))"

definition admin_save_users ::
    "'s admin_env \<Rightarrow> DeploymentConfig \<Rightarrow> CompatUser list \<Rightarrow> 's host \<Rightarrow> (CompatError + unit) \<times> 's host" where
  "admin_save_users E cfg users = disk (save_users_atomic (ae_users_json E) (ae_dbg E) (users_file cfg) users)"

definition apply_users_and_save ::
    "'s admin_env \<Rightarrow> DeploymentConfig \<Rightarrow> CompatUser list \<Rightarrow> CompatUser list \<Rightarrow> 's host \<Rightarrow> (admin_error + bool) \<times> 's host" where
  "apply_users_and_save E cfg previous_users users =
     bind_io (render_and_apply_singbox_config E cfg users True) (\<lambda>went_live.
     try_io (admin_save_users E cfg users) (\<lambda>saved.
     case saved of
       Inr _ \<Rightarrow> return_io went_live
     | Inl save_error \<Rightarrow>
         try_io (render_and_apply_singbox_config E cfg previous_users True) (\<lambda>rollback.
         fail_io (NotCommitted save_error (case rollback of Inr _ \<Rightarrow> True | Inl _ \<Rightarrow> False)))))"

text \<open>\<^verbatim>\<open>find_user_mut\<close> and the change made through the reference it returns.\<close>

fun find_user_mut :: "CompatUser list \<Rightarrow> string \<Rightarrow> (CompatUser \<Rightarrow> CompatUser) \<Rightarrow> admin_error + CompatUser list" where
  "find_user_mut [] i f = Inl (NoSuchUser i)"
| "find_user_mut (u # us) i f =
     (if cu_id u = i then Inr (f u # us) else bind_r (find_user_mut us i f) (\<lambda>us'. Inr (u # us')))"

definition print_qr :: "'s admin_env \<Rightarrow> bool \<Rightarrow> string \<Rightarrow> 's host \<Rightarrow> (admin_error + unit) \<times> 's host" where
  "print_qr E qr data = (if qr then lift_r (map_err QrFailed (ae_qr E data)) else return_io ())"

subsection \<open>Creating a user\<close>

text \<open>The identifiers are drawn one after the other until one is not taken.\<close>

partial_function (option) fresh_id :: "CompatUser list \<Rightarrow> (nat \<Rightarrow> u8 list) \<Rightarrow> nat \<Rightarrow> string option" where
  "fresh_id users draws n =
     (if list_ex (\<lambda>u. cu_id u = generate_user_id (draws n)) users then fresh_id users draws (n + 1)
      else Some (generate_user_id (draws n)))"

declare fresh_id.simps [code]

record create_randomness =
  cr_ids :: "nat \<Rightarrow> u8 list"
  cr_token :: "u8 list"
  cr_uuid :: "u8 list"
  cr_password :: "u8 list"

definition new_user ::
    "'s admin_env \<Rightarrow> create_randomness \<Rightarrow> string \<Rightarrow> string \<Rightarrow> string \<Rightarrow> i64 \<Rightarrow> i64 option \<Rightarrow> CompatUser" where
  "new_user E rnd user_id name token now expires_at =
     \<lparr>cu_id = user_id, cu_name = name, cu_enabled = True, cu_vless_uuid = generate_uuid_v4 (cr_uuid rnd),
      cu_hysteria2_password = SecretString (generate_hysteria2_password (ae_hex E) (cr_password rnd)),
      cu_subscription_token_hash_hex = hash_token (ae_sha E) (ae_hex E) token, cu_created_at = now,
      cu_expires_at = expires_at\<rparr>"

text \<open>What is shown: the identifier and the subscription URLs.\<close>

definition show_created ::
    "'s admin_env \<Rightarrow> DeploymentConfig \<Rightarrow> string \<Rightarrow> string \<Rightarrow> string \<Rightarrow> bool \<Rightarrow> bool \<Rightarrow> 's host \<Rightarrow> (admin_error + string list) \<times> 's host" where
  "show_created E cfg user_id name token qr json =
     (let url = subscription_url cfg token in
      if json
      then bind_io (lift_r (map_err AdminJson (ae_to_string_pretty E (VObject
             [(''id'', VString user_id), (''name'', VString name), (''enabled'', VBool True),
              (''subscription_url'', VString url)])))) (\<lambda>out. return_io [out])
      else bind_io (print_qr E qr url) (\<lambda>_. return_io [user_id, url, subscription_url_singbox cfg token]))"

definition cmd_user_create ::
    "'s admin_env \<Rightarrow> DeploymentConfig \<Rightarrow> create_randomness \<Rightarrow> string \<Rightarrow> i64 option \<Rightarrow> bool \<Rightarrow> bool \<Rightarrow>
     's host \<Rightarrow> ((admin_error + string list) \<times> 's host) option" where
  "cmd_user_create E cfg rnd name expires_at qr json h =
     (case admin_load_users E cfg h of
        (Inl e, h1) \<Rightarrow> Some (Inl e, h1)
      | (Inr previous_users, h1) \<Rightarrow>
          Option.bind (fresh_id previous_users (cr_ids rnd) 0) (\<lambda>user_id.
          let token = generate_subscription_token (ae_base64 E) (cr_token rnd);
              user = new_user E rnd user_id name token (sint (w_unix_time (fst h1))) expires_at
          in Some (bind_io (apply_users_and_save E cfg previous_users (previous_users @ [user])) (\<lambda>_.
                   show_created E cfg user_id name token qr json) h1)))"

subsection \<open>Changing users\<close>

definition change_user ::
    "'s admin_env \<Rightarrow> DeploymentConfig \<Rightarrow> string \<Rightarrow> (CompatUser \<Rightarrow> CompatUser) \<Rightarrow> 's host \<Rightarrow> (admin_error + bool) \<times> 's host" where
  "change_user E cfg user_id mutate =
     bind_io (admin_load_users E cfg) (\<lambda>previous_users.
     bind_io (lift_r (find_user_mut previous_users user_id mutate)) (\<lambda>users.
     apply_users_and_save E cfg previous_users users))"

definition cmd_user_set_enabled ::
    "'s admin_env \<Rightarrow> DeploymentConfig \<Rightarrow> string \<Rightarrow> bool \<Rightarrow> 's host \<Rightarrow> (admin_error + bool) \<times> 's host" where
  "cmd_user_set_enabled E cfg user_id enabled = change_user E cfg user_id (\<lambda>u. u\<lparr>cu_enabled := enabled\<rparr>)"

definition rotate_and_apply ::
    "'s admin_env \<Rightarrow> DeploymentConfig \<Rightarrow> string \<Rightarrow> (CompatUser \<Rightarrow> CompatUser) \<Rightarrow> 's host \<Rightarrow> (admin_error + bool) \<times> 's host" where
  "rotate_and_apply E cfg user_id mutate = change_user E cfg user_id mutate"

definition cmd_user_rotate_vless ::
    "'s admin_env \<Rightarrow> DeploymentConfig \<Rightarrow> u8 list \<Rightarrow> string \<Rightarrow> 's host \<Rightarrow> (admin_error + bool) \<times> 's host" where
  "cmd_user_rotate_vless E cfg random user_id =
     rotate_and_apply E cfg user_id (\<lambda>u. u\<lparr>cu_vless_uuid := generate_uuid_v4 random\<rparr>)"

definition cmd_user_rotate_hysteria ::
    "'s admin_env \<Rightarrow> DeploymentConfig \<Rightarrow> u8 list \<Rightarrow> string \<Rightarrow> 's host \<Rightarrow> (admin_error + bool) \<times> 's host" where
  "cmd_user_rotate_hysteria E cfg random user_id =
     rotate_and_apply E cfg user_id
       (\<lambda>u. u\<lparr>cu_hysteria2_password := SecretString (generate_hysteria2_password (ae_hex E) random)\<rparr>)"

definition cmd_user_rotate_credentials ::
    "'s admin_env \<Rightarrow> DeploymentConfig \<Rightarrow> u8 list \<Rightarrow> u8 list \<Rightarrow> string \<Rightarrow> 's host \<Rightarrow> (admin_error + bool) \<times> 's host" where
  "cmd_user_rotate_credentials E cfg random random24 user_id =
     rotate_and_apply E cfg user_id
       (\<lambda>u. u\<lparr>cu_vless_uuid := generate_uuid_v4 random,
             cu_hysteria2_password := SecretString (generate_hysteria2_password (ae_hex E) random24)\<rparr>)"

definition cmd_user_remove :: "'s admin_env \<Rightarrow> DeploymentConfig \<Rightarrow> string \<Rightarrow> 's host \<Rightarrow> (admin_error + bool) \<times> 's host" where
  "cmd_user_remove E cfg user_id =
     bind_io (admin_load_users E cfg) (\<lambda>previous_users.
     let users = filter (\<lambda>u. cu_id u \<noteq> user_id) previous_users in
     if length users = length previous_users then fail_io (NoSuchUser user_id)
     else apply_users_and_save E cfg previous_users users)"

text \<open>A token concerns the subscription service only, which reads the store.\<close>

definition cmd_user_rotate_token ::
    "'s admin_env \<Rightarrow> DeploymentConfig \<Rightarrow> u8 list \<Rightarrow> string \<Rightarrow> bool \<Rightarrow> 's host \<Rightarrow> (admin_error + string) \<times> 's host" where
  "cmd_user_rotate_token E cfg random user_id qr =
     bind_io (admin_load_users E cfg) (\<lambda>users.
     let token = generate_subscription_token (ae_base64 E) random;
         hash = hash_token (ae_sha E) (ae_hex E) token
     in bind_io (lift_r (find_user_mut users user_id (\<lambda>u. u\<lparr>cu_subscription_token_hash_hex := hash\<rparr>))) (\<lambda>users'.
        bind_io (map_err_io AdminCompat (admin_save_users E cfg users')) (\<lambda>_.
        let url = subscription_url cfg token in
        bind_io (print_qr E qr url) (\<lambda>_. return_io url))))"

definition cmd_user_qr ::
    "'s admin_env \<Rightarrow> DeploymentConfig \<Rightarrow> u8 list \<Rightarrow> string \<Rightarrow> 's host \<Rightarrow> (admin_error + string) \<times> 's host" where
  "cmd_user_qr E cfg random user_id = cmd_user_rotate_token E cfg random user_id True"

subsection \<open>Showing users\<close>

definition cmd_user_list ::
    "'s admin_env \<Rightarrow> DeploymentConfig \<Rightarrow> 's host \<Rightarrow> (admin_error + (string \<times> string \<times> bool) list) \<times> 's host" where
  "cmd_user_list E cfg =
     bind_io (admin_load_users E cfg) (\<lambda>users.
     return_io (map (\<lambda>u. (cu_id u, cu_name u, cu_enabled u)) users))"

definition cmd_user_subscription ::
    "'s admin_env \<Rightarrow> DeploymentConfig \<Rightarrow> string \<Rightarrow> 's host \<Rightarrow>
     (admin_error + string \<times> string \<times> bool \<times> i64 option \<times> string \<times> u16) \<times> 's host" where
  "cmd_user_subscription E cfg user_id =
     bind_io (admin_load_users E cfg) (\<lambda>users.
     case find (\<lambda>u. cu_id u = user_id) users of
       None \<Rightarrow> fail_io (NoSuchUser user_id)
     | Some user \<Rightarrow> return_io (cu_id user, cu_name user, cu_enabled user, cu_expires_at user, dc_subscription_host cfg,
         sb_public_port (dc_subscription cfg)))"

text \<open>One link per endpoint, in order.\<close>

fun show_links ::
    "'s admin_env \<Rightarrow> CompatUser \<Rightarrow> bool \<Rightarrow> CompatEndpoint list \<Rightarrow> 's host \<Rightarrow> (admin_error + (string \<times> string) list) \<times> 's host" where
  "show_links E user qr [] = return_io []"
| "show_links E user qr (endpoint # endpoints) =
     bind_io (lift_r (map_err AdminCompat (case ce_transport endpoint of
         VlessReality \<Rightarrow> render_vless_reality_uri user endpoint
       | Hysteria2 \<Rightarrow> render_hysteria2_uri user endpoint))) (\<lambda>uri.
     bind_io (print_qr E qr uri) (\<lambda>_.
     bind_io (show_links E user qr endpoints) (\<lambda>rest.
     return_io ((ce_label endpoint, uri) # rest))))"

definition cmd_user_links ::
    "'s admin_env \<Rightarrow> DeploymentConfig \<Rightarrow> string \<Rightarrow> bool \<Rightarrow> 's host \<Rightarrow> (admin_error + (string \<times> string) list) \<times> 's host" where
  "cmd_user_links E cfg user_id qr =
     bind_io (admin_load_users E cfg) (\<lambda>users.
     case find (\<lambda>u. cu_id u = user_id) users of
       None \<Rightarrow> fail_io (NoSuchUser user_id)
     | Some user \<Rightarrow>
         bind_io (disk (load_reality_params E cfg)) (\<lambda>reality.
         bind_io (disk (load_hysteria_params E cfg)) (\<lambda>hysteria.
         let short_id = (case rs_short_ids reality of [] \<Rightarrow> [] | s # _ \<Rightarrow> s);
             endpoints = standard_endpoints (dc_public_host cfg) (rl_listen_port (dc_reality cfg))
               (hy_listen_port (dc_hysteria2 cfg)) (rs_public_key_hex reality) short_id (rs_handshake_server reality)
               (map_option expose (hs_obfs_password hysteria))
         in show_links E user qr endpoints)))"

subsection \<open>The transaction keeps its promises\<close>

definition users_paths :: "DeploymentConfig \<Rightarrow> path set" where
  "users_paths cfg = set (prefixes (dc_state_dir cfg @ [''users''])) \<union> range (\<lambda>n. dc_state_dir cfg @ [''users'', n])"

lemma users_paths_known [intro, simp]:
  "users_file cfg \<in> users_paths cfg" "tmp_path_for d (users_file cfg) pid \<in> users_paths cfg"
  "prefix p (butlast (users_file cfg)) \<Longrightarrow> p \<in> users_paths cfg"
  by (auto simp: users_file_def users_paths_def tmp_path_for_def path_set_file_name_def butlast_append)

lemma config_file_elsewhere [simp]: "singbox_config_file cfg \<notin> users_paths cfg"
  by (auto simp: singbox_config_file_def users_paths_def dest: prefix_length_le)

lemma users_file_nonempty [simp]: "users_file cfg \<noteq> []"
  by (simp add: users_file_def)

lemma frame_save_users [frame_intros]: "frame (users_paths cfg) (save_users_atomic J dbg (users_file cfg) users)"
  unfolding save_users_atomic_def Let_def path_parent_def by (auto intro!: frame_intros)

lemma save_keeps_live:
  assumes "admin_save_users E cfg users h = (r, h')"
  shows "same_running running h h'" "live_bytes cfg running b h \<Longrightarrow> live_bytes cfg running b h'"
    "installed E cfg running doc h \<Longrightarrow> installed E cfg running doc h'"
proof -
  note run = assms [unfolded admin_save_users_def]
  have "w_fs (fst h') (singbox_config_file cfg) = w_fs (fst h) (singbox_config_file cfg)"
    using steadyD [OF disk_same_files [OF frame_save_users] run] by (simp add: same_files_def)
  moreover show "same_running running h h'"
    by (rule steadyD [OF disk_same_running run])
  ultimately show "live_bytes cfg running b h \<Longrightarrow> live_bytes cfg running b h'"
    "installed E cfg running doc h \<Longrightarrow> installed E cfg running doc h'"
    by (simp_all add: live_bytes_def same_running_def installed_def)
qed

lemma render_keeps_users:
  "render_and_apply_singbox_config E cfg users live h = (r, h') \<Longrightarrow> w_fs (fst h') (users_file cfg) = w_fs (fst h) (users_file cfg)"
  using steadyD [OF steady_render] by (fastforce simp: same_files_def)

lemma save_result:
  assumes "admin_save_users E cfg users h = (r, h')"
  shows "case r of
      Inl e \<Rightarrow> w_fs (fst h') (users_file cfg) = w_fs (fst h) (users_file cfg)
    | Inr _ \<Rightarrow> \<exists>json mode. uj_to_vec_pretty (ae_users_json E) \<lparr>uf_schema_version = USERS_SCHEMA_VERSION, uf_users = users\<rparr> = Inr json \<and>
        holds_data json mode (w_fs (fst h') (users_file cfg))"
proof -
  obtain w where w: "save_users_atomic (ae_users_json E) (ae_dbg E) (users_file cfg) users (fst h) = (r, w)" "h' = (w, snd h)"
    using assms by (auto simp: admin_save_users_def disk_eq)
  from save_users_cases [OF w(1)] show ?thesis
    unfolding w(2) by (simp cong: sum.case_cong)
qed

lemma live_result:
  assumes "admin_ok E cfg running" and "render_and_apply_singbox_config E cfg users req h = (Inr live, h')"
  shows "if live then \<exists>doc. rendering E cfg users (fst h) doc \<and> (installed E cfg running doc h' \<or>
        already_current E cfg doc (fst h) \<and> same_running running h h') else same_running running h h'"
  using render_result [OF assms] by (auto simp: apply_outcome_def quiet_def split: if_splits)

lemma apply_users_and_save_cases:
  assumes "apply_users_and_save E cfg prev users h = (r, h')"
  obtains (refused) e where "r = Inl e" "w_fs (fst h') (users_file cfg) = w_fs (fst h) (users_file cfg)"
  | (committed) live h1 where "r = Inr live" "render_and_apply_singbox_config E cfg users True h = (Inr live, h1)"
      "admin_save_users E cfg users h1 = (Inr (), h')"
  using assms [unfolded apply_users_and_save_def]
proof (cases rule: bind_ioE)
  case (ok live h1)
  obtain s h2 where h2: "admin_save_users E cfg users h1 = (s, h2)"
    by (metis surj_pair)
  show ?thesis
  proof (cases s)
    case (Inl e)
    obtain rb h3 where h3: "render_and_apply_singbox_config E cfg prev True h2 = (rb, h3)"
      by (metis surj_pair)
    show ?thesis
      by (rule refused [of "NotCommitted e (case rb of Inr _ \<Rightarrow> True | Inl _ \<Rightarrow> False)"])
        (use ok h2 h3 Inl render_keeps_users [OF ok(1)] save_result [OF h2] render_keeps_users [OF h3] in
          \<open>simp_all add: try_io_def fail_io_def\<close>)
  next
    case (Inr u)
    with ok h2 show ?thesis
      by (intro committed [of live h1]) (simp_all add: try_io_def return_io_def)
  qed
next
  case (fail e)
  then show ?thesis
    using refused [OF fail(2) fail(1) [THEN render_keeps_users]] by blast
qed

lemma parse_saved:
  assumes "users_json_ok J" "uj_to_vec_pretty J \<lparr>uf_schema_version = USERS_SCHEMA_VERSION, uf_users = users\<rparr> = Inr json"
  shows "parse_users_bytes J json = Inr users"
  using assms by (auto simp: users_json_ok_def parse_users_bytes_def)

text \<open>What the store holds, as a loader without read errors sees it.\<close>

definition stored_users :: "'s admin_env \<Rightarrow> DeploymentConfig \<Rightarrow> 's host \<Rightarrow> CompatError + CompatUser list" where
  "stored_users E cfg h =
     (case w_fs (fst h) (users_file cfg) of
        None \<Rightarrow> Inr []
      | Some n \<Rightarrow> parse_users_bytes (ae_users_json E) (i_content n))"

lemma save_stores:
  assumes "users_json_ok (ae_users_json E)" "admin_save_users E cfg users h = (Inr (), h')"
  shows "stored_users E cfg h' = Inr users"
    "w_faults (fst h') = [] \<Longrightarrow> load_users (ae_users_json E) (users_file cfg) (fst h') = (Inr users, fst h')"
proof -
  obtain json mode where json: "uj_to_vec_pretty (ae_users_json E) \<lparr>uf_schema_version = USERS_SCHEMA_VERSION, uf_users = users\<rparr> = Inr json"
      "holds_data json mode (w_fs (fst h') (users_file cfg))"
    using save_result [OF assms(2)] by auto
  show "stored_users E cfg h' = Inr users"
    using parse_saved [OF assms(1) json(1)] json(2) by (auto simp: stored_users_def holds_data_def split: option.splits)
  show "load_users (ae_users_json E) (users_file cfg) (fst h') = (Inr users, fst h')" if "w_faults (fst h') = []"
    using load_of_saved [OF assms(1) json that] .
qed

lemma load_result:
  assumes "admin_load_users E cfg h = (r, h')"
  shows "w_fs (fst h') = w_fs (fst h)" "snd h' = snd h" "w_unix_time (fst h') = w_unix_time (fst h)"
    "r = Inr users \<Longrightarrow> users = [] \<or> stored_users E cfg h = Inr users"
proof -
  obtain x w where w: "load_users (ae_users_json E) (users_file cfg) (fst h) = (x, w)" "h' = (w, snd h)" "r = map_err AdminCompat x"
    using assms by (auto simp: admin_load_users_def map_err_io_def disk_def split: prod.splits)
  have "frame {} (load_users (ae_users_json E) (users_file cfg))"
    unfolding load_users_def by (auto intro!: frame_intros)
  then have "w_fs w p = w_fs (fst h) p" "w_unix_time w = w_unix_time (fst h)" for p
    using w(1) unfolding frame_def by (metis empty_iff snd_conv)+
  then show "w_fs (fst h') = w_fs (fst h)" "snd h' = snd h" "w_unix_time (fst h') = w_unix_time (fst h)"
    using w(2) by auto
  assume "r = Inr users"
  then have "load_users (ae_users_json E) (users_file cfg) (fst h) = (Inr users, w)"
    using w by (cases x) simp_all
  then obtain present w1 where present: "path_exists (users_file cfg) (fst h) = (Inr present :: CompatError + _, w1)"
    and "\<not> present \<and> users = [] \<or> (\<exists>bytes. fs_read (users_file cfg) w1 = (Inr bytes, w) \<and> parse_users_bytes (ae_users_json E) bytes = Inr users)"
    by (auto simp: load_users_def io_simps split: if_splits)
  then show "users = [] \<or> stored_users E cfg h = Inr users"
    using fs_read_result(1) [of "users_file cfg" w1] path_exists_faultless [OF present]
    by (auto simp: stored_users_def)
qed

lemma find_user_mut_split:
  "find_user_mut users i f = Inr users' \<Longrightarrow>
    \<exists>a u b. users = a @ u # b \<and> cu_id u = i \<and> i \<notin> cu_id ` set a \<and> users' = a @ f u # b"
proof (induction users arbitrary: users')
  case (Cons v users)
  show ?case
  proof (cases "cu_id v = i")
    case True
    with Cons.prems show ?thesis
      by (intro exI [of _ "[]"]) auto
  next
    case False
    with Cons.prems obtain us where "find_user_mut users i f = Inr us" "users' = v # us"
      by (auto simp: bind_r_eq_Inr)
    with Cons.IH [of us] False obtain a u b where "users = a @ u # b" "cu_id u = i" "i \<notin> cu_id ` set a" "us = a @ f u # b"
      by blast
    with False \<open>users' = v # us\<close> show ?thesis
      by (intro exI [of _ "v # a"]) auto
  qed
qed simp

lemma find_user_mut_ids:
  "find_user_mut users i f = Inr users' \<Longrightarrow> (\<And>u. cu_id (f u) = cu_id u) \<Longrightarrow> map cu_id users' = map cu_id users"
  using find_user_mut_split by fastforce

lemma find_user_by_token_eq:
  "find_user_by_token sha hx users token now =
     (let us = filter (\<lambda>u. hash_token sha hx token = cu_subscription_token_hash_hex u \<and> is_active u now) users
      in if us = [] then None else Some (last us))"
  using find_user_is_last [of "\<lparr>se_sha = sha, se_hex = hx, se_users_json = undefined, se_to_string_pretty = undefined,
    se_endpoints_to_string = undefined, se_value_to_string = undefined, se_iter = undefined\<rparr>"]
  by (simp add: token_users_def Let_def)

subsection \<open>Fresh identifiers\<close>

lemma fresh_id_None: "list_ex (\<lambda>u. cu_id u = generate_user_id (draws n)) users \<Longrightarrow> fresh_id users draws n = fresh_id users draws (Suc n)"
  by (subst fresh_id.simps) simp

lemma fresh_id_returns:
  assumes "generate_user_id (draws (n + k)) \<notin> cu_id ` set users"
  shows "\<exists>j\<le>k. fresh_id users draws n = Some (generate_user_id (draws (n + j)))"
  using assms
proof (induction k arbitrary: n)
  case 0
  then show ?case
    by (subst fresh_id.simps) (auto simp: list_ex_iff image_iff)
next
  case (Suc k)
  show ?case
  proof (cases "list_ex (\<lambda>u. cu_id u = generate_user_id (draws n)) users")
    case True
    with Suc.IH [of "Suc n"] Suc.prems obtain j where "j \<le> k" "fresh_id users draws n = Some (generate_user_id (draws (Suc n + j)))"
      by (auto simp: fresh_id_None)
    then show ?thesis
      by (intro exI [of _ "Suc j"]) simp
  next
    case False
    then show ?thesis
      by (intro exI [of _ 0]) (subst fresh_id.simps, simp)
  qed
qed

lemma fresh_id_fresh:
  assumes "fresh_id users draws n = Some i"
  shows "i \<notin> cu_id ` set users"
  by (rule fresh_id.raw_induct [of "\<lambda>users draws n i. i \<notin> cu_id ` set users", OF _ assms])
    (auto simp: list_ex_iff split: if_splits)

subsection \<open>Identifiers stay distinct\<close>

text \<open>One run of a command that concerns users, whatever its result.\<close>

inductive user_step :: "'s admin_env \<Rightarrow> DeploymentConfig \<Rightarrow> 's host \<Rightarrow> 's host \<Rightarrow> bool" for E cfg where
  create: "cmd_user_create E cfg rnd name expires_at qr json h = Some (r, h') \<Longrightarrow> user_step E cfg h h'"
| set_enabled: "cmd_user_set_enabled E cfg user_id enabled h = (r, h') \<Longrightarrow> user_step E cfg h h'"
| rotate_token: "cmd_user_rotate_token E cfg random user_id qr h = (r, h') \<Longrightarrow> user_step E cfg h h'"
| rotate_vless: "cmd_user_rotate_vless E cfg random user_id h = (r, h') \<Longrightarrow> user_step E cfg h h'"
| rotate_hysteria: "cmd_user_rotate_hysteria E cfg random user_id h = (r, h') \<Longrightarrow> user_step E cfg h h'"
| rotate_credentials: "cmd_user_rotate_credentials E cfg random random24 user_id h = (r, h') \<Longrightarrow> user_step E cfg h h'"
| remove: "cmd_user_remove E cfg user_id h = (r, h') \<Longrightarrow> user_step E cfg h h'"
| render: "cmd_render_config E cfg require_applied h = (r, h') \<Longrightarrow> user_step E cfg h h'"

definition ids_distinct :: "'s admin_env \<Rightarrow> DeploymentConfig \<Rightarrow> 's host \<Rightarrow> bool" where
  "ids_distinct E cfg h \<longleftrightarrow> (\<forall>users. stored_users E cfg h = Inr users \<longrightarrow> distinct (map cu_id users))"

lemma ids_distinct_same: "w_fs (fst h') (users_file cfg) = w_fs (fst h) (users_file cfg) \<Longrightarrow> ids_distinct E cfg h \<Longrightarrow> ids_distinct E cfg h'"
  by (simp add: ids_distinct_def stored_users_def)

lemma load_keeps_distinct: "admin_load_users E cfg h = (r, h') \<Longrightarrow> ids_distinct E cfg h \<Longrightarrow> ids_distinct E cfg h'"
  by (rule ids_distinct_same) (simp_all add: load_result(1))

lemma loaded_distinct: "admin_load_users E cfg h = (Inr users, h') \<Longrightarrow> ids_distinct E cfg h \<Longrightarrow> distinct (map cu_id users)"
  using load_result(4) by (fastforce simp: ids_distinct_def)

lemma apply_keeps_distinct:
  assumes J: "users_json_ok (ae_users_json E)" and run: "apply_users_and_save E cfg prev users h = (r, h')"
    and "ids_distinct E cfg h" "distinct (map cu_id users)"
  shows "ids_distinct E cfg h'"
  using run
proof (cases rule: apply_users_and_save_cases)
  case refused
  then show ?thesis
    using assms(3) ids_distinct_same by blast
next
  case committed
  then show ?thesis
    using save_stores(1) [OF J] assms(4) by (simp add: ids_distinct_def)
qed

lemma change_keeps_distinct:
  assumes J: "users_json_ok (ae_users_json E)" and run: "change_user E cfg i f h = (r, h')"
    and ids: "ids_distinct E cfg h" and f: "\<And>u. cu_id (f u) = cu_id u"
  shows "ids_distinct E cfg h'"
  using run [unfolded change_user_def]
proof (cases rule: bind_ioE)
  case (fail e)
  then show ?thesis
    using ids load_keeps_distinct by blast
next
  case (ok users h1)
  note h1 = load_keeps_distinct [OF ok(1) ids]
  from ok(2) show ?thesis
  proof (cases rule: bind_ioE)
    case (fail e)
    then show ?thesis
      using h1 by (simp add: lift_r_def)
  next
    case (ok users' h2)
    then have "h2 = h1" "find_user_mut users i f = Inr users'"
      by (simp_all add: lift_r_def)
    then show ?thesis
      using apply_keeps_distinct [OF J ok(2)] h1 find_user_mut_ids [OF _ f] loaded_distinct [OF \<open>admin_load_users E cfg h = (Inr users, h1)\<close> ids]
      by simp
  qed
qed

lemma remove_keeps_distinct:
  assumes J: "users_json_ok (ae_users_json E)" and run: "cmd_user_remove E cfg i h = (r, h')" and ids: "ids_distinct E cfg h"
  shows "ids_distinct E cfg h'"
  using run [unfolded cmd_user_remove_def]
proof (cases rule: bind_ioE)
  case (fail e)
  then show ?thesis
    using ids load_keeps_distinct by blast
next
  case (ok users h1)
  note h1 = load_keeps_distinct [OF ok(1) ids]
  have "distinct (map cu_id (filter (\<lambda>u. cu_id u \<noteq> i) users))"
    using loaded_distinct [OF ok(1) ids] by (simp add: distinct_map_filter)
  with ok(2) h1 show ?thesis
    by (auto simp: Let_def fail_io_def split: if_splits dest: apply_keeps_distinct [OF J])
qed

lemma token_keeps_distinct:
  assumes J: "users_json_ok (ae_users_json E)" and run: "cmd_user_rotate_token E cfg random i qr h = (r, h')" and ids: "ids_distinct E cfg h"
  shows "ids_distinct E cfg h'"
  using run [unfolded cmd_user_rotate_token_def]
proof (cases rule: bind_ioE)
  case (fail e)
  then show ?thesis
    using ids load_keeps_distinct by blast
next
  case (ok users h1)
  note h1 = load_keeps_distinct [OF ok(1) ids] and users = loaded_distinct [OF ok(1) ids]
  let ?f = "\<lambda>u. u\<lparr>cu_subscription_token_hash_hex := hash_token (ae_sha E) (ae_hex E) (generate_subscription_token (ae_base64 E) random)\<rparr>"
  show ?thesis
  proof (cases "find_user_mut users i ?f")
    case (Inl e)
    with ok(2) h1 show ?thesis
      by (simp add: Let_def bind_io_def lift_r_def)
  next
    case (Inr users')
    obtain s h2 where h2: "admin_save_users E cfg users' h1 = (s, h2)"
      by (metis surj_pair)
    have "h' = h2"
      using ok(2) Inr h2 by (auto simp: Let_def bind_io_def lift_r_def map_err_io_def print_qr_def return_io_def
          split: sum.splits if_splits)
    moreover have "ids_distinct E cfg h2"
    proof (cases s)
      case (Inl e)
      with save_result [OF h2] h1 show ?thesis
        using ids_distinct_same by simp
    next
      case (Inr u)
      with save_stores(1) [OF J] h2 users find_user_mut_ids [OF \<open>find_user_mut users i ?f = Inr users'\<close>] show ?thesis
        by (simp add: ids_distinct_def)
    qed
    ultimately show ?thesis
      by simp
  qed
qed

lemma create_cases:
  assumes "cmd_user_create E cfg rnd name ex qr json h = Some (r, h')"
  obtains (unread) e where "admin_load_users E cfg h = (Inl e, h')" "r = Inl e"
  | (drawn) users h1 i token u where "admin_load_users E cfg h = (Inr users, h1)" "fresh_id users (cr_ids rnd) 0 = Some i"
      "token = generate_subscription_token (ae_base64 E) (cr_token rnd)"
      "u = new_user E rnd i name token (sint (w_unix_time (fst h1))) ex"
      "bind_io (apply_users_and_save E cfg users (users @ [u])) (\<lambda>_. show_created E cfg i name token qr json) h1 = (r, h')"
proof -
  obtain l h1 where h1: "admin_load_users E cfg h = (l, h1)"
    by (metis surj_pair)
  show ?thesis
  proof (cases l)
    case (Inl e)
    with assms h1 show ?thesis
      by (intro unread) (auto simp: cmd_user_create_def)
  next
    case (Inr users)
    with assms h1 obtain i where "fresh_id users (cr_ids rnd) 0 = Some i"
      by (auto simp: cmd_user_create_def bind_eq_Some_conv)
    with assms h1 Inr show ?thesis
      by (intro drawn [of users h1 i]) (simp_all add: cmd_user_create_def Let_def)
  qed
qed

lemma show_created_host: "snd (show_created E cfg i name token qr json h) = h"
  by (simp add: show_created_def print_qr_def bind_io_def lift_r_def return_io_def Let_def split: sum.split)

lemma create_keeps_distinct:
  assumes J: "users_json_ok (ae_users_json E)" and run: "cmd_user_create E cfg rnd name ex qr json h = Some (r, h')" and ids: "ids_distinct E cfg h"
  shows "ids_distinct E cfg h'"
  using run
proof (cases rule: create_cases)
  case (unread e)
  then show ?thesis
    using ids load_keeps_distinct by blast
next
  case (drawn users h1 i token u)
  have "cu_id u = i"
    by (simp add: drawn(4) new_user_def)
  then have "distinct (map cu_id (users @ [u]))"
    using fresh_id_fresh [OF drawn(2)] loaded_distinct [OF drawn(1) ids] by simp
  moreover obtain a h2 where h2: "apply_users_and_save E cfg users (users @ [u]) h1 = (a, h2)"
    by (metis surj_pair)
  moreover have "h' = h2"
    using drawn(5) h2 show_created_host [of E cfg i name token qr json h2] by (auto simp: bind_io_def split: sum.splits)
  ultimately show ?thesis
    using apply_keeps_distinct [OF J h2 load_keeps_distinct [OF drawn(1) ids]] by simp
qed

lemma render_config_keeps_distinct:
  assumes "cmd_render_config E cfg req h = (r, h')" and ids: "ids_distinct E cfg h"
  shows "ids_distinct E cfg h'"
proof -
  have "steady (same_files (service_paths cfg)) (cmd_render_config E cfg req)"
    unfolding cmd_render_config_def regenerate_singbox_config_def load_users_def
    by (auto intro!: steady_intros disk_same_files frame_intros)
  from steadyD [OF this assms(1)] show ?thesis
    by (intro ids_distinct_same [OF _ ids]) (simp add: same_files_def)
qed

lemma step_keeps_distinct:
  assumes J: "users_json_ok (ae_users_json E)"
  shows "user_step E cfg h h' \<Longrightarrow> ids_distinct E cfg h \<Longrightarrow> ids_distinct E cfg h'"
proof (induction rule: user_step.cases)
  case render
  then show ?case
    using render_config_keeps_distinct by blast
qed (auto simp: cmd_user_set_enabled_def cmd_user_rotate_vless_def cmd_user_rotate_hysteria_def cmd_user_rotate_credentials_def
    rotate_and_apply_def intro: create_keeps_distinct [OF J] remove_keeps_distinct [OF J] token_keeps_distinct [OF J]
    dest: change_keeps_distinct [OF J])

lemma committed_result:
  assumes "admin_ok E cfg running" "users_json_ok (ae_users_json E)"
    and "apply_users_and_save E cfg prev users h = (Inr live, h')"
  shows "stored_users E cfg h' = Inr users"
    "if live then \<exists>doc. rendering E cfg users (fst h) doc \<and>
       (installed E cfg running doc h' \<or> already_current E cfg doc (fst h) \<and> same_running running h h')
     else same_running running h h'"
proof -
  obtain h1 where committed: "render_and_apply_singbox_config E cfg users True h = (Inr live, h1)"
      "admin_save_users E cfg users h1 = (Inr (), h')"
    using assms(3) by (cases rule: apply_users_and_save_cases) auto
  show "stored_users E cfg h' = Inr users"
    by (rule save_stores(1) [OF assms(2) committed(2)])
  have same: "same_running running h h1 \<longleftrightarrow> same_running running h h'"
    using save_keeps_live(1) [OF committed(2), of running] by (simp add: same_running_def)
  have inst: "installed E cfg running doc h1 \<Longrightarrow> installed E cfg running doc h'" for doc
    by (rule save_keeps_live(3) [OF committed(2)])
  from live_result [OF assms(1) committed(1)] same inst
  show "if live then \<exists>doc. rendering E cfg users (fst h) doc \<and>
       (installed E cfg running doc h' \<or> already_current E cfg doc (fst h) \<and> same_running running h h')
     else same_running running h h'"
    by (cases live) auto
qed

lemma revoked_users:
  assumes "\<And>v. v \<in> set users' \<Longrightarrow> cu_enabled v \<Longrightarrow> v \<in> set users \<and> cu_id v \<noteq> i"
  shows "rendering E cfg users' w doc \<Longrightarrow> \<forall>v\<in>set users. cu_id v \<noteq> i \<longrightarrow> \<not> same_credential ep v user \<Longrightarrow>
      \<not> served derive doc (render_outbound user ep)"
    "\<forall>v\<in>set users. cu_id v \<noteq> i \<longrightarrow> cu_subscription_token_hash_hex v \<noteq> hash_token sha hx token \<Longrightarrow>
      find_user_by_token sha hx users' token now = None"
  using assms by (auto simp: rendering_def served_iff is_active_def find_user_by_token_eq filter_empty_conv Let_def) metis

lemma disable_run:
  assumes "cmd_user_set_enabled E cfg i False h = (Inr live, h')" and ids: "ids_distinct E cfg h"
  obtains users h1 users' where "admin_load_users E cfg h = (Inr users, h1)"
    "apply_users_and_save E cfg users users' h1 = (Inr live, h')" "i \<in> cu_id ` set users"
    "\<And>v. v \<in> set users' \<Longrightarrow> cu_enabled v \<Longrightarrow> v \<in> set users \<and> cu_id v \<noteq> i"
proof -
  obtain users h1 users' where run: "admin_load_users E cfg h = (Inr users, h1)"
      "find_user_mut users i (\<lambda>u. u\<lparr>cu_enabled := False\<rparr>) = Inr users'" "apply_users_and_save E cfg users users' h1 = (Inr live, h')"
    using assms(1) by (auto simp: cmd_user_set_enabled_def change_user_def io_simps)
  obtain a u b where split: "users = a @ u # b" "cu_id u = i" "users' = a @ u\<lparr>cu_enabled := False\<rparr> # b"
    using find_user_mut_split [OF run(2)] by blast
  have "\<forall>v\<in>set a \<union> set b. cu_id v \<noteq> i"
    using loaded_distinct [OF run(1) ids] split by (auto simp: image_iff)
  then have "v \<in> set users \<and> cu_id v \<noteq> i" if "v \<in> set users'" "cu_enabled v" for v
    using that split by auto
  moreover have "i \<in> cu_id ` set users"
    using split by auto
  ultimately show ?thesis
    by (intro that [OF run(1,3)])
qed

lemma remove_run:
  assumes "cmd_user_remove E cfg i h = (Inr live, h')"
  obtains users h1 users' where "admin_load_users E cfg h = (Inr users, h1)"
    "apply_users_and_save E cfg users users' h1 = (Inr live, h')" "i \<in> cu_id ` set users"
    "\<And>v. v \<in> set users' \<Longrightarrow> cu_enabled v \<Longrightarrow> v \<in> set users \<and> cu_id v \<noteq> i"
proof -
  obtain users h1 where run: "admin_load_users E cfg h = (Inr users, h1)"
      "length (filter (\<lambda>u. cu_id u \<noteq> i) users) \<noteq> length users"
      "apply_users_and_save E cfg users (filter (\<lambda>u. cu_id u \<noteq> i) users) h1 = (Inr live, h')"
    using assms by (auto simp: cmd_user_remove_def io_simps Let_def split: if_splits)
  from run(2) have "i \<in> cu_id ` set users"
    using filter_True [of users "\<lambda>u. cu_id u \<noteq> i"] by (metis image_eqI)
  then show ?thesis
    by (intro that [OF run(1,3)]) auto
qed

subsection \<open>Properties\<close>


definition demo_saved :: "CompatUser list \<Rightarrow> (admin_error + bool) \<times> (nat \<times> u8 list option) host" where
  "demo_saved users = apply_users_and_save (demo_admin []) demo_cfg [store_user] users demo_host"

lemma demo_admin_json_ok: "users_json_ok demo_admin_json"
  by (auto simp: users_json_ok_def demo_admin_json_def ok_or_def bind_r_def store_user_def split: if_splits)



definition demo_removed :: "(admin_error + bool) \<times> (nat \<times> u8 list option) host" where
  "demo_removed = cmd_user_remove (demo_admin []) demo_cfg ''u1'' demo_host"

lemma demo_ids: "ids_distinct (demo_admin broken) demo_cfg demo_host"
proof -
  have "stored_users (demo_admin broken) demo_cfg demo_host = Inr [store_user]"
    by (simp add: stored_users_def demo_host_def demo_cfg_def users_file_def demo_node_def demo_admin_def demo_admin_json_def
        parse_users_bytes_def ok_or_def bind_r_def USERS_SCHEMA_VERSION_def)
  then show ?thesis
    by (simp add: ids_distinct_def)
qed


definition demo_rnd :: create_randomness where
  "demo_rnd = \<lparr>cr_ids = (\<lambda>_. replicate 16 0), cr_token = [], cr_uuid = replicate 16 1, cr_password = []\<rparr>"

lemma demo_loads: "admin_load_users (demo_admin broken) demo_cfg demo_host = (Inr [store_user], demo_host)"
  by (simp add: admin_load_users_def map_err_io_def disk_def load_users_def bind_io_def path_exists_def try_io_def prim_def
      demo_host_def empty_world_def return_io_def compat_io_def fs_read_def demo_cfg_def users_file_def demo_node_def demo_admin_def
      demo_admin_json_def parse_users_bytes_def ok_or_def bind_r_def USERS_SCHEMA_VERSION_def lift_r_def)

lemma demo_draw: "generate_user_id (cr_ids demo_rnd 0) \<notin> cu_id ` set [store_user]"
  by (simp add: demo_rnd_def store_user_def generate_user_id_def)


definition demo_created :: "((admin_error + string list) \<times> (nat \<times> u8 list option) host) option" where
  "demo_created = cmd_user_create (demo_admin []) demo_cfg demo_rnd ''bob'' None False False demo_host"


text \<open>C20. Creating a user returns: if the store can be read and among the drawn identifiers there is one that is not taken, the
  search for an identifier ends and the command has a result.\<close>

theorem create_returns:
  assumes "admin_load_users E cfg h = (Inr users, h1)" and "generate_user_id (cr_ids rnd n) \<notin> cu_id ` set users"
  shows "\<exists>r h'. cmd_user_create E cfg rnd name expires_at qr json h = Some (r, h')"
proof -
  obtain i where "fresh_id users (cr_ids rnd) 0 = Some i"
    using fresh_id_returns [of "cr_ids rnd" 0 n users] assms(2) by auto
  with assms(1) have "cmd_user_create E cfg rnd name expires_at qr json h \<noteq> None"
    by (simp add: cmd_user_create_def Let_def)
  then show ?thesis
    by (metis not_None_eq surj_pair)
qed

theorem create_returns_witness:
  "\<exists>r h'. cmd_user_create (demo_admin []) demo_cfg demo_rnd ''bob'' None False False demo_host = Some (r, h')"
  by (rule create_returns [OF demo_loads demo_draw])

text \<open>C19. Identifiers stay unique: starting from a store whose users have distinct identifiers, they are distinct after any
  sequence of user commands, whatever each of them reported and whichever operations failed.\<close>

theorem user_ids_stay_distinct:
  assumes "users_json_ok (ae_users_json E)" and "(user_step E cfg)\<^sup>*\<^sup>* h h'" and "ids_distinct E cfg h"
  shows "ids_distinct E cfg h'"
  using assms(2,3) by (induction rule: rtranclp_induct) (auto intro: step_keeps_distinct [OF assms(1)])

theorem user_ids_stay_distinct_witness:
  "(user_step (demo_admin []) demo_cfg)\<^sup>*\<^sup>* demo_host (snd demo_removed) \<and> ids_distinct (demo_admin []) demo_cfg (snd demo_removed)"
proof -
  have "user_step (demo_admin []) demo_cfg demo_host (snd demo_removed)"
    by (rule user_step.remove [of _ _ "''u1''" _ "fst demo_removed"]) (simp add: demo_removed_def)
  then have run: "(user_step (demo_admin []) demo_cfg)\<^sup>*\<^sup>* demo_host (snd demo_removed)"
    by blast
  have "users_json_ok (ae_users_json (demo_admin []))"
    using demo_admin_json_ok by (simp add: demo_admin_def)
  from user_ids_stay_distinct [OF this run demo_ids] run show ?thesis
    by blast
qed

end
