(* ===== verification/Admin_Rotate.thy ===== *)
theory Admin_Rotate
  imports Admin_Apply
begin

text \<open>
  First initialisation and the two rotations of the administration tool, \<^verbatim>\<open>apps/admin/src/main.rs\<close>: a new REALITY key
  pair, and a new Hysteria2 obfuscation password. A rotation is a transaction over key files, the
  configuration and two services: the candidate is validated first, every file it
  replaces is backed up beside it, and any later failure puts files, configuration and services back.
\<close>

subsection \<open>Key files and their transaction backups\<close>

definition path_suffix :: "path \<Rightarrow> string \<Rightarrow> path" where
  "path_suffix p s = (if p = [] then [s] else butlast p @ [last p @ s])"

definition install_rotated_key_file :: "'s admin_env \<Rightarrow> path \<Rightarrow> string \<Rightarrow> world \<Rightarrow> (admin_error + unit) \<times> world" where
  "install_rotated_key_file E target contents =
     (let tmp_path = path_suffix target ''.rotate-tmp'' in
      bind_io (write_secret_file tmp_path contents) (\<lambda>_.
      try_io (metadata target) (\<lambda>meta.
      bind_io (case meta of Inr m \<Rightarrow> admin_io (set_permissions tmp_path (i_mode m)) | Inl _ \<Rightarrow> return_io ()) (\<lambda>_.
      bind_io (map_err_io AdminCompat (preserve_ownership_before_rename (ae_dbg E) tmp_path target)) (\<lambda>_.
      admin_io (fs_rename tmp_path target))))))"

definition extract_field :: "string \<Rightarrow> string \<Rightarrow> string option" where
  "extract_field output fld =
     (let value_of = (\<lambda>l. let line = trim l in
            map_option trim (case strip_prefix (fld @ '':'') line of Some v \<Rightarrow> Some v | None \<Rightarrow> strip_prefix (fld @ '' '') line))
      in Option.bind (find (\<lambda>l. value_of l \<noteq> None) (str_lines output)) value_of)"

definition generate_reality_keypair :: "'s admin_env \<Rightarrow> u8 list \<Rightarrow> admin_error + string \<times> string \<times> string" where
  "generate_reality_keypair E random4 =
     bind_r (map_err GenerateFailed (ae_generate E)) (\<lambda>output.
     if \<not> co_success output then Inl (GenerateRejected (co_stderr output))
     else bind_r (ok_or (KeyFieldMissing ''PrivateKey'') (extract_field (co_stdout output) ''PrivateKey'')) (\<lambda>private_key.
       bind_r (ok_or (KeyFieldMissing ''PublicKey'') (extract_field (co_stdout output) ''PublicKey'')) (\<lambda>public_key.
       bind_r (map_err KeysIncoherent (validate_reality_keypair (ae_base64 E) (ae_mul_base E) private_key public_key)) (\<lambda>_.
       Inr (private_key, public_key, generate_short_id (ae_hex E) random4)))))"

definition rotate_backup_path :: "path \<Rightarrow> path" where
  "rotate_backup_path p = path_suffix p ''.rotate-bak''"

definition backup_for_rotate :: "path \<Rightarrow> world \<Rightarrow> (admin_error + path option) \<times> world" where
  "backup_for_rotate src =
     (let bak = rotate_backup_path src in
      bind_io (path_exists bak) (\<lambda>stale.
      if stale then fail_io (StaleBackup bak)
      else bind_io (path_exists src) (\<lambda>present.
        if \<not> present then return_io None
        else bind_io (admin_io (metadata src)) (\<lambda>_.
          bind_io (admin_io (open_create_new bak mode_0600)) (\<lambda>_.
          bind_io (admin_io (fs_read src)) (\<lambda>bytes.
          bind_io (admin_io (write_all bak bytes)) (\<lambda>_.
          bind_io (admin_io (sync_all bak)) (\<lambda>_.
          bind_io (admin_io (metadata src)) (\<lambda>meta.
          bind_io (admin_io (set_permissions bak (i_mode meta))) (\<lambda>_.
          bind_io (ignore_io (chown bak (i_uid meta) (i_gid meta))) (\<lambda>_.
          return_io (Some bak))))))))))))"

definition restore_from_rotate_backup :: "path \<Rightarrow> world \<Rightarrow> (admin_error + unit) \<times> world" where
  "restore_from_rotate_backup dst =
     (let bak = rotate_backup_path dst in
      bind_io (path_exists bak) (\<lambda>present.
      if \<not> present then return_io ()
      else bind_io (admin_io (fs_rename bak dst)) (\<lambda>_.
        case path_parent dst of Some parent \<Rightarrow> fsync_dir parent | None \<Rightarrow> return_io ())))"

definition remove_rotate_backup :: "path \<Rightarrow> world \<Rightarrow> ('e + unit) \<times> world" where
  "remove_rotate_backup p = ignore_io (remove_file (rotate_backup_path p))"

definition remove_if_present :: "path \<Rightarrow> world \<Rightarrow> (admin_error + unit) \<times> world" where
  "remove_if_present p =
     try_io (remove_file p) (\<lambda>r.
     case r of
       Inr _ \<Rightarrow> return_io ()
     | Inl e \<Rightarrow> if io_kind e = NotFound then return_io () else fail_io (AdminIo e))"

text \<open>Backing up a list of files, or none of them; and undoing, file by file, whatever fails.\<close>

fun remove_all :: "path list \<Rightarrow> world \<Rightarrow> ('e + unit) \<times> world" where
  "remove_all [] = return_io ()"
| "remove_all (p # ps) = bind_io (ignore_io (remove_file p)) (\<lambda>_. remove_all ps)"

fun prepare_backups :: "path list \<Rightarrow> path list \<Rightarrow> world \<Rightarrow> (admin_error + bool list) \<times> world" where
  "prepare_backups [] prepared = return_io []"
| "prepare_backups (p # ps) prepared =
     try_io (backup_for_rotate p) (\<lambda>r.
     case r of
       Inr backup \<Rightarrow>
         bind_io (prepare_backups ps (prepared @ (case backup of Some b \<Rightarrow> [b] | None \<Rightarrow> []))) (\<lambda>existed.
         return_io ((backup \<noteq> None) # existed))
     | Inl error \<Rightarrow> bind_io (remove_all prepared) (\<lambda>_. fail_io (BackupIncomplete error)))"

definition undo_file :: "path \<Rightarrow> bool \<Rightarrow> world \<Rightarrow> (admin_error + unit) \<times> world" where
  "undo_file p did_exist = (if did_exist then restore_from_rotate_backup p else remove_if_present p)"

fun undo_files :: "(path \<times> bool) list \<Rightarrow> world \<Rightarrow> ('e + bool) \<times> world" where
  "undo_files [] = return_io True"
| "undo_files ((p, did_exist) # rest) =
     try_io (undo_file p did_exist) (\<lambda>r.
     bind_io (undo_files rest) (\<lambda>ok. return_io (r = Inr () \<and> ok)))"

subsection \<open>The steps the rotations share\<close>

definition write_config_for_validation :: "'s admin_env \<Rightarrow> path \<Rightarrow> Value \<Rightarrow> world \<Rightarrow> (admin_error + unit) \<times> world" where
  "write_config_for_validation E p doc =
     bind_io (case path_parent p of Some parent \<Rightarrow> admin_io (create_dir_all parent) | None \<Rightarrow> return_io ()) (\<lambda>_.
     bind_io (lift_r (map_err AdminJson (ae_to_vec_pretty E doc))) (\<lambda>bytes.
     admin_io (fs_write p bytes)))"

definition validate_candidate :: "'s admin_env \<Rightarrow> DeploymentConfig \<Rightarrow> string \<Rightarrow> Value \<Rightarrow> world \<Rightarrow> (admin_error + unit) \<times> world" where
  "validate_candidate E cfg ext doc =
     (let tmp_validate = with_extension (singbox_config_file cfg) ext in
      try_io (write_config_for_validation E tmp_validate doc) (\<lambda>staged.
      case staged of
        Inl e \<Rightarrow> bind_io (ignore_io (remove_file tmp_validate)) (\<lambda>_. fail_io (NotStaged e))
      | Inr _ \<Rightarrow>
          try_io (SingBoxBackend_validate (ae_check E) tmp_validate) (\<lambda>validate_result.
          bind_io (ignore_io (remove_file tmp_validate)) (\<lambda>_.
          lift_r (map_err CandidateRejected validate_result)))))"

definition sub_mgr :: CompatibilityServiceManager where
  "sub_mgr = service_manager ''vpn-subscription''"

definition require_services :: "'s admin_env \<Rightarrow> 's host \<Rightarrow> (admin_error + unit) \<times> 's host" where
  "require_services E =
     (if ae_offline E then return_io ()
      else bind_io (service_available (ae_systemd E) service_manager_default) (\<lambda>singbox.
        if \<not> singbox then fail_io ServicesUnavailable
        else bind_io (service_available (ae_systemd E) sub_mgr) (\<lambda>sub.
          if \<not> sub then fail_io ServicesUnavailable else return_io ())))"

text \<open>Reloading a service if there is one to reload: whether it was.\<close>

definition reload_if_available ::
    "'s admin_env \<Rightarrow> CompatibilityServiceManager \<Rightarrow> 's host \<Rightarrow> (string + bool) \<times> 's host" where
  "reload_if_available E mgr =
     bind_io (service_available (ae_systemd E) mgr) (\<lambda>available.
     if available then bind_io (reload_and_verify (ae_systemd E) mgr) (\<lambda>_. return_io True) else return_io False)"

definition service_recovered :: "'s admin_env \<Rightarrow> CompatibilityServiceManager \<Rightarrow> 's host \<Rightarrow> ('e + bool) \<times> 's host" where
  "service_recovered E mgr =
     try_io (reload_if_available E mgr) (\<lambda>r. return_io (case r of Inr _ \<Rightarrow> True | Inl _ \<Rightarrow> False))"

definition restore_config_backup :: "path \<Rightarrow> world \<Rightarrow> ('e + bool) \<times> world" where
  "restore_config_backup target =
     (let cfg_backup = config_backup_path target in
      bind_io (path_exists cfg_backup) (\<lambda>present.
      if \<not> present then return_io False
      else try_io (fs_copy cfg_backup target) (\<lambda>r. return_io (r = Inr ()))))"

definition rotate_rollback ::
    "'s admin_env \<Rightarrow> DeploymentConfig \<Rightarrow> (path \<times> bool) list \<Rightarrow> bool \<Rightarrow> rotate_stage \<Rightarrow> 's host \<Rightarrow> (admin_error + 'a) \<times> 's host" where
  "rotate_rollback E cfg files config_applied reason =
     bind_io (disk (undo_files files)) (\<lambda>files_ok.
     bind_io (if config_applied then disk (restore_config_backup (singbox_config_file cfg)) else return_io True) (\<lambda>config_ok.
     bind_io (service_recovered E service_manager_default) (\<lambda>singbox_recovered.
     bind_io (service_recovered E sub_mgr) (\<lambda>sub_recovered.
     fail_io (RotationFailed reason (files_ok \<and> config_ok) singbox_recovered sub_recovered)))))"

text \<open>After the key files: the configuration and the two services.\<close>

definition rotate_services ::
    "'s admin_env \<Rightarrow> DeploymentConfig \<Rightarrow> (path \<times> bool) list \<Rightarrow> Value \<Rightarrow> 's host \<Rightarrow> (admin_error + bool) \<times> 's host" where
  "rotate_services E cfg files doc =
     (let target = singbox_config_file cfg in
      try_io (disk (apply_config_atomically (ae_to_vec_pretty E) (ae_dbg E) doc target (SingBoxBackend_validate (ae_check E)))) (\<lambda>applied.
      case applied of
        Inl e \<Rightarrow> rotate_rollback E cfg files False ApplyConfig
      | Inr _ \<Rightarrow>
          try_io (reload_if_available E service_manager_default) (\<lambda>reloaded.
          case reloaded of
            Inl e \<Rightarrow> rotate_rollback E cfg files True ReloadSingBox
          | Inr singbox_reloaded_live \<Rightarrow>
              try_io (reload_if_available E sub_mgr) (\<lambda>restarted.
              case restarted of
                Inl e \<Rightarrow> rotate_rollback E cfg files True RestartSubscription
              | Inr sub_restarted_live \<Rightarrow> return_io (singbox_reloaded_live \<and> sub_restarted_live)))))"

subsection \<open>REALITY keys\<close>

definition short_id_file :: "DeploymentConfig \<Rightarrow> path" where
  "short_id_file cfg = reality_dir cfg @ [''short_id.txt'']"

definition keyset_files :: "DeploymentConfig \<Rightarrow> path list" where
  "keyset_files cfg = [reality_private_key_file cfg, reality_public_key_file cfg, short_id_file cfg]"

definition candidate_reality :: "DeploymentConfig \<Rightarrow> string \<times> string \<times> string \<Rightarrow> RealityServerParams" where
  "candidate_reality cfg keys =
     (case keys of (candidate_priv, candidate_pub, candidate_sid) \<Rightarrow>
        \<lparr>rs_private_key_hex = SecretString candidate_priv, rs_public_key_hex = candidate_pub,
         rs_short_ids = [candidate_sid], rs_handshake_server = rl_handshake_server (dc_reality cfg),
         rs_handshake_port = rl_handshake_port (dc_reality cfg)\<rparr>)"

text \<open>Installing the three key files one by one; what failed is returned.\<close>

fun install_keys :: "'s admin_env \<Rightarrow> (path \<times> string \<times> rotate_stage) list \<Rightarrow> world \<Rightarrow> (rotate_stage + unit) \<times> world" where
  "install_keys E [] = return_io ()"
| "install_keys E ((p, contents, stage) # rest) =
     bind_io (map_err_io (\<lambda>_. stage) (install_rotated_key_file E p contents)) (\<lambda>_. install_keys E rest)"

definition keyset_contents :: "DeploymentConfig \<Rightarrow> string \<times> string \<times> string \<Rightarrow> (path \<times> string \<times> rotate_stage) list" where
  "keyset_contents cfg keys =
     (case keys of (candidate_priv, candidate_pub, candidate_sid) \<Rightarrow>
        [(reality_private_key_file cfg, candidate_priv, InstallPrivate),
         (reality_public_key_file cfg, candidate_pub, InstallPublic),
         (short_id_file cfg, candidate_sid, InstallShortId)])"

definition rotate_keyset ::
    "'s admin_env \<Rightarrow> DeploymentConfig \<Rightarrow> CompatUser list \<Rightarrow> string \<times> string \<times> string \<Rightarrow> Value \<Rightarrow> (path \<times> bool) list \<Rightarrow>
     's host \<Rightarrow> (admin_error + bool) \<times> 's host" where
  "rotate_keyset E cfg users keys doc files =
     try_io (disk (install_keys E (keyset_contents cfg keys))) (\<lambda>installed.
     case installed of
       Inl stage \<Rightarrow> rotate_rollback E cfg files False stage
     | Inr _ \<Rightarrow>
         bind_io (rotate_services E cfg files doc) (\<lambda>live.
         bind_io (if live
                  then verify_reality_handshake_or_warn E cfg users (candidate_reality cfg keys) (rl_listen_port (dc_reality cfg))
                  else return_io (NotRun ''sing-box/vpn-subscription were not both confirmed live-reloaded'')) (\<lambda>verified.
         if verified = Ran HandshakeRejected then rotate_rollback E cfg files True HandshakeTest
         else bind_io (disk (remove_all (map rotate_backup_path (map fst files)))) (\<lambda>_. return_io live))))"

text \<open>Everything before the first live file is touched: new keys, the configuration rendered with them, its validation and
  the services that must be there.\<close>

definition rotate_candidate ::
    "'s admin_env \<Rightarrow> DeploymentConfig \<Rightarrow> u8 list \<Rightarrow> 's host \<Rightarrow>
     (admin_error + CompatUser list \<times> (string \<times> string \<times> string) \<times> Value) \<times> 's host" where
  "rotate_candidate E cfg random4 =
     bind_io (disk (path_exists (dc_singbox_binary cfg))) (\<lambda>present.
     if \<not> present then fail_io NoBinary
     else bind_io (lift_r (generate_reality_keypair E random4)) (\<lambda>keys.
       bind_io (map_err_io AdminCompat (disk (load_users (ae_users_json E) (users_file cfg)))) (\<lambda>users.
       bind_io (disk (load_hysteria_params E cfg)) (\<lambda>hysteria.
       bind_io (get_world (\<lambda>h. sint (w_unix_time (fst h)))) (\<lambda>now.
       let doc = render_singbox_server_config users (candidate_reality cfg keys) hysteria (server_ports cfg) now in
       bind_io (disk (validate_candidate E cfg ''rotate-candidate.json'' doc)) (\<lambda>_.
       bind_io (require_services E) (\<lambda>_. return_io (users, keys, doc))))))))"

definition cmd_reality_rotate ::
    "'s admin_env \<Rightarrow> DeploymentConfig \<Rightarrow> u8 list \<Rightarrow> 's host \<Rightarrow> (admin_error + bool) \<times> 's host" where
  "cmd_reality_rotate E cfg random4 =
     bind_io (rotate_candidate E cfg random4) (\<lambda>(users, keys, doc).
     bind_io (disk (prepare_backups (keyset_files cfg) [])) (\<lambda>existed.
     rotate_keyset E cfg users keys doc (zip (keyset_files cfg) existed)))"

subsection \<open>The obfuscation password\<close>

definition apply_restored_file_policy :: "'s admin_env \<Rightarrow> path \<Rightarrow> string \<Rightarrow> world \<Rightarrow> (admin_error + unit) \<times> world" where
  "apply_restored_file_policy E p grp =
     bind_io (admin_io (set_permissions p mode_0640)) (\<lambda>_.
     bind_io (get_world w_euid) (\<lambda>euid.
     if euid \<noteq> 0 then return_io ()
     else case ae_group E grp of
            None \<Rightarrow> fail_io (NoGroup grp)
          | Some gid \<Rightarrow> admin_io (chown p 0 gid)))"

definition rotate_obfs ::
    "'s admin_env \<Rightarrow> DeploymentConfig \<Rightarrow> string \<Rightarrow> Value \<Rightarrow> bool \<Rightarrow> path option \<Rightarrow> 's host \<Rightarrow> (admin_error + bool) \<times> 's host" where
  "rotate_obfs E cfg candidate_password doc existed backup =
     (let obfs_path = hysteria_obfs_password_file cfg; files = [(obfs_path, existed)] in
      try_io (disk (install_rotated_key_file E obfs_path candidate_password)) (\<lambda>installed.
      case installed of
        Inl e \<Rightarrow>
          bind_io (disk (case backup of Some b \<Rightarrow> ignore_io (remove_file b) | None \<Rightarrow> return_io ())) (\<lambda>_.
          fail_io (ObfsNotInstalled e))
      | Inr _ \<Rightarrow>
          try_io (if existed then return_io () else disk (apply_restored_file_policy E obfs_path ''vpn-subscription'')) (\<lambda>policy.
          case policy of
            Inl e \<Rightarrow> rotate_rollback E cfg files False InstallPolicy
          | Inr _ \<Rightarrow>
              bind_io (rotate_services E cfg files doc) (\<lambda>live.
              bind_io (disk (remove_rotate_backup obfs_path)) (\<lambda>_. return_io live)))))"

definition cmd_hysteria_obfs_rotate ::
    "'s admin_env \<Rightarrow> DeploymentConfig \<Rightarrow> u8 list \<Rightarrow> 's host \<Rightarrow> (admin_error + bool) \<times> 's host" where
  "cmd_hysteria_obfs_rotate E cfg random24 =
     (let obfs_path = hysteria_obfs_password_file cfg in
      bind_io (disk (path_exists (dc_singbox_binary cfg))) (\<lambda>present.
      if \<not> present then fail_io NoBinary
      else bind_io (disk (admin_io (create_dir_all (reality_dir cfg)))) (\<lambda>_.
        let candidate_password = generate_hysteria2_obfs_password (ae_hex E) random24 in
        bind_io (disk (load_reality_params E cfg)) (\<lambda>reality.
        bind_io (disk (load_hysteria_params E cfg)) (\<lambda>hysteria.
        let candidate_hysteria = hysteria\<lparr>hs_obfs_password := Some (SecretString candidate_password)\<rparr> in
        bind_io (map_err_io AdminCompat (disk (load_users (ae_users_json E) (users_file cfg)))) (\<lambda>users.
        bind_io (get_world (\<lambda>h. sint (w_unix_time (fst h)))) (\<lambda>now.
        let doc = render_singbox_server_config users reality candidate_hysteria (server_ports cfg) now in
        bind_io (disk (validate_candidate E cfg ''obfs-rotate-candidate.json'' doc)) (\<lambda>_.
        bind_io (require_services E) (\<lambda>_.
        bind_io (disk (path_exists obfs_path)) (\<lambda>existed.
        bind_io (map_err_io BackupIncomplete (disk (backup_for_rotate obfs_path))) (\<lambda>backup.
        rotate_obfs E cfg candidate_password doc existed backup)))))))))))"

subsection \<open>Initialisation\<close>

definition first_keyset :: "'s admin_env \<Rightarrow> DeploymentConfig \<Rightarrow> u8 list \<Rightarrow> u8 list \<Rightarrow> world \<Rightarrow> (admin_error + unit) \<times> world" where
  "first_keyset E cfg random4 random24 =
     (let priv_path = reality_private_key_file cfg; pub_path = reality_public_key_file cfg; sid_path = short_id_file cfg;
          obfs_path = hysteria_obfs_password_file cfg
      in bind_io (lift_r (generate_reality_keypair E random4)) (\<lambda>(private_key, public_key, short_id).
      bind_io (install_rotated_key_file E priv_path private_key) (\<lambda>_.
      bind_io (install_rotated_key_file E pub_path public_key) (\<lambda>_.
      bind_io (install_rotated_key_file E sid_path short_id) (\<lambda>_.
      bind_io (admin_io (set_permissions pub_path mode_0640)) (\<lambda>_.
      bind_io (admin_io (set_permissions sid_path mode_0640)) (\<lambda>_.
      bind_io (fsync_dir (reality_dir cfg)) (\<lambda>_.
      bind_io (install_rotated_key_file E obfs_path (generate_hysteria2_obfs_password (ae_hex E) random24)) (\<lambda>_.
      bind_io (admin_io (set_permissions obfs_path mode_0640)) (\<lambda>_.
      fsync_dir (reality_dir cfg)))))))))))"

text \<open>The result tells whether anything was generated or rotated.\<close>

definition cmd_init ::
    "'s admin_env \<Rightarrow> DeploymentConfig \<Rightarrow> u8 list \<Rightarrow> u8 list \<Rightarrow> bool \<Rightarrow> 's host \<Rightarrow> (admin_error + bool) \<times> 's host" where
  "cmd_init E cfg random4 random24 do_rotate =
     bind_io (disk (admin_io (create_dir_all (reality_dir cfg)))) (\<lambda>_.
     bind_io (disk (admin_io (create_dir_all (hysteria_dir cfg)))) (\<lambda>_.
     bind_io (disk (admin_io (create_dir_all (butlast (users_file cfg))))) (\<lambda>_.
     bind_io (disk (path_exists (singbox_config_file cfg))) (\<lambda>deployment_exists.
     bind_io (disk (path_exists (reality_private_key_file cfg))) (\<lambda>has_key.
     if has_key then
       (if do_rotate then bind_io (cmd_reality_rotate E cfg random4) (\<lambda>_. return_io True)
        else bind_io (disk (path_exists (reality_public_key_file cfg))) (\<lambda>has_pub.
             bind_io (if has_pub then disk (path_exists (short_id_file cfg)) else return_io False) (\<lambda>complete.
             if complete then return_io False
             else bind_io (disk (path_exists (reality_public_key_file cfg))) (\<lambda>pub.
                  bind_io (disk (path_exists (short_id_file cfg))) (\<lambda>sid.
                  fail_io (IncompleteKeyset pub sid))))))
     else if deployment_exists then bind_io (cmd_reality_rotate E cfg random4) (\<lambda>_. return_io True)
     else bind_io (disk (first_keyset E cfg random4 random24)) (\<lambda>_. return_io True))))))"

subsection \<open>A disk that works\<close>

lemma faultless_changes [faultless_intros]:
  "faultless (fs_rename a b)" "faultless (remove_file p)" "faultless (chown p u g)" "faultless (set_permissions p m)"
  "faultless (open_create_new p m)" "faultless (fs_write p bs)"
  by (auto simp: faultless_def fs_rename_def remove_file_def chown_def set_permissions_def open_create_new_def fs_write_def
      bind_io_def open_truncate_def write_all_def append_bytes_def put_node_def prim_def split: option.splits sum.splits prod.splits)

lemma faultless_ignore [faultless_intros]: "faultless m \<Longrightarrow> faultless (ignore_io m)"
  by (simp add: faultless_def ignore_io_def)

lemma faultless_admin_io [faultless_intros]: "faultless m \<Longrightarrow> faultless (admin_io m)"
  unfolding admin_io_def by (rule faultless_intros)

lemma prim_calm: "w_faults w = [] \<Longrightarrow> prim part run w = run w"
  by (simp add: prim_def)

lemma path_exists_calm: "w_faults w = [] \<Longrightarrow> path_exists p w = (Inr (w_fs w p \<noteq> None), w)"
  by (simp add: path_exists_def try_io_def prim_calm return_io_def)

lemma rotate_backup_path_app: "p \<noteq> [] \<Longrightarrow> rotate_backup_path p = butlast p @ [last p @ ''.rotate-bak'']"
  by (simp add: rotate_backup_path_def path_suffix_def)

lemma rotate_paths_neq:
  assumes "p \<noteq> []"
  shows "rotate_backup_path p \<noteq> p" "butlast (rotate_backup_path p) = butlast p" "rotate_backup_path p \<noteq> []"
    "path_suffix p ''.rotate-tmp'' \<noteq> p" "path_suffix p ''.rotate-tmp'' \<noteq> rotate_backup_path p"
  using assms append_butlast_last_id [of p]
  by (auto simp: rotate_backup_path_def path_suffix_def) (metis append_self_conv last_snoc list.distinct(1))+

lemma backup_calm:
  assumes "w_faults w = []" "p \<noteq> []" "backup_for_rotate p w = (Inr b, w')"
  shows "w_faults w' = []" "b \<noteq> None \<longleftrightarrow> w_fs w p \<noteq> None" "w_fs w' = (w_fs w)(rotate_backup_path p := w_fs w p)"
    "w_fs w p \<noteq> None \<Longrightarrow> is_dir_at (butlast p) w \<and> \<not> is_dir_at p w"
  using assms rotate_paths_neq [OF assms(2)]
  by (auto simp: backup_for_rotate_def Let_def bind_io_def path_exists_calm fail_io_def return_io_def admin_io_def map_err_io_def
      metadata_def open_create_new_def fs_read_def write_all_def sync_all_def set_permissions_def chown_def ignore_io_def
      prim_calm put_node_def append_bytes_def is_dir_at_def new_node_def ok_or_def split: option.splits if_splits)

subsection \<open>The transaction over files\<close>

text \<open>
  \<open>in_transaction ps w0 w\<close>: the backups of the files \<open>ps\<close> hold these files as they were in \<open>w0\<close>, and they can be put back.
\<close>

definition in_transaction :: "path list \<Rightarrow> world \<Rightarrow> world \<Rightarrow> bool" where
  "in_transaction ps w0 w \<longleftrightarrow>
     w_faults w = [] \<and>
     (\<forall>p\<in>set ps. w_fs w (rotate_backup_path p) = w_fs w0 p \<and> \<not> is_dir_at p w \<and>
        (w_fs w0 p \<noteq> None \<longrightarrow> is_dir_at (butlast p) w \<and> \<not> is_dir_at p w0))"

text \<open>Files that can be replaced together: no backup is another file, and no file is in the way of another.\<close>

definition apart :: "path list \<Rightarrow> bool" where
  "apart ps \<longleftrightarrow> distinct ps \<and> (\<forall>p\<in>set ps. p \<noteq> []) \<and> inj_on rotate_backup_path (set ps) \<and>
     (\<forall>p\<in>set ps. \<forall>q\<in>set ps. rotate_backup_path p \<noteq> q \<and> path_suffix p ''.rotate-tmp'' \<noteq> q \<and>
        rotate_backup_path q \<noteq> path_suffix p ''.rotate-tmp'' \<and> butlast p \<notin> {q, rotate_backup_path q, path_suffix q ''.rotate-tmp''})"

lemma apart_Cons: "apart (p # ps) \<Longrightarrow> apart ps"
  by (auto simp: apart_def inj_on_def)

lemma transaction_step:
  assumes "frame S m" "faultless m" "m w = (r, w')" "in_transaction ps w0 w"
    and "\<forall>p\<in>set ps. {p, rotate_backup_path p, butlast p} \<inter> S = {}"
  shows "in_transaction ps w0 w'"
proof -
  have "w_fs w' q = w_fs w q" if "q \<notin> S" for q
    using frame_step [OF assms(1,3) that] .
  moreover have "w_faults w' = []"
    using faultlessD [OF assms(2,3)] assms(4) by (simp add: in_transaction_def)
  ultimately show ?thesis
    using assms(4,5) by (auto simp: in_transaction_def is_dir_at_def)
qed

lemma prepare_calm:
  assumes "w_faults w = []" "apart ps" "prepare_backups ps prepared w = (Inr existed, w')"
  shows "w_faults w' = []" "existed = map (\<lambda>p. w_fs w p \<noteq> None) ps"
    "\<And>p. p \<in> set ps \<Longrightarrow> w_fs w' (rotate_backup_path p) = w_fs w p"
    "\<And>q. q \<notin> rotate_backup_path ` set ps \<Longrightarrow> w_fs w' q = w_fs w q"
    "\<And>p. p \<in> set ps \<Longrightarrow> w_fs w p \<noteq> None \<Longrightarrow> is_dir_at (butlast p) w \<and> \<not> is_dir_at p w"
proof -
  have "w_faults w' = [] \<and> existed = map (\<lambda>p. w_fs w p \<noteq> None) ps \<and>
      (\<forall>p\<in>set ps. w_fs w' (rotate_backup_path p) = w_fs w p) \<and>
      (\<forall>q. q \<notin> rotate_backup_path ` set ps \<longrightarrow> w_fs w' q = w_fs w q) \<and>
      (\<forall>p\<in>set ps. w_fs w p \<noteq> None \<longrightarrow> is_dir_at (butlast p) w \<and> \<not> is_dir_at p w)"
    using assms
  proof (induction ps prepared arbitrary: w existed w' rule: prepare_backups.induct)
    case (1 prepared)
    then show ?case
      by (simp add: return_io_def)
  next
    case (2 p ps prepared)
    obtain rb w1 where rb: "backup_for_rotate p w = (rb, w1)"
      by (metis surj_pair)
    with "2.prems"(3) obtain b es where w1: "backup_for_rotate p w = (Inr b, w1)"
      and rest: "prepare_backups ps (prepared @ (case b of Some b \<Rightarrow> [b] | None \<Rightarrow> [])) w1 = (Inr es, w')"
      and existed: "existed = (b \<noteq> None) # es"
      by (cases rb) (auto simp: try_io_def bind_io_eq_Inr return_io_def fail_io_def)
    have p: "p \<noteq> []" and fresh: "\<forall>q\<in>set ps. q \<noteq> rotate_backup_path p" "\<forall>q\<in>set ps. butlast q \<noteq> rotate_backup_path p" "p \<notin> set ps"
        "\<forall>q\<in>set ps. rotate_backup_path q \<noteq> p \<and> rotate_backup_path q \<noteq> rotate_backup_path p"
      using "2.prems"(2) by (auto simp: apart_def inj_on_def)
    note b = backup_calm [OF "2.prems"(1) p w1]
    have "rotate_backup_path p \<notin> rotate_backup_path ` set ps"
      using fresh(4) by (metis imageE)
    note fresh = fresh this
    have same: "w_fs w1 q = w_fs w q" "is_dir_at q w1 = is_dir_at q w" "is_dir_at (butlast q) w1 = is_dir_at (butlast q) w"
      if "q \<in> set ps" for q
      using that fresh(1,2) b(3) by (auto simp: is_dir_at_def)
    note rec = "2.IH" [OF b(1) apart_Cons [OF "2.prems"(2)] rest]
    have "existed = map (\<lambda>q. w_fs w q \<noteq> None) (p # ps)"
      using rec same(1) existed b(2) by auto
    moreover have "w_fs w' (rotate_backup_path q) = w_fs w q" if "q \<in> set (p # ps)" for q
      using that rec same(1) b(3) fresh by auto
    moreover have "w_fs w' q = w_fs w q" if "q \<notin> rotate_backup_path ` set (p # ps)" for q
      using that rec b(3) by auto
    moreover have "is_dir_at (butlast q) w \<and> \<not> is_dir_at q w" if "q \<in> set (p # ps)" "w_fs w q \<noteq> None" for q
      using that rec same b(4) by auto
    ultimately show ?case
      using rec by blast
  qed
  then show "w_faults w' = []" "existed = map (\<lambda>p. w_fs w p \<noteq> None) ps"
    "\<And>p. p \<in> set ps \<Longrightarrow> w_fs w' (rotate_backup_path p) = w_fs w p"
    "\<And>q. q \<notin> rotate_backup_path ` set ps \<Longrightarrow> w_fs w' q = w_fs w q"
    "\<And>p. p \<in> set ps \<Longrightarrow> w_fs w p \<noteq> None \<Longrightarrow> is_dir_at (butlast p) w \<and> \<not> is_dir_at p w"
    by blast+
qed

lemma frame_backup [frame_intros]: "rotate_backup_path p \<in> S \<Longrightarrow> frame S (backup_for_rotate p)"
  unfolding backup_for_rotate_def Let_def by (auto intro!: frame_intros)

lemma frame_remove_all [frame_intros]: "set ps \<subseteq> S \<Longrightarrow> frame S (remove_all ps)"
  by (induction ps) (auto intro!: frame_intros)

lemma backup_names: "backup_for_rotate p w = (Inr (Some b), w') \<Longrightarrow> b = rotate_backup_path p"
  by (auto simp: backup_for_rotate_def Let_def io_simps split: if_splits)

lemma prepare_frame:
  assumes "prepare_backups ps prepared w = (r, w')" "set prepared \<subseteq> S" "rotate_backup_path ` set ps \<subseteq> S" "q \<notin> S"
  shows "w_fs w' q = w_fs w q"
  using assms
proof (induction ps prepared arbitrary: w r w' rule: prepare_backups.induct)
  case (2 p ps prepared)
  obtain b w1 where w1: "backup_for_rotate p w = (b, w1)"
    by (metis surj_pair)
  have q: "w_fs w1 q = w_fs w q"
    using frame_step [OF frame_backup [of p S] w1] "2.prems" by simp
  show ?case
  proof (cases b)
    case (Inl e)
    obtain r2 w2 where w2: "remove_all prepared w1 = (r2 :: admin_error + unit, w2)"
      by (metis surj_pair)
    with "2.prems"(1) w1 Inl have "w' = w2"
      by (auto simp: try_io_def bind_io_def fail_io_def split: sum.splits)
    with frame_step [OF frame_remove_all [OF "2.prems"(2)] w2 "2.prems"(4)] q show ?thesis
      by simp
  next
    case (Inr c)
    let ?more = "prepared @ (case c of Some b \<Rightarrow> [b] | None \<Rightarrow> [])"
    obtain r2 w2 where w2: "prepare_backups ps ?more w1 = (r2, w2)"
      by (metis surj_pair)
    have "set ?more \<subseteq> S"
      using "2.prems" backup_names w1 Inr by (auto split: option.splits)
    with "2.IH" [OF w2] "2.prems" have "w_fs w2 q = w_fs w1 q"
      by simp
    moreover have "w' = w2"
      using "2.prems"(1) w1 Inr w2 by (auto simp: try_io_def bind_io_def return_io_def split: sum.splits)
    ultimately show ?thesis
      using q by simp
  qed
qed (simp add: return_io_def)

lemma restore_calm:
  assumes "w_faults w = []" "p \<noteq> []" "w_fs w (rotate_backup_path p) = Some n" "is_dir_at (butlast p) w" "\<not> is_dir_at p w"
  shows "\<exists>w'. restore_from_rotate_backup p w = (Inr (), w') \<and> w_faults w' = [] \<and>
    w_fs w' = (w_fs w)(rotate_backup_path p := None, p := Some n)"
  using assms
  by (auto simp: restore_from_rotate_backup_def Let_def bind_io_def path_exists_calm admin_io_def map_err_io_def fs_rename_def
      prim_calm fsync_dir_def ignore_io_def metadata_def sync_all_def path_parent_def ok_or_def split: option.splits)

lemma remove_calm:
  assumes "w_faults w = []" "\<not> is_dir_at p w"
  shows "\<exists>w'. remove_if_present p w = (Inr (), w') \<and> w_faults w' = [] \<and> w_fs w' = (w_fs w)(p := None)"
  using assms
  by (auto simp: remove_if_present_def try_io_def remove_file_def prim_calm return_io_def fail_io_def enoent_def io_error_new_def
      put_node_def is_dir_at_def split: option.splits)

lemma undo_calm:
  assumes "in_transaction ps w0 w" "apart ps"
  shows "\<exists>w'. undo_files (zip ps (map (\<lambda>p. w_fs w0 p \<noteq> None) ps)) w = (Inr True :: 'e + bool, w') \<and> w_faults w' = [] \<and>
    (\<forall>p\<in>set ps. w_fs w' p = w_fs w0 p) \<and> (\<forall>p\<in>set ps. w_fs w' (rotate_backup_path p) = None) \<and>
    (\<forall>q. q \<notin> set ps \<union> rotate_backup_path ` set ps \<longrightarrow> w_fs w' q = w_fs w q)"
  using assms
proof (induction ps arbitrary: w)
  case Nil
  then show ?case
    by (simp add: return_io_def in_transaction_def)
next
  case (Cons p ps)
  have p: "p \<noteq> []" "rotate_backup_path p \<noteq> p" "p \<notin> set ps"
      "\<forall>q\<in>set ps. q \<noteq> rotate_backup_path p \<and> butlast q \<noteq> p \<and> butlast q \<noteq> rotate_backup_path p \<and>
        rotate_backup_path q \<noteq> rotate_backup_path p \<and> rotate_backup_path q \<noteq> p"
    using Cons.prems(2) rotate_paths_neq(1) [of p] by (auto simp: apart_def inj_on_def)
  obtain w1 where w1: "undo_file p (w_fs w0 p \<noteq> None) w = (Inr (), w1)" "w_faults w1 = []"
      "w_fs w1 = (w_fs w)(rotate_backup_path p := None, p := w_fs w0 p)"
  proof (cases "w_fs w0 p")
    case None
    then have bak: "w_fs w (rotate_backup_path p) = None"
      using Cons.prems(1) by (simp add: in_transaction_def)
    obtain w1 where "remove_if_present p w = (Inr (), w1)" "w_faults w1 = []" "w_fs w1 = (w_fs w)(p := None)"
      using remove_calm [of w p] Cons.prems(1) by (auto simp: in_transaction_def)
    with None bak show ?thesis
      by (intro that [of w1]) (auto simp: undo_file_def)
  next
    case (Some n)
    with restore_calm [of w p n] p Cons.prems(1) show ?thesis
      by (auto simp: undo_file_def in_transaction_def intro: that)
  qed
  have "in_transaction ps w0 w1"
    using Cons.prems(1) w1(2,3) p by (auto simp: in_transaction_def is_dir_at_def)
  from Cons.IH [OF this apart_Cons [OF Cons.prems(2)]] obtain w2 where
    "undo_files (zip ps (map (\<lambda>p. w_fs w0 p \<noteq> None) ps)) w1 = (Inr True :: 'e + bool, w2)" "w_faults w2 = []"
    "\<forall>q\<in>set ps. w_fs w2 q = w_fs w0 q" "\<forall>q\<in>set ps. w_fs w2 (rotate_backup_path q) = None"
    "\<forall>q. q \<notin> set ps \<union> rotate_backup_path ` set ps \<longrightarrow> w_fs w2 q = w_fs w1 q"
    by blast
  with w1 p show ?case
    by (auto simp: try_io_def bind_io_def return_io_def)
qed

text \<open>Installing one file of the transaction.\<close>

lemma frame_install [frame_intros]:
  "p \<in> S \<Longrightarrow> path_suffix p ''.rotate-tmp'' \<in> S \<Longrightarrow> frame S (install_rotated_key_file E p contents)"
  unfolding install_rotated_key_file_def Let_def write_secret_file_def by (auto intro!: frame_intros split: sum.split)

lemma faultless_preserve [faultless_intros]: "faultless (preserve_ownership_before_rename dbg tmp p)"
  unfolding preserve_ownership_before_rename_def Let_def by (auto intro!: faultless_intros split: sum.split option.split)

lemma faultless_install [faultless_intros]: "faultless (install_rotated_key_file E p contents)"
  unfolding install_rotated_key_file_def Let_def write_secret_file_def by (auto intro!: faultless_intros split: sum.split)

lemma write_secret_data:
  "write_secret_file p contents w = (Inr (), w') \<Longrightarrow> \<exists>m. holds_data (as_bytes contents) m (w_fs w' p)"
  using write_file_mode_data [of p "as_bytes contents" mode_0600 w w']
  by (auto simp: write_secret_file_def write_file_mode_def admin_io_def compat_io_def io_simps)

lemma install_fails:
  assumes "p \<noteq> []"
  shows "keeps_on_error p (install_rotated_key_file E p contents)"
proof -
  note tmp = rotate_paths_neq(4) [OF assms]
  have "keeps_on_error p (admin_io (fs_rename (path_suffix p ''.rotate-tmp'') p))"
    unfolding keeps_on_error_def admin_io_def using fs_rename_result(2)
    by (auto simp: map_err_io_def map_err_def split: sum.splits prod.splits)
  then show ?thesis
    unfolding install_rotated_key_file_def Let_def write_secret_file_def using tmp
    by (auto intro!: keeps_on_error_bind keeps_on_error_try keeps_path_frame [of "{path_suffix p ''.rotate-tmp''}"] frame_intros
        split: sum.split)
qed

lemma install_succeeds:
  assumes "install_rotated_key_file E p contents w = (Inr (), w')" "p \<noteq> []"
  shows "\<exists>m. holds_data (as_bytes contents) m (w_fs w' p)"
proof -
  let ?tmp = "path_suffix p ''.rotate-tmp''"
  from assms(1) obtain w1 meta w2 w3 w4 where w1: "write_secret_file ?tmp contents w = (Inr (), w1)"
    and w2: "metadata p w1 = (meta, w2)"
    and w3: "(case meta of Inr m \<Rightarrow> admin_io (set_permissions ?tmp (i_mode m)) | Inl _ \<Rightarrow> return_io ()) w2 = (Inr (), w3)"
    and w4: "preserve_ownership_before_rename (ae_dbg E) ?tmp p w3 = (Inr (), w4)"
    and w': "fs_rename ?tmp p w4 = (Inr (), w')"
    by (auto simp: install_rotated_key_file_def Let_def admin_io_def io_simps)
  obtain m where "holds_data (as_bytes contents) m (w_fs w2 ?tmp)"
    using write_secret_data [OF w1] frame_step [OF frame_metadata [of "{}"] w2] by auto
  then have "\<exists>m. holds_data (as_bytes contents) m (w_fs w3 ?tmp)"
  proof (cases meta)
    case (Inr b)
    with w3 have "set_permissions ?tmp (i_mode b) w2 = (Inr (), w3)"
      by (simp add: admin_io_def io_simps)
    then show ?thesis
      using set_permissions_data \<open>holds_data _ m _\<close> by blast
  qed (use w3 in \<open>auto simp: return_io_def\<close>)
  then obtain m' where "holds_data (as_bytes contents) m' (w_fs w4 ?tmp)"
    using keepsD [OF preserve_keeps_data w4] by blast
  then show ?thesis
    using fs_rename_result(1) [OF w'] by (auto simp: holds_data_def)
qed

lemma install_in_transaction:
  assumes "in_transaction ps w0 w" "apart ps" "p \<in> set ps" "install_rotated_key_file E p contents w = (r, w')"
  shows "in_transaction ps w0 w'"
proof -
  let ?tmp = "path_suffix p ''.rotate-tmp''"
  have p: "p \<noteq> []"
    using assms(2,3) by (simp add: apart_def)
  have same: "w_fs w' q = w_fs w q" if "q \<notin> {p, ?tmp}" for q
    by (rule frame_step [OF frame_install assms(4) that]) simp_all
  have "\<not> is_dir_at p w'"
  proof (cases r)
    case (Inl e)
    with install_fails [OF p, of E contents] assms(1,3,4) show ?thesis
      by (auto simp: keeps_on_error_def in_transaction_def is_dir_at_def)
  next
    case (Inr u)
    with install_succeeds [of E p contents w w'] p assms(4) show ?thesis
      by (auto simp: holds_data_def is_dir_at_def split: option.splits)
  qed
  moreover have "\<forall>q\<in>set ps. w_fs w' (rotate_backup_path q) = w_fs w (rotate_backup_path q) \<and> (q \<noteq> p \<longrightarrow> w_fs w' q = w_fs w q) \<and>
      w_fs w' (butlast q) = w_fs w (butlast q)"
    using assms(2,3) by (auto simp: apart_def intro!: same)
  moreover have "w_faults w' = []"
    using faultlessD [OF faultless_install assms(4)] assms(1) by (simp add: in_transaction_def)
  ultimately show ?thesis
    using assms(1) by (auto simp: in_transaction_def is_dir_at_def)
qed

subsection \<open>The transaction over files and services\<close>

text \<open>What the subscription service reads once, when it starts.\<close>

definition sub_view :: "DeploymentConfig \<Rightarrow> world \<Rightarrow> u8 list option \<times> u8 list option \<times> u8 list option" where
  "sub_view cfg w = (file_content (reality_public_key_file cfg) w, file_content (short_id_file cfg) w,
     file_content (hysteria_obfs_password_file cfg) w)"

text \<open>What is relied on: the subscription service advertises what it read at its last restart, and the self-test does not restart it;
  \<^verbatim>\<open>systemctl\<close> answers, and both units are installed.\<close>

definition sub_ok ::
    "'s admin_env \<Rightarrow> DeploymentConfig \<Rightarrow> ('s \<Rightarrow> u8 list option \<times> u8 list option \<times> u8 list option) \<Rightarrow> bool" where
  "sub_ok E cfg advertised \<longleftrightarrow>
     service_ok (ae_systemd E) ''vpn-subscription'' (sub_view cfg) advertised \<and>
     (\<forall>c w s. advertised (snd (ae_client E c w s)) = advertised s)"

definition answers :: "'s systemd \<Rightarrow> string list \<Rightarrow> (cmd_output \<Rightarrow> bool) \<Rightarrow> bool" where
  "answers S args p \<longleftrightarrow> (\<forall>w s. case fst (sd_systemctl S args w s) of Inr out \<Rightarrow> p out | Inl _ \<Rightarrow> False)"

definition units_available :: "'s admin_env \<Rightarrow> bool" where
  "units_available E \<longleftrightarrow> answers (ae_systemd E) [''--version''] co_success \<and>
     (\<forall>unit\<in>{''sing-box.service'', ''vpn-subscription.service''}.
        answers (ae_systemd E) [''show'', ''-p'', ''LoadState'', ''--value'', unit] (\<lambda>out. co_success out \<and> trim (co_stdout out) = ''loaded''))"

lemma ask_answers:
  assumes "answers S args p"
  shows "\<exists>h'. ask S args p h = (Inr True, h')"
proof -
  obtain r s where "sd_systemctl S args (fst h) (snd h) = (r, s)"
    by (metis surj_pair)
  moreover from this have "case r of Inr out \<Rightarrow> p out | Inl _ \<Rightarrow> False"
    using assms unfolding answers_def by (metis fst_conv)
  ultimately show ?thesis
    by (cases r) (auto simp: ask_def mgr_run_def try_io_def systemctl_def return_io_def)
qed

lemma service_available_same:
  assumes "service_ok S name view loaded" and "service_available S mgr h = (r, h')"
  shows "fst h' = fst h" "same_running loaded h h'"
proof -
  have "steady same_disk (service_available S mgr)" "steady (same_running loaded) (service_available S mgr)"
    unfolding service_available_def by (auto intro!: steady_intros observers_same_running [OF assms(1)])
  from steadyD [OF this(1) assms(2)] steadyD [OF this(2) assms(2)] show "fst h' = fst h" "same_running loaded h h'"
    by (simp_all add: same_disk_def)
qed

lemma service_available_units:
  assumes "units_available E" "mgr \<in> {service_manager_default, sub_mgr}"
  shows "\<exists>h'. service_available (ae_systemd E) mgr h = (Inr True :: 'e + bool, h')"
proof -
  obtain h1 where "is_available (ae_systemd E) h = (Inr True :: 'e + bool, h1)"
    using ask_answers assms(1) unfolding is_available_def units_available_def by blast
  moreover have "sm_service_name mgr @ ''.service'' \<in> {''sing-box.service'', ''vpn-subscription.service''}"
    using assms(2) by (auto simp: service_manager_default_def sub_mgr_def service_manager_def)
  then obtain h2 where "is_unit_installed (ae_systemd E) mgr h1 = (Inr True :: 'e + bool, h2)"
    using ask_answers assms(1) unfolding is_unit_installed_def Let_def units_available_def by blast
  ultimately show ?thesis
    by (simp add: service_available_def bind_io_def)
qed

lemma reload_if_available_result:
  assumes units: "units_available E" "mgr \<in> {service_manager_default, sub_mgr}"
    and S: "service_ok (ae_systemd E) name view loaded" and run: "reload_if_available E mgr h = (r, h')"
  shows "fst h' = fst h" "r \<noteq> Inr False" "sm_service_name mgr \<noteq> name \<Longrightarrow> same_running loaded h h'"
    "sm_service_name mgr = name \<Longrightarrow> r = Inr b \<Longrightarrow> loaded (snd h') = view (fst h)"
proof -
  obtain h1 where h1: "service_available (ae_systemd E) mgr h = (Inr True :: string + bool, h1)"
    using service_available_units [OF units] by blast
  note q = service_available_same [OF S h1]
  obtain rl h2 where h2: "reload_and_verify (ae_systemd E) mgr h1 = (rl, h2)"
    by (metis surj_pair)
  have res: "h' = h2" "r = (case rl of Inl e \<Rightarrow> Inl e | Inr _ \<Rightarrow> Inr True)"
    using run h1 h2 by (auto simp: reload_if_available_def bind_io_def return_io_def split: sum.splits)
  show "fst h' = fst h"
    using steadyD [OF reload_same_disk(2) h2] q res by (simp add: same_disk_def)
  show "r \<noteq> Inr False"
    using res by (cases rl) auto
  show "sm_service_name mgr \<noteq> name \<Longrightarrow> same_running loaded h h'"
    using reload_other_service [OF S _ h2] q res by (simp add: same_running_def)
  show "loaded (snd h') = view (fst h)" if "sm_service_name mgr = name" "r = Inr b"
  proof -
    have "rl = Inr ()"
      using that(2) res by (cases rl) auto
    with reload_and_verify_loads [of "ae_systemd E" mgr view loaded h1 h2] S that(1) h2 q res show ?thesis
      by simp
  qed
qed

text \<open>The paths a transaction over the files \<open>ps\<close> uses, and where it stands between its first backup and its end.\<close>

definition txn_paths :: "path list \<Rightarrow> path set" where
  "txn_paths ps = set ps \<union> rotate_backup_path ` set ps \<union> (\<lambda>p. path_suffix p ''.rotate-tmp'') ` set ps"

definition transactable :: "DeploymentConfig \<Rightarrow> path list \<Rightarrow> bool" where
  "transactable cfg ps \<longleftrightarrow> apart ps \<and> txn_paths ps \<inter> service_paths cfg = {} \<and> butlast ` set ps \<inter> service_paths cfg = {} \<and>
     (\<forall>p\<in>{reality_public_key_file cfg, short_id_file cfg, hysteria_obfs_password_file cfg}.
        p \<in> set ps \<or> p \<notin> txn_paths ps \<and> p \<notin> service_paths cfg)"

definition mid_transaction :: "DeploymentConfig \<Rightarrow> path list \<Rightarrow> world \<Rightarrow> world \<Rightarrow> bool" where
  "mid_transaction cfg ps w0 w \<longleftrightarrow> in_transaction ps w0 w \<and>
     (\<forall>q. q \<notin> service_paths cfg \<and> q \<notin> txn_paths ps \<longrightarrow> w_fs w q = w_fs w0 q)"

definition existing :: "world \<Rightarrow> path list \<Rightarrow> (path \<times> bool) list" where
  "existing w ps = zip ps (map (\<lambda>p. w_fs w p \<noteq> None) ps)"

text \<open>Everything is as it was: the files, the configuration, and each service that is reported recovered.\<close>

definition rolled_back ::
    "DeploymentConfig \<Rightarrow> ('s \<Rightarrow> u8 list option) \<Rightarrow> ('s \<Rightarrow> u8 list option \<times> u8 list option \<times> u8 list option) \<Rightarrow>
     path list \<Rightarrow> world \<Rightarrow> u8 list \<Rightarrow> admin_error \<Rightarrow> 's host \<Rightarrow> bool" where
  "rolled_back cfg running advertised ps w0 old e h' \<longleftrightarrow>
     (\<exists>stage sb sub. e = RotationFailed stage True sb sub \<and>
        (\<forall>p\<in>set ps. w_fs (fst h') p = w_fs w0 p) \<and> file_content (singbox_config_file cfg) (fst h') = Some old \<and>
        (sb \<longrightarrow> running (snd h') = Some old) \<and> (sub \<longrightarrow> advertised (snd h') = sub_view cfg w0))"

lemma undo_mid:
  fixes r :: "'e + bool"
  assumes "transactable cfg ps" "mid_transaction cfg ps w0 (fst h)" and "disk (undo_files (existing w0 ps)) h = (r, h')"
  shows "r = Inr True" "w_faults (fst h') = []" "\<And>p. p \<in> set ps \<Longrightarrow> w_fs (fst h') p = w_fs w0 p" "snd h' = snd h"
    "sub_view cfg (fst h') = sub_view cfg w0" "\<And>q. q \<in> service_paths cfg \<Longrightarrow> w_fs (fst h') q = w_fs (fst h) q"
proof -
  have "in_transaction ps w0 (fst h)" "apart ps"
    using assms(1,2) by (simp_all add: transactable_def mid_transaction_def)
  from undo_calm [OF this] obtain w' where w': "undo_files (existing w0 ps) (fst h) = (Inr True :: 'e + bool, w')" "w_faults w' = []"
      "\<forall>p\<in>set ps. w_fs w' p = w_fs w0 p" "\<forall>q. q \<notin> set ps \<union> rotate_backup_path ` set ps \<longrightarrow> w_fs w' q = w_fs (fst h) q"
    unfolding existing_def by blast
  then have h': "h' = (w', snd h)" "r = Inr True"
    using assms(3) by (simp_all add: disk_def)
  show "r = Inr True" "w_faults (fst h') = []" "snd h' = snd h" "\<And>p. p \<in> set ps \<Longrightarrow> w_fs (fst h') p = w_fs w0 p"
    using h' w' by auto
  show "w_fs (fst h') q = w_fs (fst h) q" if "q \<in> service_paths cfg" for q
  proof -
    have "q \<notin> txn_paths ps"
      using assms(1) that by (auto simp: transactable_def)
    then show ?thesis
      using h' w'(4) by (auto simp: txn_paths_def)
  qed
  have "w_fs w' p = w_fs w0 p" if "p \<in> {reality_public_key_file cfg, short_id_file cfg, hysteria_obfs_password_file cfg}" for p
  proof (cases "p \<in> set ps")
    case False
    with assms(1) that have "p \<notin> txn_paths ps" "p \<notin> service_paths cfg"
      by (auto simp: transactable_def)
    then show ?thesis
      using w'(4) assms(2) by (auto simp: mid_transaction_def txn_paths_def)
  qed (use w'(3) in simp)
  then show "sub_view cfg (fst h') = sub_view cfg w0"
    using h' by (simp add: sub_view_def file_content_def)
qed

lemma fs_copy_calm:
  assumes "w_faults w = []" "w_fs w src = Some n" "\<not> i_dir n" "w_fs w dst = Some m" "\<not> i_dir m"
  shows "\<exists>w'. fs_copy src dst w = (Inr (), w') \<and> w_faults w' = []"
  using assms
  by (auto simp: fs_copy_def bind_io_def metadata_def fs_read_def open_truncate_def set_permissions_def write_all_def prim_calm
      put_node_def append_bytes_def ok_or_def split: option.splits)

lemma restore_config_calm:
  assumes "w_faults w = []" "holds_data old m (w_fs w (config_backup_path target))" "holds_data b k (w_fs w target)" "target \<noteq> []"
  shows "\<exists>w' m. restore_config_backup target w = (Inr True, w') \<and> holds_data old m (w_fs w' target) \<and>
    (\<forall>q. q \<noteq> target \<longrightarrow> w_fs w' q = w_fs w q)"
proof -
  obtain n n' where n: "w_fs w (config_backup_path target) = Some n" "\<not> i_dir n" "i_content n = old"
      "w_fs w target = Some n'" "\<not> i_dir n'"
    using assms(2,3) by (auto simp: holds_data_def split: option.splits)
  then obtain w' where w': "fs_copy (config_backup_path target) target w = (Inr (), w')"
    using fs_copy_calm assms(1) by blast
  with fs_copy_data [OF w' config_backup_path_neq(1) [OF assms(4)]] frame_step [OF frame_fs_copy [OF singletonI] w'] n assms(1)
  show ?thesis
    by (auto simp: restore_config_backup_def Let_def bind_io_def path_exists_calm try_io_def return_io_def)
qed

lemma recovered_result:
  assumes "units_available E" "mgr \<in> {service_manager_default, sub_mgr}" "service_ok (ae_systemd E) name view loaded"
    and "service_recovered E mgr h = (r, h')"
  shows "fst h' = fst h" "\<exists>b. r = Inr b" "sm_service_name mgr \<noteq> name \<Longrightarrow> same_running loaded h h'"
    "sm_service_name mgr = name \<Longrightarrow> r = Inr True \<Longrightarrow> loaded (snd h') = view (fst h)"
proof -
  obtain x where x: "reload_if_available E mgr h = (x, h')" "r = Inr (case x of Inr _ \<Rightarrow> True | Inl _ \<Rightarrow> False)"
    using assms(4) by (auto simp: service_recovered_def try_io_def return_io_def split: prod.splits)
  note res = reload_if_available_result [OF assms(1-3) x(1)]
  show "fst h' = fst h" "\<exists>b. r = Inr b" "sm_service_name mgr \<noteq> name \<Longrightarrow> same_running loaded h h'"
    using res x(2) by auto
  show "sm_service_name mgr = name \<Longrightarrow> r = Inr True \<Longrightarrow> loaded (snd h') = view (fst h)"
    using res(4) x(2) by (cases x) auto
qed

text \<open>The hypotheses of a run, together.\<close>

definition rotation_setting ::
    "'s admin_env \<Rightarrow> DeploymentConfig \<Rightarrow> ('s \<Rightarrow> u8 list option) \<Rightarrow> ('s \<Rightarrow> u8 list option \<times> u8 list option \<times> u8 list option) \<Rightarrow> bool" where
  "rotation_setting E cfg running advertised \<longleftrightarrow> admin_ok E cfg running \<and> sub_ok E cfg advertised \<and> units_available E"

lemma rotation_services:
  assumes "rotation_setting E cfg running advertised"
  shows "units_available E" "service_ok (ae_systemd E) (sm_service_name service_manager_default) (file_content (singbox_config_file cfg)) running"
    "service_ok (ae_systemd E) (sm_service_name sub_mgr) (sub_view cfg) advertised"
    "sm_service_name sub_mgr \<noteq> sm_service_name service_manager_default"
  using assms
  by (simp_all add: rotation_setting_def admin_ok_def systemd_ok_def sub_ok_def service_manager_default_def sub_mgr_def service_manager_def)

text \<open>Where the configuration to go back to is: still in place, or in the backup of the configuration that replaced it.\<close>

definition config_restorable :: "DeploymentConfig \<Rightarrow> bool \<Rightarrow> u8 list \<Rightarrow> world \<Rightarrow> bool" where
  "config_restorable cfg applied old w \<longleftrightarrow>
     (if applied then \<exists>m b k. holds_data old m (w_fs w (config_backup_path (singbox_config_file cfg))) \<and>
        holds_data b k (w_fs w (singbox_config_file cfg))
      else file_content (singbox_config_file cfg) w = Some old)"

lemma config_restorable_cong:
  assumes "config_restorable cfg applied old w" "w_fs w' (singbox_config_file cfg) = w_fs w (singbox_config_file cfg)"
    "w_fs w' (config_backup_path (singbox_config_file cfg)) = w_fs w (config_backup_path (singbox_config_file cfg))"
  shows "config_restorable cfg applied old w'"
  using assms unfolding config_restorable_def file_content_def by (simp split: if_splits)

lemma config_goes_back:
  assumes "w_faults (fst h1) = []" "config_restorable cfg applied old (fst h1)"
  shows "\<exists>h2. (if applied then disk (restore_config_backup (singbox_config_file cfg)) else return_io True) h1 = (Inr True :: 'e + bool, h2) \<and>
    snd h2 = snd h1 \<and> file_content (singbox_config_file cfg) (fst h2) = Some old \<and>
    (\<forall>q. q \<noteq> singbox_config_file cfg \<longrightarrow> w_fs (fst h2) q = w_fs (fst h1) q)"
proof (cases applied)
  case True
  with assms(2) obtain m b k where "holds_data old m (w_fs (fst h1) (config_backup_path (singbox_config_file cfg)))"
      "holds_data b k (w_fs (fst h1) (singbox_config_file cfg))"
    by (auto simp: config_restorable_def)
  from restore_config_calm [OF assms(1) this target_nonempty] obtain w m where
    "restore_config_backup (singbox_config_file cfg) (fst h1) = (Inr True :: 'e + bool, w)"
    "holds_data old m (w_fs w (singbox_config_file cfg))" "\<forall>q. q \<noteq> singbox_config_file cfg \<longrightarrow> w_fs w q = w_fs (fst h1) q"
    by blast
  with True show ?thesis
    by (intro exI [of _ "(w, snd h1)"]) (auto simp: disk_def file_content_def holds_data_content)
next
  case False
  with assms show ?thesis
    by (intro exI [of _ h1]) (simp add: return_io_def config_restorable_def)
qed

lemma transactable_target: "transactable cfg ps \<Longrightarrow> p \<in> set ps \<Longrightarrow> p \<noteq> singbox_config_file cfg"
  unfolding transactable_def txn_paths_def using service_paths_known(1) by blast

lemma rollback_result:
  assumes set: "rotation_setting E cfg running advertised" and ps: "transactable cfg ps"
    and mid: "mid_transaction cfg ps w0 (fst h)" "config_restorable cfg applied old (fst h)"
    and run: "rotate_rollback E cfg (existing w0 ps) applied stage h = (r, h')"
  shows "\<exists>e. r = Inl e \<and> rolled_back cfg running advertised ps w0 old e h'"
proof -
  note sv = rotation_services [OF set]
  let ?t = "singbox_config_file cfg" and ?sb = service_manager_default
  obtain u h1 where h1: "disk (undo_files (existing w0 ps)) h = (u :: admin_error + bool, h1)"
    by (metis surj_pair)
  note undo = undo_mid [OF ps mid(1) h1]
  have conf: "config_restorable cfg applied old (fst h1)"
    using mid(2) by (rule config_restorable_cong) (simp_all add: undo(6))
  obtain h2 where h2: "(if applied then disk (restore_config_backup ?t) else return_io True) h1 = (Inr True :: admin_error + bool, h2)"
      "snd h2 = snd h1" "file_content ?t (fst h2) = Some old" "\<And>q. q \<noteq> ?t \<Longrightarrow> w_fs (fst h2) q = w_fs (fst h1) q"
    using config_goes_back [OF undo(2) conf] by blast
  obtain sb h3 where h3: "service_recovered E ?sb h2 = (Inr sb :: admin_error + bool, h3)"
    using recovered_result(2) [OF sv(1) _ sv(2)] by (metis insertCI surj_pair)
  obtain sub h4 where h4: "service_recovered E sub_mgr h3 = (Inr sub :: admin_error + bool, h4)"
    using recovered_result(2) [OF sv(1) _ sv(3)] by (metis insertCI surj_pair)
  have disk: "fst h4 = fst h2" "fst h3 = fst h2"
    using recovered_result(1) [OF sv(1) _ sv(2) h3] recovered_result(1) [OF sv(1) _ sv(3) h4] by auto
  have run_sb: "running (snd h4) = Some old" if sb
    using recovered_result(4) [OF sv(1) _ sv(2) h3] recovered_result(3) [OF sv(1) _ sv(2) h4] sv(4) that h2(3)
    by (auto simp: same_running_def)
  have "w_fs (fst h2) p = w_fs w0 p" if "p \<in> set ps" for p
    using undo(3) [OF that] h2(4) [OF transactable_target [OF ps that]] by simp
  moreover have "sub_view cfg (fst h2) = sub_view cfg w0"
    using undo(5) h2(4) by (simp add: sub_view_def file_content_def reality_public_key_file_def short_id_file_def
        hysteria_obfs_password_file_def reality_dir_def singbox_config_file_def)
  moreover have "advertised (snd h4) = sub_view cfg (fst h2)" if sub
    using recovered_result(4) [OF sv(1) _ sv(3) h4] that disk by simp
  moreover have "r = Inl (RotationFailed stage True sb sub)" "h' = h4"
    using run h1 undo(1) h2(1) h3 h4 by (simp_all add: rotate_rollback_def bind_io_def fail_io_def)
  ultimately show ?thesis
    using run_sb h2(3) disk unfolding rolled_back_def by (intro exI [of _ "RotationFailed stage True sb sub"]) auto
qed

text \<open>The configuration and the services, once the files are installed.\<close>

lemma faultless_validate [faultless_intros]: "faultless (SingBoxBackend_validate c p)"
  by (auto simp: faultless_def SingBoxBackend_validate_def split: sum.splits prod.splits)

lemma faultless_apply [faultless_intros]:
  "faultless (apply_config_atomically to_vec dbg doc target (SingBoxBackend_validate c))"
  unfolding apply_config_atomically_def fsync_parent_dir_def fs_copy_def Let_def
  by (auto intro!: faultless_intros split: sum.split option.split)

lemma mid_step:
  assumes "transactable cfg ps" "mid_transaction cfg ps w0 w" "frame (service_paths cfg) m" "faultless m" "m w = (r, w')"
  shows "mid_transaction cfg ps w0 w'" "p \<in> set ps \<Longrightarrow> w_fs w' p = w_fs w p"
proof -
  have apart: "\<forall>p\<in>set ps. {p, rotate_backup_path p, butlast p} \<inter> service_paths cfg = {}"
    using assms(1) unfolding transactable_def txn_paths_def by blast
  have same: "w_fs w' q = w_fs w q" if "q \<notin> service_paths cfg" for q
    by (rule frame_step [OF assms(3,5) that])
  have "in_transaction ps w0 w'"
    using transaction_step [OF assms(3-5) _ apart] assms(2) by (simp add: mid_transaction_def)
  then show "mid_transaction cfg ps w0 w'"
    using assms(2) same by (simp add: mid_transaction_def)
  show "p \<in> set ps \<Longrightarrow> w_fs w' p = w_fs w p"
    using apart same by blast
qed

text \<open>The new state of things, while the backups are still there.\<close>

definition taken_over ::
    "'s admin_env \<Rightarrow> DeploymentConfig \<Rightarrow> ('s \<Rightarrow> u8 list option) \<Rightarrow> ('s \<Rightarrow> u8 list option \<times> u8 list option \<times> u8 list option) \<Rightarrow>
     path list \<Rightarrow> world \<Rightarrow> u8 list \<Rightarrow> Value \<Rightarrow> 's host \<Rightarrow> 's host \<Rightarrow> bool" where
  "taken_over E cfg running advertised ps w0 old doc h h' \<longleftrightarrow>
     mid_transaction cfg ps w0 (fst h') \<and> (\<forall>p\<in>set ps. w_fs (fst h') p = w_fs (fst h) p) \<and>
     config_restorable cfg True old (fst h') \<and> installed E cfg running doc h' \<and> advertised (snd h') = sub_view cfg (fst h')"

lemma rotate_services_result:
  assumes set: "rotation_setting E cfg running advertised" and ps: "transactable cfg ps"
    and mid: "mid_transaction cfg ps w0 (fst h)" and old: "w_fs (fst h) (singbox_config_file cfg) = Some n"
    and run: "rotate_services E cfg (existing w0 ps) doc h = (r, h')"
  shows "(\<exists>e. r = Inl e \<and> rolled_back cfg running advertised ps w0 (i_content n) e h') \<or>
    r = Inr True \<and> taken_over E cfg running advertised ps w0 (i_content n) doc h h'"
proof -
  note sv = rotation_services [OF set]
  let ?t = "singbox_config_file cfg" and ?sb = service_manager_default
  have calm: "w_faults (fst h) = []"
    using mid by (simp add: mid_transaction_def in_transaction_def)
  obtain ar w1 where w1: "SingBoxBackend_apply (ae_to_vec_pretty E) (ae_dbg E) (ae_check E) doc ?t (fst h) = (ar, w1)"
    by (metis surj_pair)
  note step = mid_step [OF ps mid frame_apply_config faultless_apply w1 [unfolded SingBoxBackend_apply_def]]
  show ?thesis
  proof (cases ar)
    case (Inl e)
    with run w1 have run': "rotate_rollback E cfg (existing w0 ps) False ApplyConfig (w1, snd h) = (r, h')"
      by (simp add: rotate_services_def Let_def try_io_def disk_def SingBoxBackend_apply_def)
    have "config_restorable cfg False (i_content n) (fst (w1, snd h))"
      using apply_keeps_on_error [OF target_nonempty, unfolded keeps_on_error_def, rule_format, OF w1 [unfolded Inl]] old
      by (simp add: config_restorable_def file_content_def)
    with rollback_result [OF set ps _ _ run'] step(1) show ?thesis
      by auto
  next
    case (Inr u)
    then have w1': "SingBoxBackend_apply (ae_to_vec_pretty E) (ae_dbg E) (ae_check E) doc ?t (fst h) = (Inr (), w1)"
      using w1 by simp
    obtain b m msg where b: "ae_to_vec_pretty E doc = Inr b" "ae_check E (Some b) = Inr (True, msg)" "holds_data b m (w_fs w1 ?t)"
      using apply_installs_validated [OF w1'] target_nonempty by auto
    have conf: "config_restorable cfg True (i_content n) w1"
      using apply_keeps_backup [OF w1' target_nonempty calm old] b(3) by (auto simp: config_restorable_def)
    obtain r2 h2 where h2: "reload_if_available E ?sb (w1, snd h) = (r2, h2)"
      by (metis surj_pair)
    obtain r3 h3 where h3: "reload_if_available E sub_mgr h2 = (r3, h3)"
      by (metis surj_pair)
    have restored: "\<exists>e. r = Inl e \<and> rolled_back cfg running advertised ps w0 (i_content n) e h'"
      if "rotate_rollback E cfg (existing w0 ps) True stage k = (r, h')" "fst k = w1" for stage k
      using rollback_result [OF set ps _ _ that(1)] that(2) step(1) conf by auto
    note sb = reload_if_available_result [OF sv(1) _ sv(2) h2] and sub = reload_if_available_result [OF sv(1) _ sv(3) h3]
      and keep = reload_if_available_result(3) [OF sv(1) _ sv(2) h3]
    show ?thesis
    proof (cases "\<exists>x y. r2 = Inr x \<and> r3 = Inr y")
      case False
      then show ?thesis
        using run w1' h2 h3 sb(1) sub(1) restored [of ReloadSingBox h2] restored [of RestartSubscription h3]
        by (cases r2; cases r3) (auto simp: rotate_services_def Let_def try_io_def disk_def SingBoxBackend_apply_def)
    next
      case True
      then have "r2 = Inr True" "r3 = Inr True"
        using sb(2) sub(2) by auto
      then have res: "r = Inr True" "h' = h3"
        using run w1' h2 h3
        by (simp_all add: rotate_services_def Let_def try_io_def disk_def SingBoxBackend_apply_def return_io_def)
      have disk: "fst h3 = w1"
        using sb(1) sub(1) by simp
      have "running (snd h3) = Some b"
        using sb(4) keep \<open>r2 = Inr True\<close> sv(4) b(3) by (simp add: same_running_def file_content_def holds_data_content)
      then have "installed E cfg running doc h3"
        using b disk by (auto simp: installed_def live_bytes_def)
      moreover have "advertised (snd h3) = sub_view cfg (fst h3)"
        using sub(4) \<open>r3 = Inr True\<close> disk sb(1) by simp
      ultimately show ?thesis
        using res step conf disk by (simp add: taken_over_def)
    qed
  qed
qed

text \<open>The files themselves, and the self-test.\<close>

lemma install_mid:
  assumes "transactable cfg ps" "mid_transaction cfg ps w0 w" "p \<in> set ps" "install_rotated_key_file E p contents w = (r, w')"
  shows "mid_transaction cfg ps w0 w'" "q \<in> service_paths cfg \<union> set ps - {p} \<Longrightarrow> w_fs w' q = w_fs w q"
proof -
  let ?tmp = "path_suffix p ''.rotate-tmp''"
  have same: "w_fs w' q = w_fs w q" if "q \<notin> {p, ?tmp}" for q
    by (rule frame_step [OF frame_install assms(4) that]) simp_all
  have used: "p \<in> txn_paths ps" "?tmp \<in> txn_paths ps"
    using assms(3) by (simp_all add: txn_paths_def)
  have "in_transaction ps w0 w'"
    using install_in_transaction [OF _ _ assms(3,4)] assms(1,2) by (simp add: transactable_def mid_transaction_def)
  then show "mid_transaction cfg ps w0 w'"
    using assms(2) same used unfolding mid_transaction_def by (metis empty_iff insertE)
  have "?tmp \<notin> set ps" "p \<notin> service_paths cfg" "?tmp \<notin> service_paths cfg"
    using assms(1,3) used by (auto simp: transactable_def apart_def)
  then show "q \<in> service_paths cfg \<union> set ps - {p} \<Longrightarrow> w_fs w' q = w_fs w q"
    using same by blast
qed

definition holds_keys :: "(path \<times> string \<times> rotate_stage) list \<Rightarrow> world \<Rightarrow> bool" where
  "holds_keys items w \<longleftrightarrow> (\<forall>(p, contents, _)\<in>set items. file_content p w = Some (as_bytes contents))"

lemma install_keys_result:
  assumes "transactable cfg ps" "mid_transaction cfg ps w0 w" "set (map fst items) \<subseteq> set ps" "distinct (map fst items)"
    and "install_keys E items w = (r, w')"
  shows "mid_transaction cfg ps w0 w'" "\<And>q. q \<in> service_paths cfg \<union> set ps - set (map fst items) \<Longrightarrow> w_fs w' q = w_fs w q"
    "r = Inr () \<Longrightarrow> holds_keys items w'"
proof -
  have "mid_transaction cfg ps w0 w' \<and> (\<forall>q\<in>service_paths cfg \<union> set ps - set (map fst items). w_fs w' q = w_fs w q) \<and>
      (r = Inr () \<longrightarrow> holds_keys items w')"
    using assms(2-5)
  proof (induction items arbitrary: w)
    case Nil
    then show ?case
      by (simp add: return_io_def holds_keys_def)
  next
    case (Cons item items)
    obtain p contents stage where item: "item = (p, contents, stage)"
      by (metis surj_pair)
    obtain r1 w1 where w1: "install_rotated_key_file E p contents w = (r1, w1)"
      by (metis surj_pair)
    have p: "p \<in> set ps" "p \<notin> set (map fst items)" "p \<noteq> []"
      using Cons.prems(2,3) item assms(1) by (auto simp: transactable_def apart_def)
    note step = install_mid [OF assms(1) Cons.prems(1) p(1) w1]
    show ?case
    proof (cases r1)
      case (Inl e)
      with Cons.prems(4) w1 item have "w' = w1" "r = Inl stage"
        by (simp_all add: bind_io_def map_err_io_def)
      with step item show ?thesis
        by simp
    next
      case (Inr u)
      with Cons.prems(4) w1 item have rest: "install_keys E items w1 = (r, w')"
        by (simp add: bind_io_def map_err_io_def)
      note rec = Cons.IH [OF step(1) _ _ rest]
      have "file_content p w1 = Some (as_bytes contents)"
        using install_succeeds [of E p contents w w1] p(3) w1 Inr unfolding file_content_def by (metis holds_data_content old.unit.exhaust)
      moreover have "w_fs w' p = w_fs w1 p"
        using rec Cons.prems(2,3) p by auto
      ultimately show ?thesis
        using rec step(2) Cons.prems(2,3) item by (auto simp: holds_keys_def file_content_def)
    qed
  qed
  then show "mid_transaction cfg ps w0 w'" "\<And>q. q \<in> service_paths cfg \<union> set ps - set (map fst items) \<Longrightarrow> w_fs w' q = w_fs w q"
    "r = Inr () \<Longrightarrow> holds_keys items w'"
    by blast+
qed

lemma verify_calm:
  fixes r :: "'e + HandshakeVerification"
  assumes "rotation_setting E cfg running advertised" "w_faults (fst h) = []"
    and "verify_reality_handshake_or_warn E cfg users re p h = (r, h')"
  shows "\<exists>v. r = Inr v" "fst h' = fst h" "same_running running h h'" "same_running advertised h h'"
proof -
  have client: "running (snd (ae_client E c w s)) = running s" "advertised (snd (ae_client E c w s)) = advertised s" for c w s
    using assms(1) by (simp_all add: rotation_setting_def admin_ok_def sub_ok_def)
  have "(\<exists>v. r = Inr v) \<and> fst h' = fst h \<and> running (snd h') = running (snd h) \<and> advertised (snd h') = advertised (snd h)"
    using assms(2,3) client
    by (auto simp: verify_reality_handshake_or_warn_def bind_io_def disk_def path_exists_calm return_io_def get_world_def try_io_def
        run_reality_client_selftest_def split_beta split: if_splits option.splits)
  then show "\<exists>v. r = Inr v" "fst h' = fst h" "same_running running h h'" "same_running advertised h h'"
    by (simp_all add: same_running_def)
qed

text \<open>Forgetting the backups ends the transaction.\<close>

lemma remove_all_total: "\<exists>w'. remove_all ps w = (Inr () :: 'e + unit, w')"
proof (induction ps arbitrary: w)
  case (Cons p ps)
  then show ?case
    by (auto simp: bind_io_def ignore_io_def split: prod.splits)
qed (simp add: return_io_def)

lemma forget_backups:
  fixes r :: "'e + unit"
  assumes "transactable cfg ps" "remove_all (map rotate_backup_path ps) w = (r, w')"
  shows "r = Inr ()" "\<And>p. p \<in> set ps \<union> service_paths cfg \<Longrightarrow> w_fs w' p = w_fs w p" "sub_view cfg w' = sub_view cfg w"
proof -
  show "r = Inr ()"
    using assms(2) remove_all_total [of "map rotate_backup_path ps" w, where ?'e = 'e] by auto
  have same: "w_fs w' q = w_fs w q" if "q \<notin> rotate_backup_path ` set ps" for q
    by (rule frame_step [OF frame_remove_all assms(2) that]) simp
  have "rotate_backup_path ` set ps \<inter> (set ps \<union> service_paths cfg) = {}"
    using assms(1) by (auto simp: transactable_def txn_paths_def apart_def)
  then show *: "\<And>p. p \<in> set ps \<union> service_paths cfg \<Longrightarrow> w_fs w' p = w_fs w p"
    using same by blast
  have "w_fs w' p = w_fs w p" if "p \<in> {reality_public_key_file cfg, short_id_file cfg, hysteria_obfs_password_file cfg}" for p
  proof (cases "p \<in> set ps")
    case False
    with assms(1) that have "p \<notin> txn_paths ps"
      by (auto simp: transactable_def)
    then show ?thesis
      using same by (simp add: txn_paths_def)
  qed (use * in simp)
  then show "sub_view cfg w' = sub_view cfg w"
    by (simp add: sub_view_def file_content_def)
qed

subsection \<open>Replacing the keys\<close>

lemmas key_paths = reality_private_key_file_def reality_public_key_file_def short_id_file_def hysteria_obfs_password_file_def

lemma reality_dir_apart: "reality_dir cfg \<notin> service_paths cfg" "reality_dir cfg @ [n] \<notin> service_paths cfg"
  by (auto simp: reality_dir_def service_paths_def service_dir_def prefix_append)

lemma path_suffix_app: "path_suffix (d @ [n]) s = d @ [n @ s]"
  by (simp add: path_suffix_def)

lemma keyset_transactable: "transactable cfg (keyset_files cfg)"
  unfolding transactable_def apart_def txn_paths_def keyset_files_def key_paths rotate_backup_path_def
  by (simp add: path_suffix_app reality_dir_apart inj_on_def)

text \<open>The new keys are in place: they are in their files, the server runs the configuration rendered with them, and the
  subscription service advertises what is in the files.\<close>

definition keys_live ::
    "'s admin_env \<Rightarrow> DeploymentConfig \<Rightarrow> ('s \<Rightarrow> u8 list option) \<Rightarrow> ('s \<Rightarrow> u8 list option \<times> u8 list option \<times> u8 list option) \<Rightarrow>
     string \<times> string \<times> string \<Rightarrow> Value \<Rightarrow> 's host \<Rightarrow> bool" where
  "keys_live E cfg running advertised keys doc h \<longleftrightarrow>
     holds_keys (keyset_contents cfg keys) (fst h) \<and> installed E cfg running doc h \<and> advertised (snd h) = sub_view cfg (fst h)"

lemma keyset_items: "map fst (keyset_contents cfg keys) = keyset_files cfg"
  by (simp add: keyset_contents_def keyset_files_def split: prod.split)

lemma existing_files: "map fst (existing w ps) = ps"
  by (simp add: existing_def)

lemma holds_keys_cong:
  assumes "holds_keys (keyset_contents cfg keys) w" "\<And>p. p \<in> set (keyset_files cfg) \<Longrightarrow> w_fs w' p = w_fs w p"
  shows "holds_keys (keyset_contents cfg keys) w'"
proof -
  have "p \<in> set (keyset_files cfg)" if "(p, c, st) \<in> set (keyset_contents cfg keys)" for p c st
    using that keyset_items [of cfg keys] by (metis fst_conv image_eqI set_map)
  then show ?thesis
    using assms by (fastforce simp: holds_keys_def file_content_def)
qed

text \<open>The end of the transaction: the self-test speaks against the new keys, or the backups go.\<close>

lemma keyset_verdict:
  assumes set: "rotation_setting E cfg running advertised"
    and over: "taken_over E cfg running advertised (keyset_files cfg) w0 old doc h0 h" "holds_keys (keyset_contents cfg keys) (fst h)"
    and run: "bind_io (verify_reality_handshake_or_warn E cfg users re p) (\<lambda>verified.
        if verified = Ran HandshakeRejected then rotate_rollback E cfg (existing w0 (keyset_files cfg)) True HandshakeTest
        else bind_io (disk (remove_all (map rotate_backup_path (keyset_files cfg)))) (\<lambda>_. return_io True)) h = (r, h')"
  shows "(\<exists>e. r = Inl e \<and> rolled_back cfg running advertised (keyset_files cfg) w0 old e h') \<or>
    r = Inr True \<and> keys_live E cfg running advertised keys doc h'"
proof -
  let ?ps = "keyset_files cfg"
  note over = over(1) [unfolded taken_over_def] over(2)
  obtain r1 h1 where h1: "verify_reality_handshake_or_warn E cfg users re p h = (r1 :: admin_error + _, h1)"
    by (metis surj_pair)
  have "w_faults (fst h) = []"
    using over by (simp add: mid_transaction_def in_transaction_def)
  note ver = verify_calm [OF set this h1]
  then obtain v where v: "r1 = Inr v"
    by blast
  show ?thesis
  proof (cases "v = Ran HandshakeRejected")
    case True
    with run h1 v have "rotate_rollback E cfg (existing w0 ?ps) True HandshakeTest h1 = (r, h')"
      by (simp add: bind_io_def)
    from rollback_result [OF set keyset_transactable _ _ this] over ver(2) show ?thesis
      by auto
  next
    case False
    obtain r2 w2 where w2: "remove_all (map rotate_backup_path ?ps) (fst h1) = (r2 :: admin_error + unit, w2)"
      by (metis surj_pair)
    note forget = forget_backups [OF keyset_transactable w2]
    have res: "r = Inr True" "h' = (w2, snd h1)"
      using run h1 v False w2 forget(1) by (auto simp: disk_def bind_io_def return_io_def)
    have "holds_keys (keyset_contents cfg keys) w2"
      using over(2) by (rule holds_keys_cong) (simp add: forget(2) ver(2))
    moreover have "installed E cfg running doc (w2, snd h1)"
      using over(1) ver(2,3) forget(2) by (simp add: installed_def live_bytes_def same_running_def)
    ultimately show ?thesis
      using res over(1) ver(2,4) forget(3) by (simp add: keys_live_def same_running_def)
  qed
qed

lemma rotate_keyset_result:
  assumes set: "rotation_setting E cfg running advertised"
    and mid: "mid_transaction cfg (keyset_files cfg) w0 (fst h)" and old: "w_fs (fst h) (singbox_config_file cfg) = Some n"
    and run: "rotate_keyset E cfg users keys doc (existing w0 (keyset_files cfg)) h = (r, h')"
  shows "(\<exists>e. r = Inl e \<and> rolled_back cfg running advertised (keyset_files cfg) w0 (i_content n) e h') \<or>
    r = Inr True \<and> keys_live E cfg running advertised keys doc h'"
proof -
  let ?ps = "keyset_files cfg" and ?items = "keyset_contents cfg keys"
  obtain r1 w1 where w1: "install_keys E ?items (fst h) = (r1, w1)"
    by (metis surj_pair)
  have items: "set (map fst ?items) \<subseteq> set ?ps" "distinct (map fst ?items)"
    using keyset_transactable by (simp_all add: keyset_items transactable_def apart_def)
  note inst = install_keys_result [OF keyset_transactable mid items w1]
  have old1: "w_fs w1 (singbox_config_file cfg) = Some n"
    using inst(2) [of "singbox_config_file cfg"] old transactable_target [OF keyset_transactable] by (auto simp: keyset_items)
  show ?thesis
  proof (cases r1)
    case (Inl stage)
    with run w1 have "rotate_rollback E cfg (existing w0 ?ps) False stage (w1, snd h) = (r, h')"
      by (simp add: rotate_keyset_def try_io_def disk_def)
    with rollback_result [OF set keyset_transactable _ _ this] inst(1) old1 show ?thesis
      by (auto simp: config_restorable_def file_content_def)
  next
    case (Inr u)
    obtain r2 h2 where h2: "rotate_services E cfg (existing w0 ?ps) doc (w1, snd h) = (r2, h2)"
      by (metis surj_pair)
    from rotate_services_result [OF set keyset_transactable _ _ h2] inst(1) old1
    consider e where "r2 = Inl e" "rolled_back cfg running advertised ?ps w0 (i_content n) e h2"
      | "r2 = Inr True" "taken_over E cfg running advertised ?ps w0 (i_content n) doc (w1, snd h) h2"
      by auto
    then show ?thesis
    proof cases
      case 1
      with run w1 Inr h2 show ?thesis
        by (auto simp: rotate_keyset_def try_io_def disk_def bind_io_def)
    next
      case 2
      have "holds_keys ?items (fst h2)"
        using inst(3) Inr 2(2) by (auto simp: taken_over_def intro: holds_keys_cong)
      moreover have "bind_io (verify_reality_handshake_or_warn E cfg users (candidate_reality cfg keys) (rl_listen_port (dc_reality cfg)))
          (\<lambda>verified. if verified = Ran HandshakeRejected then rotate_rollback E cfg (existing w0 ?ps) True HandshakeTest
            else bind_io (disk (remove_all (map rotate_backup_path ?ps))) (\<lambda>_. return_io True)) h2 = (r, h')"
        using run w1 Inr h2 2(1) unfolding rotate_keyset_def existing_files
        by (simp add: try_io_def disk_def bind_io_def [of "rotate_services _ _ _ _"])
      ultimately show ?thesis
        using keyset_verdict [OF set 2(2)] by blast
    qed
  qed
qed

text \<open>Up to the candidate's validation nothing that lives is touched.\<close>

definition unharmed ::
    "DeploymentConfig \<Rightarrow> ('s \<Rightarrow> u8 list option) \<Rightarrow> ('s \<Rightarrow> u8 list option \<times> u8 list option \<times> u8 list option) \<Rightarrow>
     's host \<Rightarrow> 's host \<Rightarrow> bool" where
  "unharmed cfg running advertised h h' \<longleftrightarrow>
     same_files (service_paths cfg - {singbox_config_file cfg}) h h' \<and> (w_faults (fst h) = [] \<longrightarrow> w_faults (fst h') = []) \<and>
     same_running running h h' \<and> same_running advertised h h'"

lemma unharmed_pre_order [steady_intros]: "pre_order (unharmed cfg running advertised)"
  by (simp add: pre_order_def unharmed_def same_running_def same_files_def)

lemma disk_unharmed:
  fixes running :: "'s \<Rightarrow> _"
  assumes "frame (service_paths cfg - {singbox_config_file cfg}) m" "faultless m"
  shows "steady (unharmed cfg running advertised) (disk m)"
  unfolding steady_def
proof
  fix h :: "'s host"
  have "w_faults (fst h) = [] \<Longrightarrow> w_faults (snd (m (fst h))) = []"
    using assms(2) by (simp add: faultless_def)
  moreover have "same_files (service_paths cfg - {singbox_config_file cfg}) h (snd (disk m h))"
    using disk_same_files [OF assms(1)] unfolding steady_def by blast
  ultimately show "unharmed cfg running advertised h (snd (disk m h))"
    by (simp add: unharmed_def disk_def same_running_def split_beta)
qed

lemma observers_unharmed:
  assumes "rotation_setting E cfg running advertised"
  shows "steady (unharmed cfg running advertised) (service_available (ae_systemd E) mgr :: _ \<Rightarrow> ('e + bool) \<times> _)"
  unfolding steady_def
proof
  fix h
  obtain r h' where h': "service_available (ae_systemd E) mgr h = (r :: 'e + bool, h')"
    by (metis surj_pair)
  note sv = rotation_services [OF assms]
  from service_available_same [OF sv(2) h'] service_available_same [OF sv(3) h']
  show "unharmed cfg running advertised h (snd (service_available (ae_systemd E) mgr h :: ('e + bool) \<times> _))"
    using h' by (simp add: unharmed_def same_files_def)
qed

lemma frame_stage [frame_intros]:
  assumes "p \<in> S" "set (prefixes (butlast p)) \<subseteq> S"
  shows "frame S (write_config_for_validation E p doc)"
  unfolding write_config_for_validation_def path_parent_def using assms by (auto intro!: frame_intros)

lemma frame_validate_candidate:
  assumes "with_extension (singbox_config_file cfg) ext \<in> S" "set (prefixes (service_dir cfg)) \<subseteq> S"
  shows "frame S (validate_candidate E cfg ext doc)"
proof -
  have "butlast (with_extension (singbox_config_file cfg) ext) = service_dir cfg"
    by (simp add: with_extension_def config_file_service)
  then show ?thesis
    unfolding validate_candidate_def Let_def using assms by (auto intro!: frame_intros split: sum.split)
qed

lemma faultless_validate_candidate [faultless_intros]: "faultless (validate_candidate E cfg ext doc)"
  unfolding validate_candidate_def write_config_for_validation_def Let_def
  by (auto intro!: faultless_intros split: sum.split option.split)

lemma validate_candidate_unharmed:
  assumes "ext \<noteq> ''json''"
  shows "steady (unharmed cfg running advertised) (disk (validate_candidate E cfg ext doc))"
proof (intro disk_unharmed frame_validate_candidate faultless_intros)
  show "with_extension (singbox_config_file cfg) ext \<in> service_paths cfg - {singbox_config_file cfg}"
    using assms by (simp add: config_file_service with_extension_def file_stem_def service_path)
  show "set (prefixes (service_dir cfg)) \<subseteq> service_paths cfg - {singbox_config_file cfg}"
    by (auto simp: service_paths_def config_file_service)
qed

lemma faultless_loads [faultless_intros]: "faultless (load_users J p)" "faultless (load_hysteria_params E cfg)" "faultless (load_reality_params E cfg)"
  unfolding load_users_def load_hysteria_params_def load_reality_params_def Let_def
  by (auto intro!: faultless_intros split: sum.split)

lemma frame_load_users [frame_intros]: "frame S (load_users J p)"
  unfolding load_users_def by (auto intro!: frame_intros)

lemma candidate_unharmed:
  assumes "rotation_setting E cfg running advertised"
  shows "steady (unharmed cfg running advertised) (rotate_candidate E cfg random4)"
  unfolding rotate_candidate_def require_services_def Let_def
  by (auto intro!: steady_intros disk_unharmed frame_intros faultless_intros validate_candidate_unharmed observers_unharmed [OF assms])

definition candidate_doc ::
    "'s admin_env \<Rightarrow> DeploymentConfig \<Rightarrow> string \<times> string \<times> string \<Rightarrow> world \<Rightarrow> Value \<Rightarrow> bool" where
  "candidate_doc E cfg keys w doc \<longleftrightarrow>
     (\<exists>users hysteria w1 w2. load_users (ae_users_json E) (users_file cfg) w = (Inr users, w1) \<and>
        load_hysteria_params E cfg w1 = (Inr hysteria :: admin_error + _, w2) \<and>
        doc = render_singbox_server_config users (candidate_reality cfg keys) hysteria (server_ports cfg) (sint (w_unix_time w)))"

definition before_rotation :: "admin_error \<Rightarrow> bool" where
  "before_rotation e \<longleftrightarrow> (case e of RotationFailed _ _ _ _ \<Rightarrow> False | _ \<Rightarrow> True)"

lemma early_errors:
  "generate_reality_keypair E random4 = Inl e \<Longrightarrow> before_rotation e"
  "validate_candidate E cfg ext doc w = (Inl e, w') \<Longrightarrow> before_rotation e"
  by (auto simp: generate_reality_keypair_def validate_candidate_def Let_def bind_r_def map_err_def ok_or_def try_io_def bind_io_def
      fail_io_def lift_r_def ignore_io_def before_rotation_def split: sum.splits prod.splits if_splits option.splits)

lemma require_services_fails:
  assumes "require_services E h = (Inl e, h')"
  shows "before_rotation e"
proof -
  have total: "\<exists>b h'. service_available (ae_systemd E) mgr h = (Inr b :: admin_error + bool, h')" for mgr h
  proof -
    obtain b h1 where "is_available (ae_systemd E) h = (Inr b :: admin_error + bool, h1)"
      using observers_total(1) by blast
    moreover obtain b' h2 where "is_unit_installed (ae_systemd E) mgr h1 = (Inr b' :: admin_error + bool, h2)"
      using observers_total(2) by blast
    ultimately show ?thesis
      by (cases b) (auto simp: service_available_def bind_io_def return_io_def)
  qed
  obtain b1 h1 where "service_available (ae_systemd E) service_manager_default h = (Inr b1 :: admin_error + bool, h1)"
    using total by blast
  moreover obtain b2 h2 where "service_available (ae_systemd E) sub_mgr h1 = (Inr b2 :: admin_error + bool, h2)"
    using total by blast
  ultimately show ?thesis
    using assms by (auto simp: require_services_def bind_io_def return_io_def fail_io_def before_rotation_def split: if_splits)
qed

definition candidate_ok :: "'s admin_env \<Rightarrow> DeploymentConfig \<Rightarrow> u8 list \<Rightarrow> world \<Rightarrow>
    admin_error + CompatUser list \<times> (string \<times> string \<times> string) \<times> Value \<Rightarrow> bool" where
  "candidate_ok E cfg random4 w r \<longleftrightarrow>
     (case r of Inl e \<Rightarrow> before_rotation e
      | Inr (users, keys, doc) \<Rightarrow> generate_reality_keypair E random4 = Inr keys \<and> candidate_doc E cfg keys w doc)"

lemma candidate_checked:
  assumes calm: "w_faults (fst h) = []" "w_fs (fst h) (dc_singbox_binary cfg) \<noteq> None"
    and gen: "generate_reality_keypair E random4 = Inr keys"
    and w1: "load_users (ae_users_json E) (users_file cfg) (fst h) = (Inr users, w1)"
    and run: "rotate_candidate E cfg random4 h = (r, h')"
  shows "candidate_ok E cfg random4 (fst h) r"
proof -
  obtain hy w2 where w2: "load_hysteria_params E cfg w1 = (Inr hy :: admin_error + _, w2)"
    using load_hysteria_total by blast
  have now: "w_unix_time w2 = w_unix_time (fst h)"
    using w1 w2 frame_load_users [of "{}" "ae_users_json E" "users_file cfg"]
      frame_load_hysteria [of "{}" E cfg, where ?'a = admin_error] unfolding frame_def by (metis snd_conv)
  define doc where "doc = render_singbox_server_config users (candidate_reality cfg keys) hy (server_ports cfg) (sint (w_unix_time (fst h)))"
  obtain rv w3 where w3: "validate_candidate E cfg ''rotate-candidate.json'' doc w2 = (rv, w3)"
    by (metis surj_pair)
  obtain rs h4 where h4: "require_services E (w3, snd h) = (rs, h4)"
    by (metis surj_pair)
  have "r = (case rv of Inl e \<Rightarrow> Inl e | Inr _ \<Rightarrow> case rs of Inl e \<Rightarrow> Inl e | Inr _ \<Rightarrow> Inr (users, keys, doc))"
    using calm run gen w1 w2 w3 h4 now
    by (auto simp: rotate_candidate_def bind_io_def disk_def path_exists_calm lift_r_def map_err_io_def get_world_def Let_def
        doc_def return_io_def split: sum.splits)
  moreover have "candidate_doc E cfg keys (fst h) doc"
    using w1 w2 unfolding candidate_doc_def doc_def by blast
  ultimately show ?thesis
    using early_errors(2) w3 require_services_fails [of E "(w3, snd h)" _ h4] h4 gen by (auto simp: candidate_ok_def split: sum.splits)
qed

lemma candidate_result:
  assumes calm: "w_faults (fst h) = []" and run: "rotate_candidate E cfg random4 h = (r, h')"
  shows "candidate_ok E cfg random4 (fst h) r"
proof -
  obtain ru w1 where w1: "load_users (ae_users_json E) (users_file cfg) (fst h) = (ru, w1)"
    by (metis surj_pair)
  consider "w_fs (fst h) (dc_singbox_binary cfg) = None"
    | e where "w_fs (fst h) (dc_singbox_binary cfg) \<noteq> None" "generate_reality_keypair E random4 = Inl e"
    | keys e where "w_fs (fst h) (dc_singbox_binary cfg) \<noteq> None" "generate_reality_keypair E random4 = Inr keys" "ru = Inl e"
    | keys users where "w_fs (fst h) (dc_singbox_binary cfg) \<noteq> None" "generate_reality_keypair E random4 = Inr keys" "ru = Inr users"
    by (cases ru; cases "generate_reality_keypair E random4") blast+
  then show ?thesis
  proof cases
    case 1
    with calm run show ?thesis
      by (auto simp: rotate_candidate_def bind_io_def disk_def path_exists_calm fail_io_def before_rotation_def candidate_ok_def)
  next
    case 2
    with calm run early_errors(1) show ?thesis
      by (auto simp: rotate_candidate_def bind_io_def disk_def path_exists_calm lift_r_def candidate_ok_def)
  next
    case 3
    with calm run w1 show ?thesis
      by (auto simp: rotate_candidate_def bind_io_def disk_def path_exists_calm lift_r_def map_err_io_def before_rotation_def candidate_ok_def)
  next
    case 4
    with candidate_checked [OF calm _ _ _ run] w1 show ?thesis
      by blast
  qed
qed

lemma prepared:
  assumes "transactable cfg ps" "w_faults w = []" "prepare_backups ps [] w = (Inr existed, w')"
  shows "mid_transaction cfg ps w w'" "zip ps existed = existing w ps" "w_fs w' (singbox_config_file cfg) = w_fs w (singbox_config_file cfg)"
proof -
  have ps: "apart ps" "\<forall>p\<in>set ps. \<forall>q\<in>set ps. p \<noteq> rotate_backup_path q \<and> butlast p \<noteq> rotate_backup_path q"
    using assms(1) by (auto simp: transactable_def apart_def)
  note prep = prepare_calm [OF assms(2) ps(1) assms(3)]
  have same: "w_fs w' p = w_fs w p" "w_fs w' (butlast p) = w_fs w (butlast p)" if "p \<in> set ps" for p
    using ps(2) that by (auto intro!: prep(4))
  have "\<not> is_dir_at p w" if "p \<in> set ps" for p
    using prep(5) [OF that] by (cases "w_fs w p") (simp_all add: is_dir_at_def)
  then have "in_transaction ps w w'"
    using prep(1,3,5) same by (auto simp: in_transaction_def is_dir_at_def)
  moreover have "\<forall>q. q \<notin> txn_paths ps \<longrightarrow> w_fs w' q = w_fs w q"
    using prep(4) by (simp add: txn_paths_def)
  ultimately show "mid_transaction cfg ps w w'"
    by (simp add: mid_transaction_def)
  show "zip ps existed = existing w ps"
    using prep(2) by (simp add: existing_def)
  have "singbox_config_file cfg \<notin> txn_paths ps"
    using assms(1) service_paths_known(1) unfolding transactable_def by blast
  then show "w_fs w' (singbox_config_file cfg) = w_fs w (singbox_config_file cfg)"
    using prep(4) by (simp add: txn_paths_def)
qed

lemma prepare_fails: "prepare_backups ps prepared w = (Inl e, w') \<Longrightarrow> before_rotation e"
proof (induction ps prepared arbitrary: w rule: prepare_backups.induct)
  case (2 p ps prepared)
  obtain r w1 where "backup_for_rotate p w = (r, w1)"
    by (metis surj_pair)
  moreover obtain w2 where "remove_all prepared w1 = (Inr () :: admin_error + unit, w2)"
    using remove_all_total by blast
  ultimately show ?case
    using "2.prems" "2.IH" by (cases r) (auto simp: try_io_def bind_io_def fail_io_def return_io_def before_rotation_def split: sum.splits prod.splits)
qed (simp add: return_io_def)

lemma prepare_unharmed:
  assumes "disk (prepare_backups (keyset_files cfg) []) h = (r, h')"
  shows "\<forall>p\<in>set (keyset_files cfg). w_fs (fst h') p = w_fs (fst h) p"
    "w_fs (fst h') (singbox_config_file cfg) = w_fs (fst h) (singbox_config_file cfg)" "snd h' = snd h"
proof -
  obtain w where w: "prepare_backups (keyset_files cfg) [] (fst h) = (r, w)" "h' = (w, snd h)"
    using assms by (auto simp: disk_eq)
  have same: "w_fs w q = w_fs (fst h) q" if "q \<notin> rotate_backup_path ` set (keyset_files cfg)" for q
    by (rule prepare_frame [OF w(1) _ subset_refl that]) simp
  have "q \<notin> rotate_backup_path ` set (keyset_files cfg)" if "q \<in> set (keyset_files cfg) \<union> service_paths cfg" for q
    using that by (auto simp: keyset_files_def key_paths rotate_backup_path_def path_suffix_app reality_dir_apart)
  then show "\<forall>p\<in>set (keyset_files cfg). w_fs (fst h') p = w_fs (fst h) p"
    "w_fs (fst h') (singbox_config_file cfg) = w_fs (fst h) (singbox_config_file cfg)"
    using same w(2) by simp_all
  show "snd h' = snd h"
    using w(2) by simp
qed

text \<open>How the rotation can end: with the new keys everywhere, with everything back, or before anything was touched.\<close>

lemma unharmed_files:
  assumes "unharmed cfg running advertised h h'"
  shows "p \<in> set (keyset_files cfg) \<Longrightarrow> w_fs (fst h') p = w_fs (fst h) p" "sub_view cfg (fst h') = sub_view cfg (fst h)"
    "w_fs (fst h') (singbox_config_file cfg) = w_fs (fst h) (singbox_config_file cfg)"
    "running (snd h') = running (snd h)" "advertised (snd h') = advertised (snd h)" "w_faults (fst h) = [] \<Longrightarrow> w_faults (fst h') = []"
proof -
  have "w_fs (fst h') (reality_dir cfg @ [f]) = w_fs (fst h) (reality_dir cfg @ [f])" for f
    using assms by (simp add: unharmed_def same_files_def reality_dir_apart)
  then show "p \<in> set (keyset_files cfg) \<Longrightarrow> w_fs (fst h') p = w_fs (fst h) p" "sub_view cfg (fst h') = sub_view cfg (fst h)"
    by (auto simp: keyset_files_def key_paths sub_view_def file_content_def)
qed (use assms in \<open>simp_all add: unharmed_def same_files_def same_running_def\<close>)

lemma rotation_result:
  assumes set: "rotation_setting E cfg running advertised" and calm: "w_faults (fst h) = []"
    and old: "w_fs (fst h) (singbox_config_file cfg) = Some n" and run: "cmd_reality_rotate E cfg random4 h = (r, h')"
  shows "(\<exists>keys doc. r = Inr True \<and> generate_reality_keypair E random4 = Inr keys \<and> candidate_doc E cfg keys (fst h) doc \<and>
        keys_live E cfg running advertised keys doc h') \<or>
    (\<exists>e. r = Inl e \<and> rolled_back cfg running advertised (keyset_files cfg) (fst h) (i_content n) e h') \<or>
    (\<exists>e. r = Inl e \<and> before_rotation e \<and> (\<forall>p\<in>set (keyset_files cfg). w_fs (fst h') p = w_fs (fst h) p) \<and>
        w_fs (fst h') (singbox_config_file cfg) = Some n \<and> running (snd h') = running (snd h) \<and> advertised (snd h') = advertised (snd h))"
proof -
  obtain r1 h1 where h1: "rotate_candidate E cfg random4 h = (r1, h1)"
    by (metis surj_pair)
  note same = unharmed_files [OF steadyD [OF candidate_unharmed [OF set] h1]]
  note cand = candidate_result [OF calm h1]
  show ?thesis
  proof (cases r1)
    case (Inl e)
    with run h1 have "r = Inl e" "h' = h1"
      by (simp_all add: cmd_reality_rotate_def bind_io_def)
    with same cand Inl old show ?thesis
      by (simp add: candidate_ok_def)
  next
    case (Inr x)
    obtain users keys doc where x: "x = (users, keys, doc)"
      by (metis surj_pair)
    obtain r2 h2 where h2: "disk (prepare_backups (keyset_files cfg) []) h1 = (r2, h2)"
      by (metis surj_pair)
    note kept = prepare_unharmed [OF h2]
    show ?thesis
    proof (cases r2)
      case (Inl e)
      with run h1 Inr x h2 have "r = Inl e" "h' = h2"
        by (simp_all add: cmd_reality_rotate_def bind_io_def)
      moreover have "before_rotation e"
        using h2 Inl prepare_fails by (auto simp: disk_eq)
      ultimately show ?thesis
        using same kept old by simp
    next
      case (Inr existed)
      then have w2: "prepare_backups (keyset_files cfg) [] (fst h1) = (Inr existed, fst h2)"
        using h2 by (auto simp: disk_eq)
      note prep = prepared [OF keyset_transactable same(6) [OF calm] w2]
      have "rotate_keyset E cfg users keys doc (existing (fst h1) (keyset_files cfg)) h2 = (r, h')"
        using run h1 \<open>r1 = Inr x\<close> x h2 Inr prep(2) by (simp add: cmd_reality_rotate_def bind_io_def)
      from rotate_keyset_result [OF set prep(1) _ this] have
        "(\<exists>e. r = Inl e \<and> rolled_back cfg running advertised (keyset_files cfg) (fst h1) (i_content n) e h') \<or>
          r = Inr True \<and> keys_live E cfg running advertised keys doc h'"
        using prep(3) same(3) old by simp
      then show ?thesis
      proof
        assume "\<exists>e. r = Inl e \<and> rolled_back cfg running advertised (keyset_files cfg) (fst h1) (i_content n) e h'"
        then show ?thesis
          using same(1,2) by (simp add: rolled_back_def)
      next
        assume "r = Inr True \<and> keys_live E cfg running advertised keys doc h'"
        then show ?thesis
          using cand \<open>r1 = Inr x\<close> x by (auto simp: candidate_ok_def)
      qed
    qed
  qed
qed

lemma generated_coherent:
  "generate_reality_keypair E random4 = Inr (priv, pub, sid) \<Longrightarrow>
    validate_reality_keypair (ae_base64 E) (ae_mul_base E) priv pub = Inr ()"
  by (auto simp: generate_reality_keypair_def bind_r_def map_err_def ok_or_def split: sum.splits option.splits if_splits)

lemma keys_live_advertised:
  "keys_live E cfg running advertised (priv, pub, sid) doc h \<Longrightarrow>
    advertised (snd h) = (Some (as_bytes pub), Some (as_bytes sid), file_content (hysteria_obfs_password_file cfg) (fst h))"
  by (simp add: keys_live_def holds_keys_def keyset_contents_def sub_view_def)

subsection \<open>Properties\<close>

text \<open>C5. Rotating the REALITY keys is a transaction, on a disk that works and with both services under control. If it succeeds,
  a key pair whose halves belong together is in the key files, sing-box runs a configuration it accepted, rendered with these keys, and the
  subscription service hands out the same public key and short id. If it fails, at whatever step, the three key files are exactly what
  they were and the configuration file has its previous content; and when the failure came after the first change, every service reported
  as recovered again runs and advertises what it did before the rotation.\<close>

theorem reality_rotation_all_or_nothing:
  assumes "rotation_setting E cfg running advertised" and "w_faults (fst h) = []"
    and "w_fs (fst h) (singbox_config_file cfg) = Some old" and "cmd_reality_rotate E cfg random4 h = (r, h')"
  shows "case r of
      Inr live \<Rightarrow> live \<and> (\<exists>priv pub sid doc.
        validate_reality_keypair (ae_base64 E) (ae_mul_base E) priv pub = Inr () \<and>
        candidate_doc E cfg (priv, pub, sid) (fst h) doc \<and>
        keys_live E cfg running advertised (priv, pub, sid) doc h' \<and>
        fst (advertised (snd h')) = Some (as_bytes pub) \<and> fst (snd (advertised (snd h'))) = Some (as_bytes sid))
    | Inl e \<Rightarrow> (\<forall>p\<in>set (keyset_files cfg). w_fs (fst h') p = w_fs (fst h) p) \<and>
        file_content (singbox_config_file cfg) (fst h') = Some (i_content old) \<and>
        (case e of
           RotationFailed _ restored singbox_recovered sub_recovered \<Rightarrow> restored \<and>
             (singbox_recovered \<longrightarrow> running (snd h') = Some (i_content old)) \<and>
             (sub_recovered \<longrightarrow> advertised (snd h') = sub_view cfg (fst h))
         | _ \<Rightarrow> running (snd h') = running (snd h) \<and> advertised (snd h') = advertised (snd h))"
  using rotation_result [OF assms]
proof (elim disjE exE conjE)
  fix keys doc
  assume "r = Inr True" "generate_reality_keypair E random4 = Inr keys" "candidate_doc E cfg keys (fst h) doc"
    "keys_live E cfg running advertised keys doc h'"
  moreover obtain priv pub sid where "keys = (priv, pub, sid)"
    by (metis surj_pair)
  ultimately show ?thesis
    using generated_coherent [of E random4 priv pub sid] keys_live_advertised [of E cfg running advertised priv pub sid doc h']
    by (simp only: sum.case simp_thms fst_conv snd_conv) blast
next
  fix e
  assume "r = Inl e" "rolled_back cfg running advertised (keyset_files cfg) (fst h) (i_content old) e h'"
  then show ?thesis
    unfolding rolled_back_def by (elim exE conjE) simp
next
  fix e
  assume "r = Inl e" "before_rotation e" "\<forall>p\<in>set (keyset_files cfg). w_fs (fst h') p = w_fs (fst h) p"
    "w_fs (fst h') (singbox_config_file cfg) = Some old" "running (snd h') = running (snd h)" "advertised (snd h') = advertised (snd h)"
  then show ?thesis
    by (cases e) (simp_all add: before_rotation_def file_content_def)
qed

text \<open>A host whose two services each keep what they last read.\<close>

type_synonym rotation_state = "nat \<times> u8 list option \<times> u8 list option \<times> u8 list option \<times> u8 list option"

definition rotation_systemd :: "u8 list list \<Rightarrow> rotation_state systemd" where
  "rotation_systemd broken =
     \<lparr>sd_systemctl = (\<lambda>args w s.
        if args = [''reload-or-restart'', ''sing-box'']
        then let c = file_content (singbox_config_file demo_cfg) w in
             if c \<in> Some ` set broken then (Inr \<lparr>co_success = False, co_stdout = [], co_stderr = ''bad''\<rparr>, fst s, None, snd (snd s))
             else (Inr \<lparr>co_success = True, co_stdout = [], co_stderr = []\<rparr>, fst s, c, snd (snd s))
        else if args = [''reload-or-restart'', ''vpn-subscription'']
        then (Inr \<lparr>co_success = True, co_stdout = [], co_stderr = []\<rparr>, fst s, fst (snd s), sub_view demo_cfg w)
        else (Inr \<lparr>co_success = True, co_stdout = ''loaded'', co_stderr = []\<rparr>, s)),
      sd_sleep = (\<lambda>d s. (fst s + d, snd s)), sd_clock = fst\<rparr>"

definition rotation_env :: "u8 list list \<Rightarrow> rotation_state admin_env" where
  "rotation_env broken =
     (let A = demo_admin [] in
      \<lparr>ae_systemd = rotation_systemd broken, ae_check = ae_check A, ae_to_vec_pretty = ae_to_vec_pretty A,
       ae_from_slice = ae_from_slice A, ae_to_string = ae_to_string A, ae_to_string_pretty = ae_to_string_pretty A,
       ae_qr = ae_qr A, ae_users_json = ae_users_json A, ae_sha = ae_sha A, ae_hex = ae_hex A, ae_base64 = ae_base64 A,
       ae_mul_base = ae_mul_base A, ae_generate = ae_generate A, ae_group = ae_group A, ae_tar_entries = ae_tar_entries A,
       ae_tar_build = ae_tar_build A, ae_lock_path = ae_lock_path A, ae_flock = ae_flock A, ae_toml = ae_toml A,
       ae_to_value = ae_to_value A, ae_dbg = ae_dbg A, ae_lossy = ae_lossy A, ae_offline = False,
       ae_client = (\<lambda>_ _ s. (Inr \<lparr>pr_relay_ok = True, pr_stderr = [], pr_journal = None\<rparr>, s))\<rparr>)"

definition rotation_host :: "rotation_state host" where
  "rotation_host = (fst demo_host, 0, Some [9], sub_view demo_cfg (fst demo_host))"

definition demo_rotation :: "u8 list list \<Rightarrow> (admin_error + bool) \<times> rotation_state host" where
  "demo_rotation broken = cmd_reality_rotate (rotation_env broken) demo_cfg (replicate 4 1) rotation_host"

lemma rotation_env_ok: "rotation_setting (rotation_env broken) demo_cfg (fst \<circ> snd) (snd \<circ> snd)"
proof -
  have "trim ''loaded'' = ''loaded''"
    by code_simp
  then show ?thesis
    by (auto simp: rotation_setting_def admin_ok_def sub_ok_def systemd_ok_def clock_ok_def service_ok_def units_available_def answers_def
        rotation_env_def rotation_systemd_def Let_def split: if_splits)
qed

theorem reality_rotation_all_or_nothing_witness:
  "fst (demo_rotation []) = Inr True \<and>
   file_content (short_id_file demo_cfg) (fst rotation_host) = Some (as_bytes ''0a1b'') \<and>
   file_content (short_id_file demo_cfg) (fst (snd (demo_rotation []))) = Some (as_bytes ''ab'') \<and>
   fst (demo_rotation [[7]]) = Inl (RotationFailed ReloadSingBox True True True) \<and>
   file_content (short_id_file demo_cfg) (fst (snd (demo_rotation [[7]]))) = Some (as_bytes ''0a1b'') \<and>
   fst (snd (snd (snd (demo_rotation [[7]])))) = Some [9]"
proof -
  have good: "fst (demo_rotation []) = Inr True"
    "file_content (short_id_file demo_cfg) (fst (snd (demo_rotation []))) = Some (as_bytes ''ab'')"
    by code_simp+
  have bad: "fst (demo_rotation [[7]]) = Inl (RotationFailed ReloadSingBox True True True)"
    by code_simp
  have old: "w_faults (fst rotation_host) = []" "w_fs (fst rotation_host) (singbox_config_file demo_cfg) = Some (demo_node False [9])"
    "file_content (short_id_file demo_cfg) (fst rotation_host) = Some (as_bytes ''0a1b'')"
    by code_simp+
  have "cmd_reality_rotate (rotation_env [[7]]) demo_cfg (replicate 4 1) rotation_host =
      (Inl (RotationFailed ReloadSingBox True True True), snd (demo_rotation [[7]]))"
    using bad unfolding demo_rotation_def by (metis prod.collapse)
  from reality_rotation_all_or_nothing [OF rotation_env_ok old(1,2) this]
  have "file_content (short_id_file demo_cfg) (fst (snd (demo_rotation [[7]]))) = Some (as_bytes ''0a1b'') \<and>
      fst (snd (snd (snd (demo_rotation [[7]])))) = Some [9]"
    using old(3) by (simp add: keyset_files_def demo_node_def file_content_def)
  with good bad old(3) show ?thesis
    by blast
qed

end
