(* ===== verification/Admin_Backup.thy ===== *)
theory Admin_Backup
  imports Admin_Users Admin_Rotate
begin

text \<open>
  Backup and restore, \<^verbatim>\<open>apps/admin/src/main.rs\<close>. A backup stages the files of the manifest in a temporary directory and packs
  them; a restore unpacks an archive entry by entry, validates what it holds, and replaces the live files in one transaction with the
  services. The temporary directory is private to the command, so its content is a value here; an operation on it can still fail.
\<close>

subsection \<open>The manifest\<close>

definition BACKUP_MANIFEST :: "(path \<times> (DeploymentConfig \<Rightarrow> path)) list" where
  "BACKUP_MANIFEST =
     [([''users'', ''users.json''], users_file),
      ([''reality'', ''private.key''], reality_private_key_file),
      ([''reality'', ''public.key''], reality_public_key_file),
      ([''reality'', ''short_id.txt''], \<lambda>cfg. reality_dir cfg @ [''short_id.txt'']),
      ([''hysteria'', ''cert.pem''], \<lambda>cfg. hysteria_dir cfg @ [''cert.pem'']),
      ([''hysteria'', ''key.pem''], \<lambda>cfg. hysteria_dir cfg @ [''key.pem'']),
      ([''reality'', ''hysteria_obfs_password.txt''], hysteria_obfs_password_file)]"

definition is_allowed_backup_path :: "path \<Rightarrow> bool" where
  "is_allowed_backup_path p \<longleftrightarrow>
     p = [''deployment.toml''] \<or>
     list_ex (\<lambda>(rel_path, _). p = rel_path \<or> butlast rel_path \<noteq> [] \<and> p = butlast rel_path) BACKUP_MANIFEST"

subsection \<open>Backup\<close>

definition temp_io :: "unit io" where
  "temp_io = prim (\<lambda>_ w. w) (\<lambda>w. (Inr (), w))"

definition copy_if_exists :: "path \<Rightarrow> path \<Rightarrow> (path \<times> u8 list) list \<Rightarrow> world \<Rightarrow> (admin_error + (path \<times> u8 list) list) \<times> world" where
  "copy_if_exists src dst staging =
     bind_io (path_exists src) (\<lambda>present.
     if \<not> present then return_io staging
     else bind_io (admin_io temp_io) (\<lambda>_.
       bind_io (admin_io (fs_read src)) (\<lambda>bytes.
       bind_io (admin_io temp_io) (\<lambda>_.
       return_io (staging @ [(dst, bytes)])))))"

fun stage_all :: "(path \<times> path) list \<Rightarrow> (path \<times> u8 list) list \<Rightarrow> world \<Rightarrow> (admin_error + (path \<times> u8 list) list) \<times> world" where
  "stage_all [] staging = return_io staging"
| "stage_all ((src, dst) # rest) staging = bind_io (copy_if_exists src dst staging) (stage_all rest)"

definition stage_backup_contents ::
    "DeploymentConfig \<Rightarrow> path \<Rightarrow> world \<Rightarrow> (admin_error + (path \<times> u8 list) list) \<times> world" where
  "stage_backup_contents cfg config_path =
     stage_all ((config_path, [''deployment.toml'']) # map (\<lambda>(rel, accessor). (accessor cfg, rel)) BACKUP_MANIFEST) []"

definition write_archive :: "'s admin_env \<Rightarrow> path \<Rightarrow> (path \<times> u8 list) list \<Rightarrow> world \<Rightarrow> (admin_error + unit) \<times> world" where
  "write_archive E dest staging =
     bind_io (lift_r (map_err (BadArchive \<circ> ArchiveNotWritten) (ae_tar_build E staging))) (\<lambda>bytes.
     bind_io (admin_io (write_all dest bytes)) (\<lambda>_.
     admin_io (sync_all dest)))"

text \<open>The result is where the archive was written; a relative name is taken from the working directory.\<close>

definition cmd_backup ::
    "'s admin_env \<Rightarrow> DeploymentConfig \<Rightarrow> path \<Rightarrow> path \<Rightarrow> path option \<Rightarrow> world \<Rightarrow> (admin_error + path) \<times> world" where
  "cmd_backup E cfg config_path cwd output =
     bind_io (get_world w_unix_time) (\<lambda>now.
     let dest = (case output of Some p \<Rightarrow> p | None \<Rightarrow> cwd @ [''vpn1-backup-'' @ show_nat (unat now) @ ''.tar'']) in
     bind_io (admin_io temp_io) (\<lambda>_.
     bind_io (stage_backup_contents cfg config_path) (\<lambda>staging.
     bind_io (admin_io (open_create_new dest mode_0600)) (\<lambda>_.
     try_io (write_archive E dest staging) (\<lambda>r.
     case r of
       Inr _ \<Rightarrow> return_io dest
     | Inl error \<Rightarrow> bind_io (ignore_io (remove_file dest)) (\<lambda>_. fail_io error))))))"

subsection \<open>Unpacking\<close>

fun normalized_archive_path :: "path_component list \<Rightarrow> admin_error + path" where
  "normalized_archive_path [] = Inr []"
| "normalized_archive_path (CurDir # cs) = normalized_archive_path cs"
| "normalized_archive_path (Normal part # cs) = bind_r (normalized_archive_path cs) (\<lambda>p. Inr (part # p))"
| "normalized_archive_path (ParentDir # cs) = Inl (BadArchive UnsafePath)"
| "normalized_archive_path (RootDir # cs) = Inl (BadArchive UnsafePath)"

definition MAX_ENTRIES :: nat where
  "MAX_ENTRIES = 32"

definition MAX_ENTRY_BYTES :: u64 where
  "MAX_ENTRY_BYTES = 32 * 1024 * 1024"

definition MAX_TOTAL_BYTES :: u64 where
  "MAX_TOTAL_BYTES = 64 * 1024 * 1024"

text \<open>What is in the temporary directory: files with their data, and directories.\<close>

type_synonym staging = "(path \<times> u8 list option) list"

text \<open>The checks one entry passes before it is unpacked, and the new total.\<close>

definition check_entry :: "path \<Rightarrow> path list \<Rightarrow> u64 \<Rightarrow> tar_entry \<Rightarrow> archive_error + u64" where
  "check_entry p seen total_bytes entry =
     (if p \<in> set seen then Inl (DuplicateEntry p)
      else if \<not> is_allowed_backup_path p then Inl (UnexpectedEntry p)
      else if te_type entry = OtherEntry then Inl (SpecialEntry p)
      else if te_size entry > MAX_ENTRY_BYTES then Inl (EntryTooLarge p (te_size entry))
      else if unat total_bytes + unat (te_size entry) \<ge> 2 ^ 64 then Inl SizeOverflow
      else if total_bytes + te_size entry > MAX_TOTAL_BYTES then Inl ArchiveTooLarge
      else case te_unpack entry of
             Inl e \<Rightarrow> Inl (ExtractionFailed p e)
           | Inr inside \<Rightarrow> if \<not> inside then Inl (EscapesStaging p) else Inr (total_bytes + te_size entry))"

fun extract_entries :: "(string + tar_entry) list \<Rightarrow> nat \<Rightarrow> path list \<Rightarrow> u64 \<Rightarrow> staging \<Rightarrow> admin_error + staging" where
  "extract_entries [] n seen total_bytes staging = Inr staging"
| "extract_entries (Inl e # entries) n seen total_bytes staging = Inl (BadArchive (ArchiveUnreadable e))"
| "extract_entries (Inr entry # entries) n seen total_bytes staging =
     (if n + 1 > MAX_ENTRIES then Inl (BadArchive TooManyEntries)
      else bind_r (normalized_archive_path (te_path entry)) (\<lambda>p.
        if p = [] then
          if te_type entry \<noteq> Directory then Inl (BadArchive RootNotDirectory)
          else extract_entries entries (n + 1) seen total_bytes staging
        else bind_r (map_err BadArchive (check_entry p seen total_bytes entry)) (\<lambda>total_bytes.
          extract_entries entries (n + 1) (p # seen) total_bytes
            (staging @ [(p, if te_type entry = RegularFile then Some (te_data entry) else None)]))))"

definition extract_validated_backup :: "'s admin_env \<Rightarrow> path \<Rightarrow> world \<Rightarrow> (admin_error + staging) \<times> world" where
  "extract_validated_backup E archive =
     bind_io (admin_io (fs_read archive)) (\<lambda>bytes.
     lift_r (bind_r (map_err (BadArchive \<circ> ArchiveUnreadable) (ae_tar_entries E bytes)) (\<lambda>entries.
       extract_entries entries 0 [] 0 [])))"

subsection \<open>Restore\<close>

definition staged_exists :: "staging \<Rightarrow> path \<Rightarrow> world \<Rightarrow> ('e + bool) \<times> world" where
  "staged_exists staging p =
     try_io temp_io (\<lambda>r. return_io (case r of Inr _ \<Rightarrow> map_of staging p \<noteq> None | Inl _ \<Rightarrow> False))"

definition staged_read :: "staging \<Rightarrow> path \<Rightarrow> (u8 list) io" where
  "staged_read staging p =
     bind_io temp_io (\<lambda>_.
     lift_r (case map_of staging p of None \<Rightarrow> Inl enoent | Some None \<Rightarrow> Inl eisdir | Some (Some bytes) \<Rightarrow> Inr bytes))"

definition staged_read_to_string :: "staging \<Rightarrow> path \<Rightarrow> string io" where
  "staged_read_to_string staging p =
     bind_io (staged_read staging p) (\<lambda>bs. lift_r
       (ok_or (io_error_new InvalidData ''stream did not contain valid UTF-8'') (from_utf8 bs)))"

fun require_staged :: "staging \<Rightarrow> path list \<Rightarrow> world \<Rightarrow> (admin_error + unit) \<times> world" where
  "require_staged staging [] = return_io ()"
| "require_staged staging (required # rest) =
     bind_io (staged_exists staging required) (\<lambda>present.
     if \<not> present then fail_io (NotRestorable (PartialKeyset required)) else require_staged staging rest)"

text \<open>What an archive must hold before anything live is touched: its users.\<close>

definition validate_staged :: "'s admin_env \<Rightarrow> staging \<Rightarrow> world \<Rightarrow> (admin_error + CompatUser list) \<times> world" where
  "validate_staged E staging =
     bind_io (staged_exists staging [''users'', ''users.json'']) (\<lambda>has_users.
     if \<not> has_users then fail_io (NotRestorable NoUsersFile)
     else bind_io (admin_io (staged_read staging [''users'', ''users.json''])) (\<lambda>bytes.
       bind_io (lift_r (map_err (NotRestorable \<circ> BadUsersFile) (parse_users_bytes (ae_users_json E) bytes))) (\<lambda>restored_users.
       bind_io (staged_exists staging [''reality'', ''private.key'']) (\<lambda>has_key.
       if \<not> has_key then fail_io (NotRestorable NoPrivateKey)
       else bind_io (require_staged staging [[''reality'', ''public.key''], [''reality'', ''short_id.txt'']]) (\<lambda>_.
         bind_io (admin_io (staged_read_to_string staging [''reality'', ''private.key''])) (\<lambda>restored_private.
         bind_io (admin_io (staged_read_to_string staging [''reality'', ''public.key''])) (\<lambda>restored_public.
         bind_io (lift_r (map_err KeysIncoherent
           (validate_reality_keypair (ae_base64 E) (ae_mul_base E) (trim restored_private) (trim restored_public)))) (\<lambda>_.
         bind_io (staged_exists staging [''hysteria'', ''cert.pem'']) (\<lambda>hy_cert.
         bind_io (staged_exists staging [''hysteria'', ''key.pem'']) (\<lambda>hy_key.
         if hy_cert \<noteq> hy_key then fail_io (NotRestorable HalfTlsPair) else return_io restored_users))))))))))"

definition restore_targets :: "DeploymentConfig \<Rightarrow> (path \<times> path) list" where
  "restore_targets cfg =
     map (\<lambda>(rel, accessor). (rel, accessor cfg)) (filter (\<lambda>(rel, _). rel \<noteq> [''users'', ''users.json'']) BACKUP_MANIFEST)"

definition restored_group :: "path \<Rightarrow> string" where
  "restored_group rel =
     (if rel \<in> {[''reality'', ''public.key''], [''reality'', ''short_id.txt''], [''reality'', ''hysteria_obfs_password.txt'']}
      then ''vpn-subscription'' else ''sing-box'')"

fun install_staged :: "'s admin_env \<Rightarrow> staging \<Rightarrow> (path \<times> path) list \<Rightarrow> world \<Rightarrow> (admin_error + unit) \<times> world" where
  "install_staged E staging [] = return_io ()"
| "install_staged E staging ((rel, dest) # rest) =
     bind_io (staged_exists staging rel) (\<lambda>present.
     if \<not> present then install_staged E staging rest
     else bind_io (admin_io (staged_read staging rel)) (\<lambda>contents.
       bind_io (lift_r (ok_or (NotRestorable (NotUtf8 rel)) (from_utf8 contents))) (\<lambda>txt.
       bind_io (install_rotated_key_file E dest txt) (\<lambda>_.
       bind_io (apply_restored_file_policy E dest (restored_group rel)) (\<lambda>_.
       install_staged E staging rest)))))"

definition install_all ::
    "'s admin_env \<Rightarrow> DeploymentConfig \<Rightarrow> staging \<Rightarrow> CompatUser list \<Rightarrow> world \<Rightarrow> (admin_error + unit) \<times> world" where
  "install_all E cfg staging restored_users =
     bind_io (map_err_io AdminCompat (save_users_atomic (ae_users_json E) (ae_dbg E) (users_file cfg) restored_users)) (\<lambda>_.
     bind_io (apply_restored_file_policy E (users_file cfg) ''vpn-subscription'') (\<lambda>_.
     bind_io (install_staged E staging (restore_targets cfg)) (\<lambda>_.
     bind_io (fsync_dir (reality_dir cfg)) (\<lambda>_.
     fsync_dir (hysteria_dir cfg)))))"

text \<open>Going back: the files, then the server's configuration from them, then the subscription service. The answer is whether all of it worked.\<close>

definition restore_rollback :: "'s admin_env \<Rightarrow> DeploymentConfig \<Rightarrow> (path \<times> bool) list \<Rightarrow> 's host \<Rightarrow> ('e + bool) \<times> 's host" where
  "restore_rollback E cfg files =
     bind_io (disk (undo_files files)) (\<lambda>files_ok.
     try_io (regenerate_singbox_config E cfg True) (\<lambda>regenerated.
     bind_io (service_available (ae_systemd E) sub_mgr) (\<lambda>available.
     bind_io (if available
              then try_io (reload_and_verify (ae_systemd E) sub_mgr) (\<lambda>r. return_io (r = Inr ()))
              else return_io (ae_offline E)) (\<lambda>sub_ok.
     return_io (files_ok \<and> (case regenerated of Inr _ \<Rightarrow> True | Inl _ \<Rightarrow> False) \<and> sub_ok)))))"

definition restore_failed ::
    "'s admin_env \<Rightarrow> DeploymentConfig \<Rightarrow> (path \<times> bool) list \<Rightarrow> restore_stage \<Rightarrow> 's host \<Rightarrow> (admin_error + 'a) \<times> 's host" where
  "restore_failed E cfg files stage =
     bind_io (restore_rollback E cfg files) (\<lambda>recovered. fail_io (RestoreFailed stage recovered))"

text \<open>From the first live change on.\<close>

definition restore_staged ::
    "'s admin_env \<Rightarrow> DeploymentConfig \<Rightarrow> staging \<Rightarrow> CompatUser list \<Rightarrow> (path \<times> bool) list \<Rightarrow> 's host \<Rightarrow> (admin_error + nat) \<times> 's host" where
  "restore_staged E cfg staging restored_users files =
     try_io (disk (install_all E cfg staging restored_users)) (\<lambda>installed.
     case installed of
       Inl e \<Rightarrow> restore_failed E cfg files Installing
     | Inr _ \<Rightarrow>
         try_io (regenerate_singbox_config E cfg True) (\<lambda>regenerated.
         case regenerated of
           Inl e \<Rightarrow> restore_failed E cfg files ApplyingAuthorization
         | Inr _ \<Rightarrow>
             try_io (reload_if_available E sub_mgr) (\<lambda>restarted.
             case restarted of
               Inl e \<Rightarrow> restore_failed E cfg files RestartingSubscription
             | Inr _ \<Rightarrow>
                 bind_io (disk (remove_all (map (rotate_backup_path \<circ> fst) (filter snd files)))) (\<lambda>_.
                 return_io (length restored_users)))))"

text \<open>Everything up to the first backup: the archive is unpacked and validated, the services are there, and so are the directories.\<close>

definition restore_candidate :: "'s admin_env \<Rightarrow> DeploymentConfig \<Rightarrow> path \<Rightarrow> 's host \<Rightarrow> (admin_error + staging \<times> CompatUser list) \<times> 's host" where
  "restore_candidate E cfg archive =
     bind_io (disk (admin_io temp_io)) (\<lambda>_.
     bind_io (disk (extract_validated_backup E archive)) (\<lambda>staging.
     bind_io (disk (validate_staged E staging)) (\<lambda>restored_users.
     bind_io (require_services E) (\<lambda>_.
     bind_io (disk (admin_io (create_dir_all (reality_dir cfg)))) (\<lambda>_.
     bind_io (disk (admin_io (create_dir_all (hysteria_dir cfg)))) (\<lambda>_.
     bind_io (disk (admin_io (create_dir_all (butlast (users_file cfg))))) (\<lambda>_.
     return_io (staging, restored_users))))))))"

definition cmd_restore :: "'s admin_env \<Rightarrow> DeploymentConfig \<Rightarrow> path \<Rightarrow> 's host \<Rightarrow> (admin_error + nat) \<times> 's host" where
  "cmd_restore E cfg archive =
     bind_io (restore_candidate E cfg archive) (\<lambda>(staging, restored_users).
     bind_io (disk (backup_for_rotate (users_file cfg))) (\<lambda>users_backup.
     let targets = map snd (restore_targets cfg) in
     bind_io (disk (prepare_backups targets (case users_backup of Some b \<Rightarrow> [b] | None \<Rightarrow> []))) (\<lambda>existed.
     restore_staged E cfg staging restored_users (zip targets existed @ [(users_file cfg, users_backup \<noteq> None)]))))"

subsection \<open>What an archive can do\<close>

definition staged_bytes :: "staging \<Rightarrow> nat" where
  "staged_bytes staging = sum_list (map (\<lambda>(_, c). case c of Some bytes \<Rightarrow> length bytes | None \<Rightarrow> 0) staging)"

text \<open>The archive reader yields as many bytes of data as the header of the entry announces.\<close>

definition sizes_ok :: "(string + tar_entry) list \<Rightarrow> bool" where
  "sizes_ok entries \<longleftrightarrow> (\<forall>entry. Inr entry \<in> set entries \<longrightarrow> length (te_data entry) = unat (te_size entry))"

text \<open>What holds between two entries: \<open>n\<close> of them were read, the names are those seen, and the total bounds the data.\<close>

definition staging_ok :: "nat \<Rightarrow> path list \<Rightarrow> u64 \<Rightarrow> staging \<Rightarrow> bool" where
  "staging_ok n seen tot staging \<longleftrightarrow>
     distinct (map fst staging) \<and> set seen = set (map fst staging) \<and> length staging \<le> n \<and> n \<le> MAX_ENTRIES \<and>
     (\<forall>p\<in>set (map fst staging). is_allowed_backup_path p) \<and> staged_bytes staging \<le> unat tot \<and> tot \<le> MAX_TOTAL_BYTES \<and>
     (\<forall>(p, c)\<in>set staging. case c of Some bytes \<Rightarrow> length bytes \<le> unat MAX_ENTRY_BYTES | None \<Rightarrow> True)"

lemma check_entry_result:
  assumes "check_entry p seen tot entry = Inr tot'"
  shows "p \<notin> set seen" "is_allowed_backup_path p" "te_size entry \<le> MAX_ENTRY_BYTES" "unat tot' = unat tot + unat (te_size entry)"
    "tot' \<le> MAX_TOTAL_BYTES" "te_type entry \<noteq> OtherEntry"
  using assms by (auto simp: check_entry_def unat_word_ariths split: if_splits sum.splits)

lemma staging_ok_step:
  assumes "staging_ok n seen tot staging" "n < MAX_ENTRIES" "check_entry p seen tot entry = Inr tot'"
    "length (te_data entry) = unat (te_size entry)"
  shows "staging_ok (n + 1) (p # seen) tot' (staging @ [(p, if te_type entry = RegularFile then Some (te_data entry) else None)])"
proof -
  note c = check_entry_result [OF assms(3)]
  have "length (te_data entry) \<le> unat MAX_ENTRY_BYTES"
    using c(3) assms(4) by (simp add: word_le_nat_alt)
  then show ?thesis
    using assms(1,2,4) c unfolding staging_ok_def staged_bytes_def by auto
qed

lemma extract_entries_ok:
  assumes "extract_entries entries n seen tot staging = Inr staging'" "staging_ok n seen tot staging" "sizes_ok entries"
  shows "\<exists>n' seen' tot'. staging_ok n' seen' tot' staging'"
  using assms
proof (induction entries n seen tot staging rule: extract_entries.induct)
  case (3 entry entries n seen tot staging)
  have size: "length (te_data entry) = unat (te_size entry)" and rest: "sizes_ok entries"
    using "3.prems"(3) by (auto simp: sizes_ok_def)
  from "3.prems"(1) obtain p where n: "\<not> n + 1 > MAX_ENTRIES" and p: "normalized_archive_path (te_path entry) = Inr p"
    by (auto simp: bind_r_eq_Inr split: if_splits)
  show ?case
  proof (cases "p = []")
    case True
    with "3.prems"(1) n p have "te_type entry = Directory" "extract_entries entries (n + 1) seen tot staging = Inr staging'"
      by (auto simp: bind_r_def split: if_splits)
    moreover have "staging_ok (n + 1) seen tot staging"
      using "3.prems"(2) n by (simp add: staging_ok_def)
    ultimately show ?thesis
      using "3.IH"(1) [OF n True] rest by simp
  next
    case False
    with "3.prems"(1) n p obtain tot' where t: "check_entry p seen tot entry = Inr tot'"
      and run: "extract_entries entries (n + 1) (p # seen) tot' (staging @ [(p, if te_type entry = RegularFile then Some (te_data entry) else None)]) = Inr staging'"
      by (auto simp: bind_r_eq_Inr map_err_eq_Inr)
    show ?thesis
      using "3.IH"(2) [OF n False run staging_ok_step [OF "3.prems"(2) _ t size] rest] n by simp
  qed
qed auto

subsection \<open>Regenerating the configuration on a disk that works\<close>

definition calm :: "'s host \<Rightarrow> 's host \<Rightarrow> bool" where
  "calm h h' \<longleftrightarrow> (w_faults (fst h) = [] \<longrightarrow> w_faults (fst h') = [])"

lemma calm_pre_order [steady_intros]: "pre_order calm"
  by (simp add: pre_order_def calm_def)

lemma disk_calm: "faultless m \<Longrightarrow> steady calm (disk m)"
  by (auto simp: steady_def calm_def disk_def faultless_def split: prod.split)

lemma same_disk_calm: "steady same_disk m \<Longrightarrow> steady calm m"
  by (simp add: steady_def same_disk_def calm_def)

lemma service_calm [steady_intros]:
  "steady calm (mgr_is_active S m)" "steady calm (is_available S)" "steady calm (is_unit_installed S m)"
  "steady calm (reload_and_verify S m)" "steady calm (run_reality_client_selftest E re u p)"
  by (intro same_disk_calm steady_intros)+

lemma faultless_copy [faultless_intros]: "faultless (fs_copy a b)"
  unfolding fs_copy_def by (intro faultless_intros)

lemma faultless_config_files [faultless_intros]:
  "faultless (target_already_matches E target doc)" "faultless (applied_stamp_matches target fp)"
  "faultless (commit_applied_config_stamp target fp)"
  unfolding target_already_matches_def applied_stamp_matches_def commit_applied_config_stamp_def write_secret_file_def fsync_dir_def Let_def
  by (auto intro!: faultless_intros split: option.split)

lemma regenerate_calm: "steady calm (regenerate_singbox_config E cfg live)"
  unfolding regenerate_singbox_config_def render_and_apply_singbox_config_def apply_singbox_config_def reload_applied_def
    verify_and_record_def verify_reality_handshake_or_warn_def restore_previous_config_def service_available_def Let_def
  by (auto intro!: steady_intros disk_calm faultless_intros split: sum.split option.split)

text \<open>It does not restart the subscription service.\<close>

lemma regenerate_keeps_advertised:
  assumes "rotation_setting E cfg running advertised"
  shows "steady (same_running advertised) (regenerate_singbox_config E cfg live)"
proof -
  note sv = rotation_services [OF assms]
  have client: "steady (same_running advertised) (run_reality_client_selftest E re u p)" for re u p
    using assms by (simp add: steady_def same_running_def run_reality_client_selftest_def rotation_setting_def sub_ok_def split_beta)
  have reload: "steady (same_running advertised) (reload_and_verify (ae_systemd E) service_manager_default)"
    unfolding steady_def using reload_other_service [OF sv(3) sv(4) [symmetric]] by (metis prod.collapse)
  show ?thesis
    unfolding regenerate_singbox_config_def render_and_apply_singbox_config_def apply_singbox_config_def reload_applied_def
      verify_and_record_def verify_reality_handshake_or_warn_def restore_previous_config_def service_available_def Let_def
    by (auto intro!: steady_intros client reload observers_same_running [OF sv(3)] split: sum.split option.split)
qed

lemma regenerate_same_files: "steady (same_files (service_paths cfg)) (regenerate_singbox_config E cfg live)"
  unfolding regenerate_singbox_config_def by (auto intro!: steady_intros disk_same_files frame_load_users)

lemma load_users_calm:
  assumes "w_faults (fst h) = []" "disk (load_users (ae_users_json E) (users_file cfg)) h = (Inr users, h')"
  shows "h' = h" "stored_users E cfg h = Inr users"
  using assms
  by (auto simp: load_users_def disk_def bind_io_def path_exists_calm return_io_def compat_io_def map_err_io_def fs_read_def prim_calm
      lift_r_def stored_users_def split: option.splits if_splits sum.splits prod.splits)

text \<open>These users are in force: the server runs their rendering, or the record of what it runs says so.\<close>

definition in_force ::
    "'s admin_env \<Rightarrow> DeploymentConfig \<Rightarrow> ('s \<Rightarrow> u8 list option) \<Rightarrow> CompatUser list \<Rightarrow> 's host \<Rightarrow> 's host \<Rightarrow> bool" where
  "in_force E cfg running users h h' \<longleftrightarrow>
     (\<exists>doc. rendering E cfg users (fst h) doc \<and> (installed E cfg running doc h' \<or>
        already_current E cfg doc (fst h) \<and> same_running running h h'))"

lemma reload_applied_live:
  assumes "units_available E" "reload_applied E cfg users re fp h = (Inr b, h')"
  shows b
proof -
  obtain h1 where h1: "is_available (ae_systemd E) h = (Inr True :: admin_error + bool, h1)"
    using ask_answers assms(1) unfolding is_available_def units_available_def by blast
  have "answers (ae_systemd E) [''show'', ''-p'', ''LoadState'', ''--value'', sm_service_name service_manager_default @ ''.service'']
      (\<lambda>out. co_success out \<and> trim (co_stdout out) = ''loaded'')"
    using assms(1) by (simp add: units_available_def service_manager_default_def service_manager_def)
  then obtain h2 where h2: "is_unit_installed (ae_systemd E) service_manager_default h1 = (Inr True :: admin_error + bool, h2)"
    using ask_answers unfolding is_unit_installed_def Let_def by blast
  obtain rl h3 where "reload_and_verify (ae_systemd E) service_manager_default h2 = (rl, h3)"
    by (metis surj_pair)
  then have "(case rl of Inl e \<Rightarrow> bind_io (restore_previous_config (ae_systemd E) service_manager_default (singbox_config_file cfg)) (\<lambda>recovered.
        fail_io (ReloadFailed e recovered)) | Inr _ \<Rightarrow> verify_and_record E cfg users re fp) h3 = (Inr b, h')"
    using assms(2) h1 h2 by (simp add: reload_applied_def Let_def bind_io_def [of "is_available _"] bind_io_def [of "is_unit_installed _ _"] try_io_def)
  then have "verify_and_record E cfg users re fp h3 = (Inr b, h')"
    by (cases rl) (simp_all add: io_simps)
  then show b
    by (auto simp: verify_and_record_def io_simps split: if_splits)
qed

lemma render_live:
  assumes "units_available E" "\<not> ae_offline E" "render_and_apply_singbox_config E cfg users True h = (Inr b, h')"
  shows b
proof -
  obtain lr h0 where h0: "disk (load_reality_params E cfg) h = (lr, h0)"
    by (metis surj_pair)
  with assms(2,3) obtain re where "lr = Inr re"
    by (cases lr) (auto simp: render_and_apply_singbox_config_def Let_def try_io_def fail_io_def)
  with assms(2,3) h0 obtain doc fp h1 where "apply_singbox_config E cfg users re doc fp True h1 = (Inr b, h')"
    by (auto simp: render_and_apply_singbox_config_def Let_def try_io_def bind_io_eq_Inr)
  then consider "b = True" | h2 where "reload_applied E cfg users re fp h2 = (Inr b, h')"
    by (auto simp: apply_singbox_config_def Let_def io_simps split: if_splits)
  then show b
  proof cases
    case (2 h2)
    then show ?thesis
      by (rule reload_applied_live [OF assms(1)])
  qed simp
qed

lemma regenerate_result:
  assumes "rotation_setting E cfg running advertised" "\<not> ae_offline E" "w_faults (fst h) = []"
    and run: "regenerate_singbox_config E cfg True h = (r, h')"
  shows "r = Inr b \<Longrightarrow> \<exists>users. stored_users E cfg h = Inr users \<and> in_force E cfg running users h h'"
    "w_faults (fst h') = []" "p \<notin> service_paths cfg \<Longrightarrow> w_fs (fst h') p = w_fs (fst h) p" "advertised (snd h') = advertised (snd h)"
proof -
  have ok: "admin_ok E cfg running" "units_available E"
    using assms(1) by (simp_all add: rotation_setting_def)
  show "w_faults (fst h') = []"
    using steadyD [OF regenerate_calm run] assms(3) by (simp add: calm_def)
  show "p \<notin> service_paths cfg \<Longrightarrow> w_fs (fst h') p = w_fs (fst h) p"
    using steadyD [OF regenerate_same_files run] by (simp add: same_files_def)
  show "advertised (snd h') = advertised (snd h)"
    using steadyD [OF regenerate_keeps_advertised [OF assms(1)] run] by (simp add: same_running_def)
  assume "r = Inr b"
  with run obtain users h1 where h1: "disk (load_users (ae_users_json E) (users_file cfg)) h = (Inr users, h1)"
    and ren: "render_and_apply_singbox_config E cfg users True h1 = (Inr b, h')"
    by (auto simp: regenerate_singbox_config_def io_simps)
  note load = load_users_calm [OF assms(3) h1]
  from live_result [OF ok(1) ren] render_live [OF ok(2) assms(2) ren] load
  show "\<exists>users. stored_users E cfg h = Inr users \<and> in_force E cfg running users h h'"
    by (auto simp: in_force_def)
qed

subsection \<open>The restore as a transaction\<close>

definition manifest_files :: "DeploymentConfig \<Rightarrow> path list" where
  "manifest_files cfg = map snd (restore_targets cfg) @ [users_file cfg]"

lemma targets_simps:
  "restore_targets cfg =
     [([''reality'', ''private.key''], reality_dir cfg @ [''private.key'']), ([''reality'', ''public.key''], reality_dir cfg @ [''public.key'']),
      ([''reality'', ''short_id.txt''], reality_dir cfg @ [''short_id.txt'']), ([''hysteria'', ''cert.pem''], hysteria_dir cfg @ [''cert.pem'']),
      ([''hysteria'', ''key.pem''], hysteria_dir cfg @ [''key.pem'']),
      ([''reality'', ''hysteria_obfs_password.txt''], reality_dir cfg @ [''hysteria_obfs_password.txt''])]"
  by (simp add: restore_targets_def BACKUP_MANIFEST_def key_paths)

definition users_dir :: "DeploymentConfig \<Rightarrow> path" where
  "users_dir cfg = dc_state_dir cfg @ [''users'']"

lemma users_file_in: "users_file cfg = users_dir cfg @ [''users.json'']"
  by (simp add: users_file_def users_dir_def)

lemma dirs_apart:
  "hysteria_dir cfg \<notin> service_paths cfg" "hysteria_dir cfg @ [n] \<notin> service_paths cfg"
  "users_dir cfg \<notin> service_paths cfg" "users_dir cfg @ [n] \<notin> service_paths cfg"
  "reality_dir cfg \<noteq> hysteria_dir cfg" "reality_dir cfg \<noteq> users_dir cfg" "hysteria_dir cfg \<noteq> users_dir cfg"
  by (auto simp: hysteria_dir_def users_dir_def reality_dir_def service_paths_def service_dir_def prefix_append)

lemma dirs_no_file:
  "reality_dir cfg \<noteq> reality_dir cfg @ [n]" "reality_dir cfg \<noteq> hysteria_dir cfg @ [n]" "reality_dir cfg \<noteq> users_dir cfg @ [n]"
  "hysteria_dir cfg \<noteq> reality_dir cfg @ [n]" "hysteria_dir cfg \<noteq> hysteria_dir cfg @ [n]" "hysteria_dir cfg \<noteq> users_dir cfg @ [n]"
  "users_dir cfg \<noteq> reality_dir cfg @ [n]" "users_dir cfg \<noteq> hysteria_dir cfg @ [n]" "users_dir cfg \<noteq> users_dir cfg @ [n]"
  by (simp_all add: reality_dir_def hysteria_dir_def users_dir_def)

lemma manifest_transactable: "transactable cfg (manifest_files cfg)" "transactable cfg (users_file cfg # map snd (restore_targets cfg))"
  unfolding transactable_def apart_def txn_paths_def manifest_files_def targets_simps key_paths rotate_backup_path_def users_file_in
  by (simp_all add: path_suffix_app reality_dir_apart dirs_apart dirs_apart(5-7) [symmetric] dirs_no_file inj_on_def)

lemma in_transaction_cong:
  assumes "in_transaction ps w0 w" "w_faults w' = []" "\<And>p. p \<in> set ps \<Longrightarrow> w_fs w' (rotate_backup_path p) = w_fs w (rotate_backup_path p)"
    "\<And>p. p \<in> set ps \<Longrightarrow> is_dir_at p w' \<Longrightarrow> is_dir_at p w"
    "\<And>p. p \<in> set ps \<Longrightarrow> is_dir_at (butlast p) w \<Longrightarrow> is_dir_at (butlast p) w'"
  shows "in_transaction ps w0 w'"
  using assms unfolding in_transaction_def by metis

lemma in_transaction_set: "set ps = set qs \<Longrightarrow> in_transaction ps w0 w \<longleftrightarrow> in_transaction qs w0 w"
  by (simp add: in_transaction_def)

lemma restore_prepared:
  assumes "w_faults w = []" "backup_for_rotate (users_file cfg) w = (Inr b, w1)"
    and "prepare_backups (map snd (restore_targets cfg)) (case b of Some b \<Rightarrow> [b] | None \<Rightarrow> []) w1 = (Inr existed, w')"
  shows "in_transaction (manifest_files cfg) w w'"
    "zip (map snd (restore_targets cfg)) existed @ [(users_file cfg, b \<noteq> None)] = existing w (manifest_files cfg)"
    "\<And>p. p \<in> set (manifest_files cfg) \<Longrightarrow> w_fs w' p = w_fs w p"
proof -
  let ?ts = "map snd (restore_targets cfg)"
  have all: "prepare_backups (users_file cfg # ?ts) [] w = (Inr ((b \<noteq> None) # existed), w')"
    using assms(2,3) by (simp add: try_io_def bind_io_def return_io_def)
  note prep = prepared [OF manifest_transactable(2) assms(1) all]
  have apart: "apart (users_file cfg # ?ts)"
    using manifest_transactable(2) by (simp add: transactable_def)
  note calm = prepare_calm [OF assms(1) apart all]
  have "set (users_file cfg # ?ts) = set (manifest_files cfg)"
    by (simp add: manifest_files_def)
  then show "in_transaction (manifest_files cfg) w w'"
    using prep(1) in_transaction_set unfolding mid_transaction_def by blast
  show "zip ?ts existed @ [(users_file cfg, b \<noteq> None)] = existing w (manifest_files cfg)"
    using calm(2) by (auto simp: existing_def manifest_files_def zip_append)
  show "w_fs w' p = w_fs w p" if "p \<in> set (manifest_files cfg)" for p
  proof (rule calm(4))
    have "p \<in> set (users_file cfg # ?ts)"
      using that by (auto simp: manifest_files_def)
    then show "p \<notin> rotate_backup_path ` set (users_file cfg # ?ts)"
      using apart unfolding apart_def by blast
  qed
qed

text \<open>Directories stay directories.\<close>

definition keeps_dirs :: "path set \<Rightarrow> (world \<Rightarrow> ('e + 'a) \<times> world) \<Rightarrow> bool" where
  "keeps_dirs S m \<longleftrightarrow> (\<forall>w q. q \<notin> S \<longrightarrow> is_dir_at q w \<longrightarrow> is_dir_at q (snd (m w)))"

lemma keeps_dirsD: "keeps_dirs S m \<Longrightarrow> m w = (r, w') \<Longrightarrow> q \<notin> S \<Longrightarrow> is_dir_at q w \<Longrightarrow> is_dir_at q w'"
  unfolding keeps_dirs_def by (metis snd_conv)

lemma keeps_dirs_frame: "frame S m \<Longrightarrow> keeps_dirs S m"
  by (simp add: keeps_dirs_def is_dir_at_def frame_untouched)

lemma keeps_dirs_bind: "keeps_dirs S m \<Longrightarrow> (\<And>x. keeps_dirs S (f x)) \<Longrightarrow> keeps_dirs S (bind_io m f)"
  by (auto simp: keeps_dirs_def bind_io_def split: prod.splits sum.splits) (metis snd_conv)+

lemma keeps_dirs_err: "keeps_dirs S m \<Longrightarrow> keeps_dirs S (map_err_io g m)"
  by (simp add: keeps_dirs_def map_err_io_def split_beta)

lemma mkdirs_keeps: "is_dir_at q w \<Longrightarrow> is_dir_at q (snd (mkdirs ps w))"
proof (induction ps w rule: mkdirs.induct)
  case (2 p ps w)
  then show ?case
    by (cases "w_fs w p") (auto simp: is_dir_at_def)
qed simp

lemma keeps_dirs_prims: "keeps_dirs S (create_dir_all p)" "keeps_dirs S (set_permissions p mode)"
proof -
  show "keeps_dirs S (create_dir_all p)"
    using mkdirs_keeps
    by (auto simp: keeps_dirs_def create_dir_all_def prim_def is_dir_at_def split: list.splits fault.splits option.splits)
  show "keeps_dirs S (set_permissions p mode)"
    by (auto simp: keeps_dirs_def set_permissions_def prim_def is_dir_at_def split: list.splits fault.splits option.splits)
qed

definition save_paths :: "DeploymentConfig \<Rightarrow> path set" where
  "save_paths cfg = insert (users_file cfg) (range (tmp_path_for ''store'' (users_file cfg)))"

lemma save_keeps_dirs: "keeps_dirs (save_paths cfg) (save_users_atomic J dbg (users_file cfg) users)"
proof -
  let ?tmp = "tmp_path_for ''store'' (users_file cfg)"
  have dirs: "keeps_dirs (save_paths cfg) (case path_parent (users_file cfg) of
      Some parent \<Rightarrow> bind_io (compat_io (create_dir_all parent)) (\<lambda>_. compat_io (set_permissions parent mode_0750))
    | None \<Rightarrow> return_io ())"
    unfolding compat_io_def
    by (auto intro!: keeps_dirs_bind keeps_dirs_err keeps_dirs_prims keeps_dirs_frame [OF frame_return] split: option.split)
  have known: "?tmp pid \<in> save_paths cfg" "users_file cfg \<in> save_paths cfg" for pid
    by (simp_all add: save_paths_def)
  show ?thesis
    unfolding save_users_atomic_def Let_def
    by (intro keeps_dirs_bind dirs; intro keeps_dirs_frame frame_intros known)
qed

lemma frame_save_fine: "frame (set (prefixes (users_dir cfg)) \<union> save_paths cfg) (save_users_atomic J dbg (users_file cfg) users)"
  unfolding save_users_atomic_def Let_def path_parent_def
  by (auto intro!: frame_intros simp: save_paths_def users_file_in)

lemma faultless_save [faultless_intros]: "faultless (save_users_atomic J dbg p users)"
  unfolding save_users_atomic_def Let_def fsync_parent_dir_def by (auto intro!: faultless_intros split: option.split)

lemma save_path_names: "p \<in> save_paths cfg \<Longrightarrow> p = users_file cfg \<or> (\<exists>n. p = users_dir cfg @ [''users.json.tmp.'' @ n])"
proof -
  have "rust_str ''users.json''"
    by (intro rust_str_ascii) simp
  then have "tmp_path_for ''store'' (users_file cfg) pid = users_dir cfg @ [''users.json.tmp.'' @ show_nat pid]" for pid
    by (simp add: tmp_path_for_def path_set_file_name_def users_file_in file_name_or_def path_file_name_def)
  then show "p \<in> save_paths cfg \<Longrightarrow> ?thesis"
    by (auto simp: save_paths_def)
qed

end
