(* ===== verification/Admin_Archive.thy ===== *)
theory Admin_Archive
  imports Admin_Backup
begin

text \<open>
  The archives of the admin tool (\<^verbatim>\<open>cmd_backup\<close>, \<^verbatim>\<open>extract_validated_backup\<close>): what any archive can put in front of the restore, and that
  the archive of a backup unpacks to the files it was taken of. The archive format itself is the library's; \<open>tar_ok\<close> says what is
  relied on.
\<close>

subsection \<open>What a backup holds\<close>

definition staged_files :: "world \<Rightarrow> (path \<times> path) list \<Rightarrow> (path \<times> u8 list) list" where
  "staged_files w ps = concat (map (\<lambda>(src, dst). case file_content src w of None \<Rightarrow> [] | Some bytes \<Rightarrow> [(dst, bytes)]) ps)"

lemma stage_all_calm:
  assumes "w_faults w = []" "stage_all ps staging w = (Inr staging', w')"
  shows "w' = w \<and> staging' = staging @ staged_files w ps"
  using assms(2)
proof (induction ps arbitrary: staging)
  case Nil
  then show ?case
    by (simp add: return_io_def staged_files_def)
next
  case (Cons x ps)
  obtain src dst where x: "x = (src, dst)"
    by (cases x)
  from Cons.prems x obtain st w1 where st: "copy_if_exists src dst staging w = (Inr st, w1)" "stage_all ps st w1 = (Inr staging', w')"
    by (auto simp: bind_io_eq_Inr)
  have "w1 = w \<and> st = staging @ staged_files w [x]"
    using st(1) assms(1) x
    by (auto simp: copy_if_exists_def bind_io_def path_exists_calm admin_io_def map_err_io_def temp_io_def prim_calm fs_read_def return_io_def
        staged_files_def file_content_def split: if_splits option.splits)
  with Cons.IH [of st] st(2) show ?case
    by (simp add: staged_files_def)
qed

definition backup_sources :: "DeploymentConfig \<Rightarrow> path \<Rightarrow> (path \<times> path) list" where
  "backup_sources cfg config_path = (config_path, [''deployment.toml'']) # map (\<lambda>(rel, accessor). (accessor cfg, rel)) BACKUP_MANIFEST"

lemma archive_names: "distinct (map snd (backup_sources cfg config_path))"
  by (simp add: backup_sources_def BACKUP_MANIFEST_def)

lemma staged_files_members: "(p, bytes) \<in> set (staged_files w ps) \<longleftrightarrow> (\<exists>src. (src, p) \<in> set ps \<and> file_content src w = Some bytes)"
  by (force simp: staged_files_def split: option.splits)

lemma staged_files_distinct: "distinct (map snd ps) \<Longrightarrow> distinct (map fst (staged_files w ps))"
proof (induction ps)
  case (Cons x ps)
  have "fst ` set (staged_files w ps) \<subseteq> snd ` set ps"
    by (force simp: staged_files_members)
  moreover have "staged_files w (x # ps) = (case file_content (fst x) w of None \<Rightarrow> [] | Some bytes \<Rightarrow> [(snd x, bytes)]) @ staged_files w ps"
    by (simp add: staged_files_def split_beta)
  ultimately show ?case
    using Cons by (auto split: option.splits)
qed (simp add: staged_files_def)

lemma backup_archived:
  assumes "w_faults w = []" "cmd_backup E cfg config_path cwd output w = (Inr dest, w')"
  shows "\<exists>bytes n. ae_tar_build E (staged_files w (backup_sources cfg config_path)) = Inr bytes \<and> w_fs w' dest = Some n \<and> \<not> i_dir n \<and>
    i_content n = bytes \<and> w_faults w' = []"
proof -
  define d where "d = (case output of Some p \<Rightarrow> p | None \<Rightarrow> cwd @ [''vpn1-backup-'' @ show_nat (unat (w_unix_time w)) @ ''.tar''])"
  have "bind_io (admin_io temp_io) (\<lambda>_. bind_io (stage_backup_contents cfg config_path) (\<lambda>staging.
      bind_io (admin_io (open_create_new d mode_0600)) (\<lambda>_. try_io (write_archive E d staging) (\<lambda>r.
      case r of Inr _ \<Rightarrow> return_io d | Inl error \<Rightarrow> bind_io (ignore_io (remove_file d)) (\<lambda>_. fail_io error))))) w = (Inr dest, w')"
    using assms(2) unfolding cmd_backup_def Let_def d_def by (simp only: bind_io_def [of "get_world _"] get_world_def prod.case sum.case)
  then obtain w0 staging w1 w2 r w3 where w0: "admin_io temp_io w = (Inr (), w0)" and st: "stage_backup_contents cfg config_path w0 = (Inr staging, w1)"
    and w2: "admin_io (open_create_new d mode_0600) w1 = (Inr (), w2)" and w3: "write_archive E d staging w2 = (r, w3)"
    and fin: "(case r of Inr _ \<Rightarrow> return_io d | Inl error \<Rightarrow> bind_io (ignore_io (remove_file d)) (\<lambda>_. fail_io error)) w3 = (Inr dest, w')"
    by (simp add: bind_io_eq_Inr try_io_eq) blast
  have "w0 = w"
    using w0 assms(1) by (auto simp: admin_io_def map_err_io_eq_Inr temp_io_def prim_calm)
  note st = st [unfolded this]
  have done_: "r = Inr () \<and> d = dest \<and> w3 = w'"
    using fin by (cases r) (auto simp: bind_io_eq_Inr fail_io_neq_Inr return_io_eq_Inr)
  have "w1 = w" "staging = staged_files w (backup_sources cfg config_path)"
    using stage_all_calm [OF assms(1), of "backup_sources cfg config_path" "[]" staging w1] st
    by (simp_all add: stage_backup_contents_def backup_sources_def)
  then show ?thesis
    using w2 w3 done_ assms(1)
    by (auto simp: write_archive_def bind_io_eq_Inr lift_r_eq_Inr map_err_eq_Inr admin_io_def map_err_io_eq_Inr open_create_new_def prim_calm
        write_all_def sync_all_def append_bytes_def put_node_def new_node_def split: option.splits if_splits)
qed

text \<open>The archive format: it lists each file once with its data, and otherwise only the directories the files are in; every name is relative
  to the packed directory.\<close>

definition archives :: "(path \<times> u8 list) list \<Rightarrow> tar_entry list \<Rightarrow> bool" where
  "archives staging entries \<longleftrightarrow>
     distinct (map te_path entries) \<and>
     (\<forall>e\<in>set entries. unat (te_size e) = length (te_data e) \<and> te_unpack e = Inr True \<and>
        (te_type e = RegularFile \<or> te_type e = Directory \<and> te_data e = [] \<and>
           (\<exists>d. te_path e = CurDir # map Normal d \<and> (d = [] \<or> (\<exists>p\<in>fst ` set staging. strict_prefix d p))))) \<and>
     mset (map (\<lambda>e. (te_path e, te_data e)) (filter (\<lambda>e. te_type e = RegularFile) entries)) =
     mset (map (\<lambda>(p, bytes). (CurDir # map Normal p, bytes)) staging)"

definition tar_ok :: "'s admin_env \<Rightarrow> bool" where
  "tar_ok E \<longleftrightarrow> (\<forall>staging bytes. ae_tar_build E staging = Inr bytes \<longrightarrow>
     (\<exists>entries. ae_tar_entries E bytes = Inr (map Inr entries) \<and> archives staging entries))"

definition entry_name :: "tar_entry \<Rightarrow> path" where
  "entry_name e = map (\<lambda>c. case c of Normal part \<Rightarrow> part | _ \<Rightarrow> []) (tl (te_path e))"

definition unpacked :: "tar_entry list \<Rightarrow> staging" where
  "unpacked entries = map (\<lambda>e. (entry_name e, if te_type e = RegularFile then Some (te_data e) else None)) (filter (\<lambda>e. entry_name e \<noteq> []) entries)"

lemma normalized_plain: "normalized_archive_path (map Normal p) = Inr p"
  by (induction p) (simp_all add: bind_r_def)

definition plain_entry :: "tar_entry \<Rightarrow> bool" where
  "plain_entry e \<longleftrightarrow> te_path e = CurDir # map Normal (entry_name e) \<and> te_unpack e = Inr True \<and> te_type e \<noteq> OtherEntry \<and>
     unat (te_size e) = length (te_data e) \<and> length (te_data e) \<le> unat MAX_ENTRY_BYTES \<and>
     (if entry_name e = [] then te_type e = Directory else is_allowed_backup_path (entry_name e))"

lemma check_plain:
  assumes "plain_entry e" "entry_name e \<noteq> []" "entry_name e \<notin> set seen" "unat tot + length (te_data e) \<le> unat MAX_TOTAL_BYTES"
  shows "check_entry (entry_name e) seen tot e = Inr (tot + te_size e)" "unat (tot + te_size e) = unat tot + length (te_data e)"
proof -
  have size: "unat (te_size e) = length (te_data e)" "te_size e \<le> MAX_ENTRY_BYTES"
    using assms(1) by (auto simp: plain_entry_def word_le_nat_alt)
  have "unat tot + unat (te_size e) < 2 ^ 64"
    using assms(4) size(1) by (simp add: MAX_TOTAL_BYTES_def)
  then show sum: "unat (tot + te_size e) = unat tot + length (te_data e)"
    using size(1) by (simp add: unat_word_ariths)
  then have "tot + te_size e \<le> MAX_TOTAL_BYTES"
    using assms(4) by (simp add: word_le_nat_alt)
  with \<open>unat tot + unat (te_size e) < 2 ^ 64\<close> size(2) show "check_entry (entry_name e) seen tot e = Inr (tot + te_size e)"
    using assms(1-3) by (simp add: check_entry_def plain_entry_def not_less)
qed

lemma extract_accepts:
  assumes "\<forall>e\<in>set entries. plain_entry e" "distinct (map entry_name entries)" "entry_name ` set entries \<inter> set seen = {}"
    "n + length entries \<le> MAX_ENTRIES" "unat tot + sum_list (map (length \<circ> te_data) entries) \<le> unat MAX_TOTAL_BYTES"
  shows "extract_entries (map Inr entries) n seen tot staging = Inr (staging @ unpacked entries)"
  using assms
proof (induction entries arbitrary: n seen tot staging)
  case Nil
  then show ?case
    by (simp add: unpacked_def)
next
  case (Cons e entries)
  have e: "plain_entry e" "normalized_archive_path (te_path e) = Inr (entry_name e)"
    using Cons.prems(1) normalized_plain [of "entry_name e"] by (simp_all add: plain_entry_def)
  show ?case
  proof (cases "entry_name e = []")
    case True
    with e Cons.prems show ?thesis
      using Cons.IH [of seen "n + 1" tot staging] by (simp add: bind_r_def plain_entry_def unpacked_def)
  next
    case False
    have t: "check_entry (entry_name e) seen tot e = Inr (tot + te_size e)" "unat (tot + te_size e) = unat tot + length (te_data e)"
      using check_plain [OF e(1) False, of seen tot] Cons.prems(3,5) by auto
    have "extract_entries (map Inr entries) (n + 1) (entry_name e # seen) (tot + te_size e)
        (staging @ [(entry_name e, if te_type e = RegularFile then Some (te_data e) else None)]) =
      Inr ((staging @ [(entry_name e, if te_type e = RegularFile then Some (te_data e) else None)]) @ unpacked entries)"
      using Cons.prems t(2) by (intro Cons.IH) auto
    with False e(2) t(1) Cons.prems(4) show ?thesis
      by (simp add: bind_r_def map_err_def unpacked_def)
  qed
qed

definition within_limits :: "(path \<times> u8 list) list \<Rightarrow> bool" where
  "within_limits staging \<longleftrightarrow>
     (\<forall>(p, bytes)\<in>set staging. length bytes \<le> 32 * 1024 * 1024) \<and> sum_list (map (length \<circ> snd) staging) \<le> 64 * 1024 * 1024"

lemma entry_name_eq: "te_path e = CurDir # map Normal p \<Longrightarrow> entry_name e = p"
  by (simp add: entry_name_def comp_def)

lemma sum_list_mset:
  fixes f :: "'a \<Rightarrow> nat"
  assumes "mset xs = mset ys"
  shows "sum_list (map f xs) = sum_list (map f ys)"
proof -
  have "sum_mset (mset (map f xs)) = sum_mset (mset (map f ys))"
    using assms by (simp only: mset_map)
  then show ?thesis
    by (simp only: sum_mset_sum_list)
qed

lemma archived_files:
  assumes "archives staging entries"
  shows "e \<in> set entries \<Longrightarrow> te_type e = RegularFile \<Longrightarrow> te_path e = CurDir # map Normal (entry_name e) \<and> (entry_name e, te_data e) \<in> set staging"
    "(p, bytes) \<in> set staging \<Longrightarrow> \<exists>e\<in>set entries. te_type e = RegularFile \<and> entry_name e = p \<and> te_data e = bytes"
    "sum_list (map (length \<circ> te_data) entries) = sum_list (map (length \<circ> snd) staging)"
proof -
  let ?files = "filter (\<lambda>e. te_type e = RegularFile) entries"
  let ?f = "\<lambda>e. (te_path e, te_data e)" and ?g = "\<lambda>(p, bytes). (CurDir # map Normal p, bytes)"
  have m: "mset (map ?f ?files) = mset (map ?g staging)"
    using assms by (simp add: archives_def)
  have sets: "?f ` set ?files = ?g ` set staging"
    using mset_eq_setD [OF m] by (simp only: set_map)
  show "te_path e = CurDir # map Normal (entry_name e) \<and> (entry_name e, te_data e) \<in> set staging" if "e \<in> set entries" "te_type e = RegularFile"
  proof -
    have "?f e \<in> ?g ` set staging"
      using imageI [of e "set ?files" ?f] that sets by (simp only: set_filter) blast
    then obtain p where p: "te_path e = CurDir # map Normal p" "(p, te_data e) \<in> set staging"
      by auto
    show ?thesis
      using p entry_name_eq [OF p(1)] by simp
  qed
  show "\<exists>e\<in>set entries. te_type e = RegularFile \<and> entry_name e = p \<and> te_data e = bytes" if "(p, bytes) \<in> set staging"
  proof -
    have "?g (p, bytes) \<in> ?f ` set ?files"
      using imageI [OF that, of ?g] sets by argo
    then obtain e where e: "e \<in> set ?files" "te_path e = CurDir # map Normal p" "te_data e = bytes"
      by auto
    show ?thesis
      using e entry_name_eq [OF e(2)] by auto
  qed
  have "length (te_data e) = 0" if "e \<in> set entries" "te_type e \<noteq> RegularFile" for e
    using assms that by (auto simp: archives_def)
  then have "sum_list (map (length \<circ> te_data) entries) = sum_list (map (length \<circ> te_data) ?files)"
    by (induction entries) simp_all
  also have "\<dots> = sum_list (map (length \<circ> snd) (map ?f ?files))"
    by (simp add: comp_def)
  also have "\<dots> = sum_list (map (length \<circ> snd) (map ?g staging))"
    using m by (rule sum_list_mset)
  also have "\<dots> = sum_list (map (length \<circ> snd) staging)"
    by (simp add: comp_def split_beta)
  finally show "sum_list (map (length \<circ> te_data) entries) = sum_list (map (length \<circ> snd) staging)" .
qed

text \<open>Every name an archive of a backup can hold.\<close>

definition archive_paths :: "path list" where
  "archive_paths = [[], [''users''], [''reality''], [''hysteria''], [''deployment.toml'']] @ map fst BACKUP_MANIFEST"

definition archive_files :: "path list" where
  "archive_files = [''deployment.toml''] # map fst BACKUP_MANIFEST"

lemma backup_targets: "snd ` set (backup_sources cfg config_path) = set archive_files"
  by (simp add: backup_sources_def image_image split_beta archive_files_def)

lemma archive_paths_closed:
  "list_all (\<lambda>p. p \<noteq> [] \<and> p \<in> set archive_paths \<and> list_all (\<lambda>d. d = p \<or> d \<in> set archive_paths \<and> d \<notin> set archive_files) (prefixes p)) archive_files"
  "list_all (\<lambda>p. p = [] \<or> is_allowed_backup_path p) archive_paths"
  by code_simp+

lemma backup_paths:
  assumes "p \<in> snd ` set (backup_sources cfg config_path)"
  shows "p \<in> set archive_paths" "p \<noteq> []" "strict_prefix d p \<Longrightarrow> d \<in> set archive_paths \<and> d \<notin> snd ` set (backup_sources cfg config_path)"
proof -
  have p: "p \<in> set archive_files"
    using assms by (simp only: backup_targets)
  note closed = bspec [OF archive_paths_closed(1) [unfolded list_all_iff] p]
  then show "p \<in> set archive_paths" "p \<noteq> []"
    by simp_all
  show "strict_prefix d p \<Longrightarrow> d \<in> set archive_paths \<and> d \<notin> snd ` set (backup_sources cfg config_path)"
    using closed unfolding backup_targets strict_prefix_def by (metis in_set_prefixes)
qed

lemma archive_path_allowed: "p \<in> set archive_paths \<Longrightarrow> p \<noteq> [] \<Longrightarrow> is_allowed_backup_path p"
  using bspec [OF archive_paths_closed(2) [unfolded list_all_iff]] by blast

lemma backup_entries:
  assumes A: "archives (staged_files w (backup_sources cfg config_path)) entries" and e: "e \<in> set entries"
  shows "te_path e = CurDir # map Normal (entry_name e)" "entry_name e \<in> set archive_paths" "entry_name e = [] \<Longrightarrow> te_type e = Directory"
    "te_type e \<noteq> OtherEntry" "te_type e = Directory \<Longrightarrow> entry_name e \<notin> snd ` set (backup_sources cfg config_path)"
proof -
  let ?staging = "staged_files w (backup_sources cfg config_path)"
  have sub: "p \<in> snd ` set (backup_sources cfg config_path)" if "p \<in> fst ` set ?staging" for p
    using that by (force simp: staged_files_members)
  have "te_path e = CurDir # map Normal (entry_name e) \<and> entry_name e \<in> set archive_paths \<and> (entry_name e = [] \<longrightarrow> te_type e = Directory) \<and>
    te_type e \<noteq> OtherEntry \<and> (te_type e = Directory \<longrightarrow> entry_name e \<notin> snd ` set (backup_sources cfg config_path))"
  proof (cases "te_type e = RegularFile")
    case True
    note f = archived_files(1) [OF A e True]
    then have "entry_name e \<in> snd ` set (backup_sources cfg config_path)"
      by (intro sub) force
    with f True show ?thesis
      using backup_paths(1,2) by auto
  next
    case False
    with A e obtain d where d: "te_type e = Directory" "te_path e = CurDir # map Normal d" "d = [] \<or> (\<exists>p\<in>fst ` set ?staging. strict_prefix d p)"
      unfolding archives_def by blast
    have "d \<in> set archive_paths \<and> d \<notin> snd ` set (backup_sources cfg config_path)"
      using d(3)
    proof
      assume "d = []"
      then show ?thesis
        using backup_paths(2) by (auto simp: archive_paths_def)
    next
      assume "\<exists>p\<in>fst ` set ?staging. strict_prefix d p"
      then show ?thesis
        using sub backup_paths(3) by blast
    qed
    then show ?thesis
      using d(1,2) entry_name_eq [OF d(2)] by simp
  qed
  then show "te_path e = CurDir # map Normal (entry_name e)" "entry_name e \<in> set archive_paths" "entry_name e = [] \<Longrightarrow> te_type e = Directory"
    "te_type e \<noteq> OtherEntry" "te_type e = Directory \<Longrightarrow> entry_name e \<notin> snd ` set (backup_sources cfg config_path)"
    by blast+
qed

lemma backup_extracts:
  assumes A: "archives (staged_files w (backup_sources cfg config_path)) entries" and lim: "within_limits (staged_files w (backup_sources cfg config_path))"
  shows "extract_entries (map Inr entries) 0 [] 0 [] = Inr (unpacked entries)" "distinct (map fst (unpacked entries))"
proof -
  note E = backup_entries [OF A]
  have "map te_path entries = map (\<lambda>p. CurDir # map Normal p) (map entry_name entries)"
    using E(1) by simp
  moreover have "distinct (map te_path entries)"
    using A by (simp add: archives_def)
  ultimately have "distinct (map (\<lambda>p. CurDir # map Normal p) (map entry_name entries))"
    by argo
  then have dist: "distinct (map entry_name entries)"
    by (rule conjunct1 [OF iffD1 [OF distinct_map]])
  have "set (map entry_name entries) \<subseteq> set archive_paths"
    using E(2) by auto
  then have "card (set (map entry_name entries)) \<le> card (set archive_paths)"
    by (intro card_mono) auto
  also have "\<dots> \<le> length archive_paths"
    by (rule card_length)
  finally have len: "length entries \<le> MAX_ENTRIES"
    using distinct_card [OF dist] by (simp add: archive_paths_def BACKUP_MANIFEST_def MAX_ENTRIES_def)
  have plain: "plain_entry e" if "e \<in> set entries" for e
  proof -
    have "length (te_data e) \<le> 32 * 1024 * 1024"
    proof (cases "te_type e = RegularFile")
      case True
      then show ?thesis
        using archived_files(1) [OF A that] lim by (auto simp: within_limits_def)
    qed (use A that in \<open>auto simp: archives_def\<close>)
    then show ?thesis
      using E [OF that] archive_path_allowed A that by (auto simp: plain_entry_def archives_def MAX_ENTRY_BYTES_def)
  qed
  have "sum_list (map (length \<circ> te_data) entries) \<le> unat MAX_TOTAL_BYTES"
    using archived_files(3) [OF A] lim by (simp add: within_limits_def MAX_TOTAL_BYTES_def)
  then show "extract_entries (map Inr entries) 0 [] 0 [] = Inr (unpacked entries)"
    using extract_accepts [of entries "[]" 0 0 "[]"] plain dist len by simp
  show "distinct (map fst (unpacked entries))"
    using dist by (simp add: unpacked_def comp_def distinct_map_filter)
qed

lemma unpacked_content:
  assumes A: "archives (staged_files w (backup_sources cfg config_path)) entries" and "distinct (map fst (unpacked entries))"
    and src: "(src, p) \<in> set (backup_sources cfg config_path)"
  shows "map_of (unpacked entries) p = map_option Some (file_content src w)"
proof (cases "file_content src w")
  case (Some bytes)
  then have "(p, bytes) \<in> set (staged_files w (backup_sources cfg config_path))"
    using src by (auto simp: staged_files_members)
  from archived_files(2) [OF A this] obtain e where "e \<in> set entries" "te_type e = RegularFile" "entry_name e = p" "te_data e = bytes"
    by blast
  moreover have "p \<noteq> []"
    using src by (intro backup_paths(2)) force
  ultimately have "(p, Some bytes) \<in> set (unpacked entries)"
    by (force simp: unpacked_def)
  with assms(2) Some show ?thesis
    by simp
next
  case None
  have "p \<notin> fst ` set (unpacked entries)"
  proof
    assume "p \<in> fst ` set (unpacked entries)"
    then obtain e where e: "e \<in> set entries" "entry_name e = p"
      by (auto simp: unpacked_def)
    then have "te_type e = RegularFile"
      using backup_entries(4,5) [OF A e(1)] src by (cases "te_type e") force+
    with archived_files(1) [OF A e(1)] e(2) obtain bytes src' where s: "(src', p) \<in> set (backup_sources cfg config_path)" "file_content src' w = Some bytes"
      by (auto simp: staged_files_members)
    have "src' = src"
      using inj_onD [OF conjunct2 [OF archive_names [unfolded distinct_map]] _ s(1) src] by simp
    with s(2) None show False
      by simp
  qed
  with None show ?thesis
    by (simp add: map_of_eq_None_iff)
qed

subsection \<open>Properties\<close>

text \<open>C12. Whatever archive is given to the restore, what comes out of unpacking it is bounded and harmless: at most 32 entries with distinct
  names, every name one of the backup's own, no file larger than 32 MiB, no more than 64 MiB in all; and unpacking changes no file of the host.\<close>

theorem extraction_bounded:
  assumes "\<And>bytes entries. ae_tar_entries E bytes = Inr entries \<Longrightarrow> sizes_ok entries"
    and "extract_validated_backup E archive w = (Inr staging, w')"
  shows "w_fs w' = w_fs w \<and> distinct (map fst staging) \<and> length staging \<le> 32 \<and> list_all is_allowed_backup_path (map fst staging) \<and>
    staged_bytes staging \<le> 64 * 1024 * 1024 \<and>
    list_all (\<lambda>(p, c). case c of Some bytes \<Rightarrow> length bytes \<le> 32 * 1024 * 1024 | None \<Rightarrow> True) staging"
proof -
  have fr: "frame {} (extract_validated_backup E archive)"
    unfolding extract_validated_backup_def admin_io_def by (intro frame_intros)
  have "w_fs w' = w_fs w"
    using frame_step [OF fr assms(2)] by auto
  from assms(2) obtain bytes entries where entries: "ae_tar_entries E bytes = Inr entries" and ex: "extract_entries entries 0 [] 0 [] = Inr staging"
    by (auto simp: extract_validated_backup_def bind_io_eq_Inr lift_r_eq_Inr bind_r_eq_Inr map_err_eq_Inr)
  have "staging_ok 0 [] 0 []"
    by (simp add: staging_ok_def staged_bytes_def)
  from extract_entries_ok [OF ex this assms(1) [OF entries]] obtain n seen tot where ok: "staging_ok n seen tot staging"
    by blast
  moreover have "unat tot \<le> 64 * 1024 * 1024"
    using ok by (simp add: staging_ok_def MAX_TOTAL_BYTES_def word_le_nat_alt)
  ultimately show ?thesis
    using \<open>w_fs w' = w_fs w\<close> by (auto simp: staging_ok_def MAX_ENTRIES_def MAX_ENTRY_BYTES_def list_all_iff)
qed


text \<open>An archive with one more user and another short id, and a host that holds it.\<close>

definition demo_entry :: "string list \<Rightarrow> u8 list \<Rightarrow> tar_entry" where
  "demo_entry p bytes =
     \<lparr>te_path = CurDir # map Normal p, te_type = RegularFile, te_size = of_nat (length bytes), te_data = bytes, te_unpack = Inr True\<rparr>"

definition demo_dir :: "string list \<Rightarrow> tar_entry" where
  "demo_dir p = \<lparr>te_path = CurDir # map Normal p, te_type = Directory, te_size = 0, te_data = [], te_unpack = Inr True\<rparr>"

definition restore_env :: "u8 list list \<Rightarrow> rotation_state admin_env" where
  "restore_env broken = (rotation_env broken)\<lparr>ae_tar_entries := \<lambda>_. Inr (map Inr
     [demo_dir [''reality''], demo_entry [''users'', ''users.json''] [4], demo_entry [''reality'', ''private.key''] (as_bytes ''sk''),
      demo_entry [''reality'', ''public.key''] (as_bytes ''pk''), demo_entry [''reality'', ''short_id.txt''] (as_bytes ''ff00'')])\<rparr>"

definition restore_host :: "rotation_state host" where
  "restore_host = ((fst rotation_host)\<lparr>w_fs := (w_fs (fst rotation_host))([''b.tar''] \<mapsto> demo_node False [5])\<rparr>, snd rotation_host)"

lemma restore_env_sizes: "ae_tar_entries (restore_env broken) bytes = Inr entries \<Longrightarrow> sizes_ok entries"
  by (auto simp: restore_env_def sizes_ok_def demo_entry_def demo_dir_def)

theorem extraction_bounded_witness:
  "\<exists>staging. fst (extract_validated_backup (restore_env []) [''b.tar''] (fst restore_host)) = Inr staging \<and> length staging = 5 \<and>
     staged_bytes staging = 9 \<and> list_all is_allowed_backup_path (map fst staging)"
proof -
  define staging where "staging = [([''reality''], None), ([''users'', ''users.json''], Some [4]), ([''reality'', ''private.key''], Some (as_bytes ''sk'')),
    ([''reality'', ''public.key''], Some (as_bytes ''pk'')), ([''reality'', ''short_id.txt''], Some (as_bytes ''ff00''))]"
  have run: "fst (extract_validated_backup (restore_env []) [''b.tar''] (fst restore_host)) = Inr staging" "length staging = 5" "staged_bytes staging = 9"
    unfolding staging_def by code_simp+
  then obtain w' where w': "extract_validated_backup (restore_env []) [''b.tar''] (fst restore_host) = (Inr staging, w')"
    by (metis prod.collapse)
  have "list_all is_allowed_backup_path (map fst staging)"
    using extraction_bounded [OF _ w'] restore_env_sizes by metis
  with run show ?thesis
    by (intro exI [of _ staging]) simp
qed

text \<open>An archive format that knows one backup.\<close>

definition demo_staging :: "(path \<times> u8 list) list" where
  "demo_staging = [([''users'', ''users.json''], [1]), ([''reality'', ''private.key''], as_bytes ''sk''), ([''reality'', ''public.key''], as_bytes ''pk''),
     ([''reality'', ''short_id.txt''], as_bytes ''0a1b'')]"

definition demo_tar :: "tar_entry list" where
  "demo_tar = demo_dir [] # demo_dir [''reality''] # demo_dir [''users''] # map (\<lambda>(p, bytes). demo_entry p bytes) demo_staging"

definition backup_env :: "rotation_state admin_env" where
  "backup_env = (rotation_env [])\<lparr>ae_tar_build := \<lambda>staging. if staging = demo_staging then Inr [6] else Inl ''unsupported'',
     ae_tar_entries := \<lambda>_. Inr (map Inr demo_tar)\<rparr>"

lemma demo_tar_ok: "tar_ok backup_env"
  unfolding tar_ok_def
proof (intro allI impI)
  fix staging bytes
  assume "ae_tar_build backup_env staging = Inr bytes"
  then have "staging = demo_staging"
    by (simp add: backup_env_def split: if_splits)
  moreover have "archives demo_staging demo_tar"
    by (auto simp: archives_def demo_tar_def demo_dir_def demo_entry_def demo_staging_def strict_prefix_def
        intro: exI [of _ "[''reality'']"] exI [of _ "[''users'']"])
  ultimately show "\<exists>entries. ae_tar_entries backup_env bytes = Inr (map Inr entries) \<and> archives staging entries"
    by (intro exI [of _ demo_tar]) (simp add: backup_env_def)
qed


end
