(* ===== verification/Admin_Restore.thy ===== *)
theory Admin_Restore
  imports Admin_Archive
begin

text \<open>
  What a restore guarantees (\<^verbatim>\<open>cmd_restore\<close> of the admin tool, on a disk that works). The steps of the transaction come first: saving the users,
  installing a staged file and setting its permissions keep the backups of all files of the manifest intact, so that going back is always possible.
  Then the two directions, forward and back, end in a host whose stored users are served. Last, everything before the first backup
  leaves the live files and both services alone.
\<close>

subsection \<open>The steps of the transaction\<close>

lemma save_apart:
  "reality_dir cfg @ [n] \<notin> set (prefixes (users_dir cfg)) \<union> save_paths cfg"
  "hysteria_dir cfg @ [n] \<notin> set (prefixes (users_dir cfg)) \<union> save_paths cfg"
  "users_dir cfg @ [''users.json.rotate-bak''] \<notin> set (prefixes (users_dir cfg)) \<union> save_paths cfg"
  "reality_dir cfg \<notin> save_paths cfg" "hysteria_dir cfg \<notin> save_paths cfg" "users_dir cfg \<notin> save_paths cfg"
proof -
  have long: "\<not> prefix (d @ [n]) (users_dir cfg)" if "length d = length (users_dir cfg)" for d n
    using that by (auto dest: prefix_length_le)
  have dirs: "length (reality_dir cfg) = length (users_dir cfg)" "length (hysteria_dir cfg) = length (users_dir cfg)"
    by (simp_all add: reality_dir_def hysteria_dir_def users_dir_def)
  have named: "d = users_dir cfg \<and> n \<noteq> ''users.json.rotate-bak''" if "d @ [n] \<in> save_paths cfg" for d n
    using save_path_names [OF that] by (auto simp: users_file_in)
  show "reality_dir cfg @ [n] \<notin> set (prefixes (users_dir cfg)) \<union> save_paths cfg"
    "hysteria_dir cfg @ [n] \<notin> set (prefixes (users_dir cfg)) \<union> save_paths cfg"
    "users_dir cfg @ [''users.json.rotate-bak''] \<notin> set (prefixes (users_dir cfg)) \<union> save_paths cfg"
    using long dirs by (auto dest: named simp: dirs_apart)
  show "reality_dir cfg \<notin> save_paths cfg" "hysteria_dir cfg \<notin> save_paths cfg" "users_dir cfg \<notin> save_paths cfg"
    by (auto dest!: save_path_names simp: users_file_in dirs_no_file)
qed

lemma save_elsewhere:
  "p \<in> set (manifest_files cfg) \<Longrightarrow> rotate_backup_path p \<notin> set (prefixes (users_dir cfg)) \<union> save_paths cfg"
  "p \<in> set (map snd (restore_targets cfg)) \<Longrightarrow> p \<notin> set (prefixes (users_dir cfg)) \<union> save_paths cfg"
  "p \<in> set (manifest_files cfg) \<Longrightarrow> butlast p \<notin> save_paths cfg"
  unfolding manifest_files_def targets_simps users_file_in 
  by (auto simp: rotate_backup_path_def path_suffix_app save_apart [simplified])

lemma save_in_transaction:
  assumes "in_transaction (manifest_files cfg) w0 w" "save_users_atomic J dbg (users_file cfg) users w = (r, w')"
  shows "in_transaction (manifest_files cfg) w0 w'" "p \<in> set (map snd (restore_targets cfg)) \<Longrightarrow> w_fs w' p = w_fs w p"
proof -
  have same: "w_fs w' q = w_fs w q" if "q \<notin> set (prefixes (users_dir cfg)) \<union> save_paths cfg" for q
    by (rule frame_step [OF frame_save_fine assms(2) that])
  show targets: "w_fs w' p = w_fs w p" if "p \<in> set (map snd (restore_targets cfg))" for p
    using same save_elsewhere(2) [OF that] by blast
  have users: "is_dir_at (users_file cfg) w' \<Longrightarrow> is_dir_at (users_file cfg) w"
    using save_users_cases [OF assms(2)] by (auto simp: is_dir_at_def holds_data_def split: sum.splits option.splits)
  show "in_transaction (manifest_files cfg) w0 w'"
  proof (rule in_transaction_cong [OF assms(1)])
    show "w_faults w' = []"
      using faultlessD [OF faultless_save assms(2)] assms(1) by (simp add: in_transaction_def)
    fix p
    assume p: "p \<in> set (manifest_files cfg)"
    show "w_fs w' (rotate_backup_path p) = w_fs w (rotate_backup_path p)"
      using same save_elsewhere(1) [OF p] by blast
    show "is_dir_at (butlast p) w \<Longrightarrow> is_dir_at (butlast p) w'"
      using keeps_dirsD [OF save_keeps_dirs assms(2) save_elsewhere(3) [OF p]] .
    show "is_dir_at p w' \<Longrightarrow> is_dir_at p w"
      using p users targets [of p] by (cases "p = users_file cfg") (simp_all add: manifest_files_def is_dir_at_def)
  qed
qed

text \<open>Permissions and ownership of a file of the transaction.\<close>

lemma perms_effect:
  "file_content p (snd (set_permissions p m w)) = file_content p w \<and> is_dir_at p (snd (set_permissions p m w)) = is_dir_at p w"
  "file_content p (snd (chown p u g w)) = file_content p w \<and> is_dir_at p (snd (chown p u g w)) = is_dir_at p w"
  by (auto simp: set_permissions_def chown_def prim_def file_content_def is_dir_at_def put_node_def split: list.splits fault.splits option.splits)

lemma policy_effect:
  assumes "apply_restored_file_policy E p grp w = (r, w')"
  shows "\<And>q. q \<noteq> p \<Longrightarrow> w_fs w' q = w_fs w q" "file_content p w' = file_content p w" "is_dir_at p w' = is_dir_at p w"
    "w_faults w = [] \<Longrightarrow> w_faults w' = []"
proof -
  have "frame {p} (apply_restored_file_policy E p grp)" "faultless (apply_restored_file_policy E p grp)"
    unfolding apply_restored_file_policy_def admin_io_def by (auto intro!: frame_intros faultless_intros split: option.split)
  then show "\<And>q. q \<noteq> p \<Longrightarrow> w_fs w' q = w_fs w q" "w_faults w = [] \<Longrightarrow> w_faults w' = []"
    using frame_step [where m = "apply_restored_file_policy E p grp", OF _ assms] faultlessD [where m = "apply_restored_file_policy E p grp", OF _ assms]
    by auto
  obtain r1 w1 where w1: "set_permissions p mode_0640 w = (r1, w1)"
    by (metis surj_pair)
  have "file_content p w' = file_content p w1 \<and> is_dir_at p w' = is_dir_at p w1"
  proof (cases "r1 = Inr () \<and> w_euid w1 = 0 \<and> ae_group E grp \<noteq> None")
    case True
    then obtain gid where gid: "ae_group E grp = Some gid"
      by auto
    obtain r2 w2 where w2: "chown p 0 gid w1 = (r2, w2)"
      by (metis surj_pair)
    have "w' = w2"
      using True gid w1 w2 assms
      by (cases r2) (auto simp: apply_restored_file_policy_def admin_io_def bind_io_def map_err_io_def get_world_def)
    with perms_effect(2) [of p 0 gid w1] w2 show ?thesis
      by simp
  next
    case False
    then have "w' = w1"
      using w1 assms by (cases r1)
        (auto simp: apply_restored_file_policy_def admin_io_def bind_io_def map_err_io_def get_world_def return_io_def fail_io_def
          split: if_splits option.splits)
    then show ?thesis
      by simp
  qed
  then show "file_content p w' = file_content p w" "is_dir_at p w' = is_dir_at p w"
    using perms_effect(1) [of p mode_0640 w] w1 by simp_all
qed

lemma policy_in_transaction:
  assumes "in_transaction ps w0 w" "apart ps" "p \<in> set ps" "apply_restored_file_policy E p grp w = (r, w')"
  shows "in_transaction ps w0 w'"
proof (rule in_transaction_cong [OF assms(1)])
  note eff = policy_effect [OF assms(4)]
  show "w_faults w' = []"
    using eff(4) assms(1) by (simp add: in_transaction_def)
  fix q
  assume q: "q \<in> set ps"
  then have "rotate_backup_path q \<noteq> p" "butlast q \<noteq> p"
    using assms(2,3) by (auto simp: apart_def)
  then show "w_fs w' (rotate_backup_path q) = w_fs w (rotate_backup_path q)" "is_dir_at (butlast q) w \<Longrightarrow> is_dir_at (butlast q) w'"
    using eff(1) by (auto simp: is_dir_at_def)
  show "is_dir_at q w' \<Longrightarrow> is_dir_at q w"
    using eff(1,3) by (cases "q = p") (auto simp: is_dir_at_def)
qed

lemma staged_calm:
  assumes "w_faults w = []"
  shows "staged_exists staging p w = (Inr (map_of staging p \<noteq> None), w)"
    "staged_read staging p w = (case map_of staging p of None \<Rightarrow> Inl enoent | Some None \<Rightarrow> Inl eisdir | Some (Some bytes) \<Rightarrow> Inr bytes, w)"
  using assms
  by (auto simp: staged_exists_def staged_read_def temp_io_def prim_calm try_io_def bind_io_def return_io_def lift_r_def split: option.splits)

lemma from_utf8_bytes: "from_utf8 bytes = Some str \<Longrightarrow> as_bytes str = bytes"
  by (simp add: from_utf8_eq_Some)

lemma install_one:
  assumes "in_transaction ps w0 w" "apart ps" "p \<in> set ps" "install_rotated_key_file E p str w = (r, w1)"
  shows "in_transaction ps w0 w1" "\<And>q. q \<in> set ps \<Longrightarrow> q \<noteq> p \<Longrightarrow> w_fs w1 q = w_fs w q" "r = Inr () \<Longrightarrow> file_content p w1 = Some (as_bytes str)"
proof -
  show "in_transaction ps w0 w1"
    by (rule install_in_transaction [OF assms])
  have p: "p \<noteq> []"
    using assms(2,3) by (simp add: apart_def)
  show "w_fs w1 q = w_fs w q" if "q \<in> set ps" "q \<noteq> p" for q
  proof (rule frame_step [OF frame_install assms(4)])
    show "q \<notin> {p, path_suffix p ''.rotate-tmp''}"
      using that assms(2,3) by (auto simp: apart_def)
  qed simp_all
  show "file_content p w1 = Some (as_bytes str)" if "r = Inr ()"
    using install_succeeds [of E p str w w1] assms(4) p that by (auto simp: file_content_def holds_data_def split: option.splits)
qed

text \<open>One target: the run ends with it, or goes on with what was staged for it in place.\<close>

lemma install_staged_step:
  assumes "install_staged E staging ((rel, p) # ts) w = (r, w')" "in_transaction ps w0 w" "apart ps" "p \<in> set ps"
  shows "\<exists>w1. in_transaction ps w0 w1 \<and> (\<forall>q\<in>set ps. q \<noteq> p \<longrightarrow> w_fs w1 q = w_fs w q) \<and>
    (r \<noteq> Inr () \<and> w' = w1 \<or> install_staged E staging ts w1 = (r, w') \<and>
       file_content p w1 = (case map_of staging rel of None \<Rightarrow> file_content p w | Some c \<Rightarrow> c))"
proof -
  have calm: "w_faults w = []"
    using assms(2) by (simp add: in_transaction_def)
  show ?thesis
  proof (cases "\<exists>bytes str. map_of staging rel = Some (Some bytes) \<and> from_utf8 bytes = Some str")
    case True
    then obtain bytes str where c: "map_of staging rel = Some (Some bytes)" "from_utf8 bytes = Some str"
      by auto
    obtain r1 w1 where w1: "install_rotated_key_file E p str w = (r1, w1)"
      by (metis surj_pair)
    obtain r2 w2 where w2: "apply_restored_file_policy E p (restored_group rel) w1 = (r2, w2)"
      by (metis surj_pair)
    note one = install_one [OF assms(2-4) w1]
    note eff = policy_effect [OF w2]
    have two: "in_transaction ps w0 w2"
      by (rule policy_in_transaction [OF one(1) assms(3,4) w2])
    have "install_staged E staging ((rel, p) # ts) w = (case r1 of Inl e \<Rightarrow> (Inl e, w1) | Inr _ \<Rightarrow>
        (case r2 of Inl e \<Rightarrow> (Inl e, w2) | Inr _ \<Rightarrow> install_staged E staging ts w2))"
      using c w1 w2
      by (cases r1; cases r2) (simp_all add: bind_io_def admin_io_def map_err_io_def lift_r_def ok_or_def staged_calm [OF calm])
    note run = trans [OF assms(1) [symmetric] this]
    show ?thesis
    proof (cases "r1 = Inr () \<and> r2 = Inr ()")
      case True
      then have "file_content p w2 = Some bytes" "install_staged E staging ts w2 = (r, w')"
        using one(3) eff(2) from_utf8_bytes [OF c(2)] run by simp_all
      then show ?thesis
        using two one(2) eff(1) c by (intro exI [of _ w2]) simp
    next
      case False
      with run have "(w' = w1 \<or> w' = w2) \<and> r \<noteq> Inr ()"
        by (cases r1; cases r2) auto
      then show ?thesis
        using one(1,2) two eff(1) by (intro exI [of _ w']) auto
    qed
  next
    case False
    with assms(1) have "w' = w \<and> r \<noteq> Inr () \<or> map_of staging rel = None \<and> install_staged E staging ts w = (r, w')"
      by (cases "map_of staging rel")
        (auto simp: bind_io_def admin_io_def map_err_io_def lift_r_def ok_or_def staged_calm [OF calm] split: option.splits)
    with assms(2) show ?thesis
      by (intro exI [of _ w]) auto
  qed
qed

lemma install_staged_result:
  assumes "install_staged E staging ts w = (r, w')" "in_transaction ps w0 w" "apart ps" "snd ` set ts \<subseteq> set ps" "distinct (map snd ts)"
  shows "in_transaction ps w0 w' \<and> (\<forall>q\<in>set ps. q \<notin> snd ` set ts \<longrightarrow> w_fs w' q = w_fs w q) \<and>
    (r = Inr () \<longrightarrow> (\<forall>(rel, p)\<in>set ts. file_content p w' = (case map_of staging rel of None \<Rightarrow> file_content p w | Some c \<Rightarrow> c)))"
  using assms
proof (induction ts arbitrary: w)
  case Nil
  then show ?case
    by (auto simp: return_io_def)
next
  case (Cons t ts)
  obtain rel p where t: "t = (rel, p)"
    by (cases t)
  have p: "p \<in> set ps" "p \<notin> snd ` set ts"
    using Cons.prems(4,5) t by auto
  from install_staged_step [OF Cons.prems(1) [unfolded t] Cons.prems(2,3) p(1)] obtain w1
    where w1: "in_transaction ps w0 w1" "\<forall>q\<in>set ps. q \<noteq> p \<longrightarrow> w_fs w1 q = w_fs w q"
      and run: "r \<noteq> Inr () \<and> w' = w1 \<or> install_staged E staging ts w1 = (r, w') \<and>
        file_content p w1 = (case map_of staging rel of None \<Rightarrow> file_content p w | Some c \<Rightarrow> c)"
    by blast
  from run show ?case
  proof
    assume "r \<noteq> Inr () \<and> w' = w1"
    with w1 show ?thesis
      by (auto simp: t)
  next
    assume go: "install_staged E staging ts w1 = (r, w') \<and>
      file_content p w1 = (case map_of staging rel of None \<Rightarrow> file_content p w | Some c \<Rightarrow> c)"
    then have IH: "in_transaction ps w0 w'" "\<forall>q\<in>set ps. q \<notin> snd ` set ts \<longrightarrow> w_fs w' q = w_fs w1 q"
      "r = Inr () \<Longrightarrow> \<forall>(rel, p)\<in>set ts. file_content p w' = (case map_of staging rel of None \<Rightarrow> file_content p w1 | Some c \<Rightarrow> c)"
      using Cons.IH [OF _ w1(1) Cons.prems(3)] Cons.prems(4,5) by auto
    have "file_content p w' = file_content p w1"
      using IH(2) p by (simp add: file_content_def)
    moreover have same: "file_content (snd x) w1 = file_content (snd x) w" if "x \<in> set ts" for x
    proof -
      have "snd x \<in> set ps" "snd x \<noteq> p"
        using that p(2) Cons.prems(4) by auto
      then show ?thesis
        using w1(2) by (simp add: file_content_def)
    qed
    ultimately have "\<forall>x\<in>set (t # ts). file_content (snd x) w' = (case map_of staging (fst x) of None \<Rightarrow> file_content (snd x) w | Some c \<Rightarrow> c)"
      if "r = Inr ()"
      using IH(3) [OF that] go t by (simp add: split_beta cong: option.case_cong)
    moreover have "\<forall>q\<in>set ps. q \<notin> snd ` set (t # ts) \<longrightarrow> w_fs w' q = w_fs w q"
      using IH(2) w1(2) t by simp
    ultimately show ?thesis
      using IH(1) by (simp add: split_beta)
  qed
qed

lemma manifest_apart: "apart (manifest_files cfg)" "distinct (map snd (restore_targets cfg))" "users_file cfg \<notin> snd ` set (restore_targets cfg)"
proof -
  show "apart (manifest_files cfg)"
    using manifest_transactable(1) [of cfg] by (simp add: transactable_def)
  then have "distinct (manifest_files cfg)"
    by (simp add: apart_def)
  then show "distinct (map snd (restore_targets cfg))" "users_file cfg \<notin> snd ` set (restore_targets cfg)"
    by (simp_all add: manifest_files_def)
qed

lemma sync_dirs_same: "frame {} (bind_io (fsync_dir d) (\<lambda>_. fsync_dir d'))" "faultless (bind_io (fsync_dir d) (\<lambda>_. fsync_dir d'))"
  unfolding fsync_dir_def by (auto intro!: frame_intros faultless_intros)

lemma install_all_result:
  assumes "install_all E cfg staging users w = (r, w')" "in_transaction (manifest_files cfg) w0 w"
  shows "in_transaction (manifest_files cfg) w0 w'"
    "r = Inr () \<Longrightarrow> file_content (users_file cfg) w' = file_content (users_file cfg) (snd (save_users_atomic (ae_users_json E) (ae_dbg E) (users_file cfg) users w))"
    "r = Inr () \<Longrightarrow> fst (save_users_atomic (ae_users_json E) (ae_dbg E) (users_file cfg) users w) = Inr ()"
    "r = Inr () \<Longrightarrow> (rel, p) \<in> set (restore_targets cfg) \<Longrightarrow>
       file_content p w' = (case map_of staging rel of None \<Rightarrow> file_content p w | Some c \<Rightarrow> c)"
proof -
  let ?ps = "manifest_files cfg" and ?u = "users_file cfg"
  note apart = manifest_apart [of cfg]
  have u: "?u \<in> set ?ps" and ts: "snd ` set (restore_targets cfg) \<subseteq> set ?ps"
    by (auto simp: manifest_files_def)
  obtain r1 w1 where w1: "save_users_atomic (ae_users_json E) (ae_dbg E) ?u users w = (r1, w1)"
    by (metis surj_pair)
  obtain r2 w2 where w2: "apply_restored_file_policy E ?u ''vpn-subscription'' w1 = (r2, w2)"
    by (metis surj_pair)
  obtain r3 w3 where w3: "install_staged E staging (restore_targets cfg) w2 = (r3, w3)"
    by (metis surj_pair)
  obtain r4 w4 where w4: "bind_io (fsync_dir (reality_dir cfg)) (\<lambda>_. fsync_dir (hysteria_dir cfg)) w3 = (r4 :: admin_error + unit, w4)"
    by (metis surj_pair)
  note save = save_in_transaction [OF assms(2) w1]
  note pol = policy_in_transaction [OF save(1) apart(1) u w2]
  note inst = install_staged_result [OF w3 pol apart(1) ts apart(2)]
  have same: "w_fs w4 q = w_fs w3 q" for q
    using frame_step [OF sync_dirs_same(1) w4] by simp
  have "w_faults w3 = []"
    using inst by (simp add: in_transaction_def)
  then have fin: "in_transaction ?ps w0 w4"
    using faultlessD [OF sync_dirs_same(2) w4] same
    by (intro in_transaction_cong [OF conjunct1 [OF inst]]) (simp_all add: is_dir_at_def)
  have "install_all E cfg staging users w = (case r1 of Inl e \<Rightarrow> (Inl (AdminCompat e), w1) | Inr _ \<Rightarrow> (case r2 of Inl e \<Rightarrow> (Inl e, w2) | Inr _ \<Rightarrow>
      (case r3 of Inl e \<Rightarrow> (Inl e, w3) | Inr _ \<Rightarrow> (r4, w4))))"
    using w1 w2 w3 w4
    by (cases r1; cases r2; cases r3) (simp_all add: install_all_def bind_io_def [of _ "\<lambda>_. bind_io _ _"] map_err_io_def)
  note run = trans [OF assms(1) [symmetric] this]
  then have "w' \<in> {w1, w2, w3, w4}"
    by (cases r1; cases r2; cases r3) simp_all
  then show "in_transaction ?ps w0 w'"
    using save(1) pol conjunct1 [OF inst] fin by blast
  assume "r = Inr ()"
  with run have ok: "r1 = Inr ()" "r3 = Inr ()" "w' = w4"
    by (cases r1; cases r2; cases r3; simp)+
  show "fst (save_users_atomic (ae_users_json E) (ae_dbg E) ?u users w) = Inr ()"
    using ok w1 by simp
  have "w_fs w' ?u = w_fs w2 ?u"
    using ok same inst u apart(3) by simp
  then show "file_content ?u w' = file_content ?u (snd (save_users_atomic (ae_users_json E) (ae_dbg E) ?u users w))"
    using policy_effect(2) [OF w2] w1 by (simp add: file_content_def)
  assume t: "(rel, p) \<in> set (restore_targets cfg)"
  then have p: "p \<in> set (map snd (restore_targets cfg))" "p \<noteq> ?u"
    using apart(3) by force+
  have "file_content p w' = (case map_of staging rel of None \<Rightarrow> file_content p w2 | Some c \<Rightarrow> c)"
    using bspec [OF mp [OF conjunct2 [OF conjunct2 [OF inst]] ok(2)] t] ok(3) same by (simp add: file_content_def)
  moreover have "file_content p w2 = file_content p w"
    using save(2) [OF p(1)] policy_effect(1) [OF w2 p(2)] by (simp add: file_content_def)
  ultimately show "file_content p w' = (case map_of staging rel of None \<Rightarrow> file_content p w | Some c \<Rightarrow> c)"
    by (cases "map_of staging rel") simp_all
qed

text \<open>These users are served: they are what is stored, the server runs a configuration rendered for them from the files in place,
  and the subscription service advertises those files.\<close>

definition in_service ::
    "'s admin_env \<Rightarrow> DeploymentConfig \<Rightarrow> ('s \<Rightarrow> u8 list option) \<Rightarrow> ('s \<Rightarrow> u8 list option \<times> u8 list option \<times> u8 list option) \<Rightarrow>
     CompatUser list \<Rightarrow> 's host \<Rightarrow> bool" where
  "in_service E cfg running advertised users h \<longleftrightarrow>
     stored_users E cfg h = Inr users \<and>
     (\<exists>h1. (\<forall>p\<in>set (manifest_files cfg). w_fs (fst h1) p = w_fs (fst h) p) \<and> in_force E cfg running users h1 h) \<and>
     advertised (snd h) = sub_view cfg (fst h)"

lemma manifest_members:
  "users_file cfg \<in> set (manifest_files cfg)" "reality_public_key_file cfg \<in> set (manifest_files cfg)"
  "short_id_file cfg \<in> set (manifest_files cfg)" "hysteria_obfs_password_file cfg \<in> set (manifest_files cfg)"
  by (simp_all add: manifest_files_def targets_simps key_paths)

lemma manifest_not_service:
  assumes "p \<in> set (manifest_files cfg)"
  shows "p \<notin> service_paths cfg" "rotate_backup_path p \<notin> service_paths cfg" "butlast p \<notin> service_paths cfg"
    "q \<in> set (manifest_files cfg) \<Longrightarrow> rotate_backup_path p \<noteq> q"
proof -
  have T: "txn_paths (manifest_files cfg) \<inter> service_paths cfg = {}" "butlast ` set (manifest_files cfg) \<inter> service_paths cfg = {}"
    "apart (manifest_files cfg)"
    using manifest_transactable(1) [of cfg] by (simp_all add: transactable_def)
  have "p \<in> txn_paths (manifest_files cfg)" "rotate_backup_path p \<in> txn_paths (manifest_files cfg)" "butlast p \<in> butlast ` set (manifest_files cfg)"
    using assms by (simp_all add: txn_paths_def)
  then show "p \<notin> service_paths cfg" "rotate_backup_path p \<notin> service_paths cfg" "butlast p \<notin> service_paths cfg"
    using T(1,2) by blast+
  show "rotate_backup_path p \<noteq> q" if "q \<in> set (manifest_files cfg)"
    using T(3) assms that by (simp add: apart_def)
qed

lemma in_service_cong:
  assumes "in_service E cfg running advertised users h" "snd h' = snd h"
    and "\<And>p. p \<in> set (manifest_files cfg) \<union> {singbox_config_file cfg} \<Longrightarrow> w_fs (fst h') p = w_fs (fst h) p"
  shows "in_service E cfg running advertised users h'"
proof -
  have same: "\<And>p. p \<in> set (manifest_files cfg) \<Longrightarrow> w_fs (fst h') p = w_fs (fst h) p"
    "w_fs (fst h') (singbox_config_file cfg) = w_fs (fst h) (singbox_config_file cfg)"
    using assms(3) by auto
  have force: "in_force E cfg running users h1 h \<Longrightarrow> in_force E cfg running users h1 h'" for h1
    using assms(2) same(2) by (simp add: in_force_def installed_def live_bytes_def same_running_def)
  have "sub_view cfg (fst h') = sub_view cfg (fst h)" "stored_users E cfg h' = stored_users E cfg h"
    using same(1) manifest_members [of cfg] by (simp_all add: sub_view_def file_content_def stored_users_def)
  then show ?thesis
    using assms(1,2) force same(1) unfolding in_service_def by auto
qed

lemma regenerated_in_service:
  assumes setting: "rotation_setting E cfg running advertised" "\<not> ae_offline E" "w_faults (fst h) = []"
    and run: "regenerate_singbox_config E cfg True h = (Inr b, h1)"
    and sub: "fst h2 = fst h1" "same_running running h1 h2" "advertised (snd h2) = sub_view cfg (fst h2)"
  shows "\<exists>users. stored_users E cfg h = Inr users \<and> in_service E cfg running advertised users h2"
    "p \<in> set (manifest_files cfg) \<Longrightarrow> w_fs (fst h2) p = w_fs (fst h) p"
proof -
  note res = regenerate_result [OF setting run]
  show same: "w_fs (fst h2) p = w_fs (fst h) p" if "p \<in> set (manifest_files cfg)" for p
    using res(3) manifest_not_service(1) [OF that] sub(1) by simp
  obtain users where users: "stored_users E cfg h = Inr users" "in_force E cfg running users h h1"
    using res(1) by blast
  have "in_force E cfg running users h h2"
    using users(2) sub(1,2) by (auto simp: in_force_def installed_def live_bytes_def same_running_def)
  moreover have "stored_users E cfg h2 = Inr users"
    using users(1) same manifest_members(1) [of cfg] by (simp add: stored_users_def)
  ultimately show "\<exists>users. stored_users E cfg h = Inr users \<and> in_service E cfg running advertised users h2"
    unfolding in_service_def using users(1) same sub(3) by (metis (no_types))
qed

lemma regenerate_in_transaction:
  assumes setting: "rotation_setting E cfg running advertised" "\<not> ae_offline E" "in_transaction (manifest_files cfg) w0 (fst h)"
    and run: "regenerate_singbox_config E cfg live h = (r, h')"
  shows "in_transaction (manifest_files cfg) w0 (fst h')"
proof (rule in_transaction_cong [OF assms(3)])
  show "w_faults (fst h') = []"
    using steadyD [OF regenerate_calm run] assms(3) by (simp add: calm_def in_transaction_def)
  have same: "w_fs (fst h') q = w_fs (fst h) q" if "q \<notin> service_paths cfg" for q
    using steadyD [OF regenerate_same_files run] that by (simp add: same_files_def)
  fix p
  assume "p \<in> set (manifest_files cfg)"
  note p = manifest_not_service [OF this]
  show "w_fs (fst h') (rotate_backup_path p) = w_fs (fst h) (rotate_backup_path p)" "is_dir_at p (fst h') \<Longrightarrow> is_dir_at p (fst h)"
    "is_dir_at (butlast p) (fst h) \<Longrightarrow> is_dir_at (butlast p) (fst h')"
    using same p by (simp_all add: is_dir_at_def)
qed

lemma sub_reload_result:
  assumes setting: "rotation_setting E cfg running advertised" and run: "reload_if_available E sub_mgr h = (r, h')"
  shows "fst h' = fst h" "same_running running h h'" "r = Inr b \<Longrightarrow> advertised (snd h') = sub_view cfg (fst h')"
proof -
  note sv = rotation_services [OF setting]
  show fst: "fst h' = fst h"
    using reload_if_available_result(1) [OF sv(1) _ sv(3) run] by simp
  show "same_running running h h'"
    using reload_if_available_result(3) [OF sv(1) _ sv(2) run sv(4)] by simp
  show "advertised (snd h') = sub_view cfg (fst h')" if "r = Inr b"
    using reload_if_available_result(4) [OF sv(1) _ sv(3) run _ that] fst by simp
qed

lemma rollback_reload:
  fixes r :: "'e + bool"
  assumes setting: "rotation_setting E cfg running advertised"
    and run: "bind_io (service_available (ae_systemd E) sub_mgr) (\<lambda>available.
      if available then try_io (reload_and_verify (ae_systemd E) sub_mgr) (\<lambda>r. return_io (r = Inr ())) else return_io (ae_offline E)) h = (r, h')"
  shows "fst h' = fst h" "same_running running h h'" "\<exists>ok. r = Inr ok \<and> (ok \<longrightarrow> advertised (snd h') = sub_view cfg (fst h'))"
proof -
  note sv = rotation_services [OF setting]
  obtain h1 where h1: "service_available (ae_systemd E) sub_mgr h = (Inr True :: 'e + bool, h1)"
    using service_available_units [OF sv(1)] by blast
  obtain rl h2 where h2: "reload_and_verify (ae_systemd E) sub_mgr h1 = (rl, h2)"
    by (metis surj_pair)
  have res: "h' = h2" "r = Inr (rl = Inr ())"
    using run h1 h2 by (simp_all add: bind_io_def try_io_def return_io_def)
  have same: "fst h2 = fst h1"
    using steadyD [OF reload_same_disk(2) h2] by (simp add: same_disk_def)
  then show "fst h' = fst h" "same_running running h h'"
    using service_available_same [OF sv(2) h1] reload_other_service [OF sv(2,4) h2] res(1) by (simp_all add: same_running_def)
  have "rl = Inr () \<Longrightarrow> advertised (snd h2) = sub_view cfg (fst h2)"
    using reload_and_verify_loads(2) [OF sv(3)] h2 same by simp
  then show "\<exists>ok. r = Inr ok \<and> (ok \<longrightarrow> advertised (snd h') = sub_view cfg (fst h'))"
    using res by simp
qed

text \<open>Whatever the restore had reached, going back puts the files back; and if it reports that it recovered, the users
  they hold are served again.\<close>

lemma restore_rollback_result:
  fixes r :: "'e + bool"
  assumes setting: "rotation_setting E cfg running advertised" "\<not> ae_offline E" and mid: "in_transaction (manifest_files cfg) w0 (fst h)"
    and run: "restore_rollback E cfg (existing w0 (manifest_files cfg)) h = (r, h')"
  shows "\<exists>recovered. r = Inr recovered \<and> (\<forall>p\<in>set (manifest_files cfg). w_fs (fst h') p = w_fs w0 p) \<and>
    (recovered \<longrightarrow> (\<exists>users. in_service E cfg running advertised users h'))"
proof -
  from undo_calm [OF mid manifest_apart(1), where 'e = 'e] obtain w1
    where w1: "undo_files (existing w0 (manifest_files cfg)) (fst h) = (Inr True :: 'e + bool, w1)" "w_faults w1 = []"
      "\<forall>p\<in>set (manifest_files cfg). w_fs w1 p = w_fs w0 p"
    unfolding existing_def by blast
  let ?h1 = "(w1, snd h)"
  have d: "disk (undo_files (existing w0 (manifest_files cfg))) h = (Inr True :: 'e + bool, ?h1)"
    using w1(1) by (simp add: disk_def)
  obtain rg h2 where h2: "regenerate_singbox_config E cfg True ?h1 = (rg, h2)"
    by (metis surj_pair)
  obtain rs h3 where h3: "bind_io (service_available (ae_systemd E) sub_mgr) (\<lambda>available.
      if available then try_io (reload_and_verify (ae_systemd E) sub_mgr) (\<lambda>r. return_io (r = Inr ())) else return_io (ae_offline E)) h2
      = (rs :: 'e + bool, h3)"
    by (metis surj_pair)
  note sub = rollback_reload [OF setting(1) h3]
  then obtain ok where ok: "rs = Inr ok" "ok \<longrightarrow> advertised (snd h3) = sub_view cfg (fst h3)"
    by blast
  have res: "h' = h3" "r = Inr ((case rg of Inr _ \<Rightarrow> True | Inl _ \<Rightarrow> False) \<and> ok)"
    using run d h2 h3 ok(1) by (auto simp: restore_rollback_def bind_io_def try_io_def return_io_def split: prod.splits sum.splits)
  have calm: "w_faults (fst ?h1) = []"
    using w1(2) by simp
  have "w_fs (fst h3) p = w_fs w0 p" if "p \<in> set (manifest_files cfg)" for p
    using regenerate_result(3) [OF setting calm h2 manifest_not_service(1) [OF that]] sub(1) w1(3) that by simp
  moreover have "\<exists>users. in_service E cfg running advertised users h3" if "rg = Inr b" ok for b
    using regenerated_in_service(1) [OF setting calm _ sub(1,2)] h2 that ok(2) by blast
  ultimately show ?thesis
    using res by (auto split: sum.splits)
qed

lemma restore_failed_result:
  assumes setting: "rotation_setting E cfg running advertised" "\<not> ae_offline E" and mid: "in_transaction (manifest_files cfg) w0 (fst h)"
    and run: "restore_failed E cfg (existing w0 (manifest_files cfg)) stage h = (r, h')"
  shows "\<exists>recovered. r = Inl (RestoreFailed stage recovered) \<and> (\<forall>p\<in>set (manifest_files cfg). w_fs (fst h') p = w_fs w0 p) \<and>
    (recovered \<longrightarrow> (\<exists>users. in_service E cfg running advertised users h'))"
proof -
  obtain rr h1 where h1: "restore_rollback E cfg (existing w0 (manifest_files cfg)) h = (rr :: admin_error + bool, h1)"
    by (metis surj_pair)
  from restore_rollback_result [OF setting mid h1] obtain recovered where "rr = Inr recovered"
    "\<forall>p\<in>set (manifest_files cfg). w_fs (fst h1) p = w_fs w0 p" "recovered \<longrightarrow> (\<exists>users. in_service E cfg running advertised users h1)"
    by blast
  with run h1 show ?thesis
    by (auto simp: restore_failed_def bind_io_def fail_io_def)
qed

lemma save_stored:
  assumes "users_json_ok (ae_users_json E)" "save_users_atomic (ae_users_json E) (ae_dbg E) (users_file cfg) users w = (Inr (), w')"
    and "file_content (users_file cfg) (fst h) = file_content (users_file cfg) w'"
  shows "stored_users E cfg h = Inr users"
proof -
  have "users_file cfg \<noteq> []"
    by (simp add: users_file_def)
  from save_users_cases [OF assms(2) this] obtain json mode
    where json: "uj_to_vec_pretty (ae_users_json E) \<lparr>uf_schema_version = USERS_SCHEMA_VERSION, uf_users = users\<rparr> = Inr json"
      "holds_data json mode (w_fs w' (users_file cfg))"
    by auto
  then have "file_content (users_file cfg) (fst h) = Some json"
    using assms(3) by (auto simp: file_content_def holds_data_def split: option.splits)
  with parse_saved [OF assms(1) json(1)] show ?thesis
    by (auto simp: file_content_def stored_users_def)
qed

lemma forget_restore_backups:
  fixes r :: "'e + unit"
  assumes "remove_all (map (rotate_backup_path \<circ> fst) (filter snd (existing w0 (manifest_files cfg)))) w = (r, w')"
  shows "r = Inr ()" "p \<in> set (manifest_files cfg) \<union> {singbox_config_file cfg} \<Longrightarrow> w_fs w' p = w_fs w p"
proof -
  let ?files = "existing w0 (manifest_files cfg)"
  show "r = Inr ()"
    using assms remove_all_total [where ?'e = 'e] by (metis prod.inject)
  assume p: "p \<in> set (manifest_files cfg) \<union> {singbox_config_file cfg}"
  have "singbox_config_file cfg \<in> service_paths cfg"
    by (simp add: config_file_service service_path)
  then have "rotate_backup_path q \<noteq> p" if "q \<in> set (manifest_files cfg)" for q
    using p manifest_not_service [OF that] by auto
  moreover have "fst ` set (filter snd ?files) \<subseteq> set (manifest_files cfg)"
    by (auto simp: existing_def dest: set_zip_leftD)
  ultimately have "p \<notin> set (map (rotate_backup_path \<circ> fst) (filter snd ?files))"
    by auto
  from frame_step [OF frame_remove_all [OF subset_refl] assms this] show "w_fs w' p = w_fs w p" .
qed

text \<open>How a restore that reached the live files ends: undone, or with the users of the archive served and its files in place.\<close>

definition restore_undone ::
    "'s admin_env \<Rightarrow> DeploymentConfig \<Rightarrow> ('s \<Rightarrow> u8 list option) \<Rightarrow> ('s \<Rightarrow> u8 list option \<times> u8 list option \<times> u8 list option) \<Rightarrow>
     world \<Rightarrow> admin_error + nat \<Rightarrow> 's host \<Rightarrow> bool" where
  "restore_undone E cfg running advertised w0 r h' \<longleftrightarrow>
     (\<exists>stage recovered. r = Inl (RestoreFailed stage recovered) \<and> (\<forall>p\<in>set (manifest_files cfg). w_fs (fst h') p = w_fs w0 p) \<and>
        (recovered \<longrightarrow> (\<exists>users. in_service E cfg running advertised users h')))"

definition restore_done ::
    "'s admin_env \<Rightarrow> DeploymentConfig \<Rightarrow> ('s \<Rightarrow> u8 list option) \<Rightarrow> ('s \<Rightarrow> u8 list option \<times> u8 list option \<times> u8 list option) \<Rightarrow>
     staging \<Rightarrow> CompatUser list \<Rightarrow> world \<Rightarrow> 's host \<Rightarrow> bool" where
  "restore_done E cfg running advertised staging users w0 h' \<longleftrightarrow>
     in_service E cfg running advertised users h' \<and>
     (\<forall>(rel, p)\<in>set (restore_targets cfg).
        file_content p (fst h') = (case map_of staging rel of None \<Rightarrow> file_content p w0 | Some c \<Rightarrow> c))"

lemma all_steps_done:
  assumes setting: "rotation_setting E cfg running advertised" "\<not> ae_offline E" and J: "users_json_ok (ae_users_json E)"
    and mid: "in_transaction (manifest_files cfg) w0 (fst h)"
    and w1: "install_all E cfg staging users (fst h) = (Inr (), w1)"
    and h2: "regenerate_singbox_config E cfg True (w1, snd h) = (Inr b, h2)"
    and h3: "reload_if_available E sub_mgr h2 = (Inr b', h3)"
    and w4: "\<And>p. p \<in> set (manifest_files cfg) \<union> {singbox_config_file cfg} \<Longrightarrow> w_fs w4 p = w_fs (fst h3) p"
  shows "restore_done E cfg running advertised staging users (fst h) (w4, snd h3)"
proof -
  note inst = install_all_result [OF w1 mid]
  note sub = sub_reload_result [OF setting(1) h3]
  have calm: "w_faults (fst (w1, snd h)) = []"
    using inst(1) by (simp add: in_transaction_def)
  note served = regenerated_in_service [OF setting calm h2 sub(1,2) sub(3) [OF refl]]
  obtain w' where save: "save_users_atomic (ae_users_json E) (ae_dbg E) (users_file cfg) users (fst h) = (Inr (), w')"
    using inst(3) by (metis prod.collapse)
  have "stored_users E cfg (w1, snd h) = Inr users"
    using save_stored [OF J save] inst(2) save by simp
  then have "in_service E cfg running advertised users h3"
    using served(1) by auto
  then have "in_service E cfg running advertised users (w4, snd h3)"
    by (rule in_service_cong) (use w4 in simp_all)
  moreover have "file_content p w4 = (case map_of staging rel of None \<Rightarrow> file_content p (fst h) | Some c \<Rightarrow> c)"
    if t: "(rel, p) \<in> set (restore_targets cfg)" for rel p
  proof -
    have "p \<in> set (manifest_files cfg)"
      using t by (force simp: manifest_files_def)
    then have "w_fs w4 p = w_fs w1 p"
      using w4 served(2) by simp
    then show ?thesis
      using inst(4) [OF refl t] by (simp add: file_content_def)
  qed
  ultimately show ?thesis
    by (auto simp: restore_done_def)
qed

lemma restore_staged_result:
  assumes setting: "rotation_setting E cfg running advertised" "\<not> ae_offline E" and J: "users_json_ok (ae_users_json E)"
    and mid: "in_transaction (manifest_files cfg) w0 (fst h)"
    and run: "restore_staged E cfg staging users (existing w0 (manifest_files cfg)) h = (r, h')"
  shows "restore_undone E cfg running advertised w0 r h' \<or>
    r = Inr (length users) \<and> restore_done E cfg running advertised staging users (fst h) h'"
proof -
  let ?files = "existing w0 (manifest_files cfg)"
  have undone: "restore_undone E cfg running advertised w0 r h'"
    if "in_transaction (manifest_files cfg) w0 (fst h1)" "restore_failed E cfg ?files stage h1 = (r, h')" for stage h1
    using restore_failed_result [OF setting that] by (auto simp: restore_undone_def)
  obtain ri w1 where w1: "install_all E cfg staging users (fst h) = (ri, w1)"
    by (metis surj_pair)
  let ?h1 = "(w1, snd h)"
  note inst = install_all_result [OF w1 mid]
  have mid1: "in_transaction (manifest_files cfg) w0 (fst ?h1)" and calm: "w_faults (fst ?h1) = []"
    using inst(1) by (simp_all add: in_transaction_def)
  obtain rg h2 where h2: "regenerate_singbox_config E cfg True ?h1 = (rg, h2)"
    by (metis surj_pair)
  note mid2 = regenerate_in_transaction [OF setting mid1 h2]
  obtain rs h3 where h3: "reload_if_available E sub_mgr h2 = (rs, h3)"
    by (metis surj_pair)
  note sub = sub_reload_result [OF setting(1) h3]
  have mid3: "in_transaction (manifest_files cfg) w0 (fst h3)"
    using mid2 sub(1) by simp
  obtain rf w4 where w4: "remove_all (map (rotate_backup_path \<circ> fst) (filter snd ?files)) (fst h3) = (rf :: admin_error + unit, w4)"
    by (metis surj_pair)
  note forget = forget_restore_backups [OF w4]
  have step: "restore_staged E cfg staging users ?files h = (case ri of Inl e \<Rightarrow> restore_failed E cfg ?files Installing ?h1 | Inr _ \<Rightarrow>
      (case rg of Inl e \<Rightarrow> restore_failed E cfg ?files ApplyingAuthorization h2 | Inr _ \<Rightarrow>
      (case rs of Inl e \<Rightarrow> restore_failed E cfg ?files RestartingSubscription h3 | Inr _ \<Rightarrow> (Inr (length users), (w4, snd h3)))))"
    using w1 h2 h3 w4 forget(1)
    by (cases ri; cases rg; cases rs) (simp_all add: restore_staged_def try_io_def bind_io_def return_io_def disk_def)
  show ?thesis
  proof (cases "\<exists>b b'. ri = Inr () \<and> rg = Inr b \<and> rs = Inr b'")
    case True
    then obtain b b' where ok: "ri = Inr ()" "rg = Inr b" "rs = Inr b'"
      by blast
    have "restore_done E cfg running advertised staging users (fst h) (w4, snd h3)"
      using all_steps_done [OF setting J mid w1 [unfolded ok(1)] h2 [unfolded ok(2)] h3 [unfolded ok(3)] forget(2)] .
    then show ?thesis
      using run step ok by simp
  next
    case False
    with run step have "restore_failed E cfg ?files Installing ?h1 = (r, h') \<or> restore_failed E cfg ?files ApplyingAuthorization h2 = (r, h') \<or>
      restore_failed E cfg ?files RestartingSubscription h3 = (r, h')"
      by (cases ri; cases rg; cases rs) simp_all
    then show ?thesis
      using undone mid1 mid2 mid3 by blast
  qed
qed

subsection \<open>Before the first live change\<close>

definition kept ::
    "DeploymentConfig \<Rightarrow> ('s \<Rightarrow> u8 list option) \<Rightarrow> ('s \<Rightarrow> u8 list option \<times> u8 list option \<times> u8 list option) \<Rightarrow> 's host \<Rightarrow> 's host \<Rightarrow> bool" where
  "kept cfg running advertised h h' \<longleftrightarrow>
     (\<forall>p\<in>set (manifest_files cfg) \<union> {singbox_config_file cfg}. w_fs (fst h') p = w_fs (fst h) p) \<and>
     (w_faults (fst h) = [] \<longrightarrow> w_faults (fst h') = []) \<and> running (snd h') = running (snd h) \<and> advertised (snd h') = advertised (snd h)"

lemma kept_pre_order [steady_intros]: "pre_order (kept cfg running advertised)"
  by (simp add: pre_order_def kept_def)

lemma disk_kept:
  fixes running :: "'s \<Rightarrow> _"
  assumes "frame S m" "faultless m" "S \<inter> (set (manifest_files cfg) \<union> {singbox_config_file cfg}) = {}"
  shows "steady (kept cfg running advertised) (disk m)"
  unfolding steady_def
proof
  fix h :: "'s host"
  obtain r w where w: "m (fst h) = (r, w)"
    by (metis surj_pair)
  have "w_fs w p = w_fs (fst h) p" if "p \<in> set (manifest_files cfg) \<union> {singbox_config_file cfg}" for p
    using frame_step [OF assms(1) w] that assms(3) by blast
  then show "kept cfg running advertised h (snd (disk m h))"
    using faultlessD [OF assms(2) w] w by (simp add: kept_def disk_def)
qed

lemma observers_kept:
  assumes "rotation_setting E cfg running advertised"
  shows "steady (kept cfg running advertised) (service_available (ae_systemd E) mgr :: _ \<Rightarrow> ('e + bool) \<times> _)"
  unfolding steady_def
proof
  fix h
  obtain r h' where h': "service_available (ae_systemd E) mgr h = (r :: 'e + bool, h')"
    by (metis surj_pair)
  note sv = rotation_services [OF assms]
  from service_available_same [OF sv(2) h'] service_available_same [OF sv(3) h']
  show "kept cfg running advertised h (snd (service_available (ae_systemd E) mgr h :: ('e + bool) \<times> _))"
    using h' by (simp add: kept_def same_running_def)
qed

lemma parents_apart:
  assumes "d \<in> {reality_dir cfg, hysteria_dir cfg, users_dir cfg}"
  shows "set (prefixes d) \<inter> (set (manifest_files cfg) \<union> {singbox_config_file cfg}) = {}"
proof -
  have "length p > length d" if "p \<in> set (manifest_files cfg) \<union> {singbox_config_file cfg}" for p
    using that assms
    by (auto simp: manifest_files_def targets_simps users_file_in config_file_service service_dir_def reality_dir_def hysteria_dir_def users_dir_def)
  then show ?thesis
    by (fastforce dest: prefix_length_le)
qed

lemma temp_same [frame_intros, faultless_intros]: "frame S temp_io" "faultless temp_io"
  by (auto simp: temp_io_def frame_def faultless_def prim_def split: list.splits fault.splits)

lemma candidate_kept:
  assumes "rotation_setting E cfg running advertised"
  shows "steady (kept cfg running advertised) (restore_candidate E cfg archive)"
proof -
  have empty: "{} \<inter> (set (manifest_files cfg) \<union> {singbox_config_file cfg}) = {}"
    by simp
  have exists: "frame {} (staged_exists staging p)" "faultless (staged_exists staging p)" for staging p
    unfolding staged_exists_def by (auto intro!: frame_intros faultless_intros)
  have required: "frame {} (require_staged staging ps)" "faultless (require_staged staging ps)" for staging ps
    by (induction ps) (auto intro!: frame_intros faultless_intros exists)
  have pure: "frame {} (validate_staged E staging)" "faultless (validate_staged E staging)" for staging
    unfolding validate_staged_def staged_read_to_string_def staged_read_def admin_io_def
    by (auto intro!: frame_intros faultless_intros exists required)
  have dirs: "steady (kept cfg running advertised) (disk (admin_io (create_dir_all d)))"
    if "d \<in> {reality_dir cfg, hysteria_dir cfg, users_dir cfg}" for d
    unfolding admin_io_def by (rule disk_kept [OF _ _ parents_apart [OF that]]) (intro frame_intros faultless_intros subset_refl)+
  have users: "butlast (users_file cfg) = users_dir cfg"
    by (simp add: users_file_in)
  have reads: "steady (kept cfg running advertised) (disk (admin_io temp_io))"
    "steady (kept cfg running advertised) (disk (extract_validated_backup E archive))"
    "steady (kept cfg running advertised) (disk (validate_staged E staging))" for staging
    unfolding admin_io_def extract_validated_backup_def
    by (intro disk_kept [OF _ _ empty] frame_intros faultless_intros pure)+
  show ?thesis
    unfolding restore_candidate_def require_services_def users
    by (auto intro!: steady_intros reads dirs observers_kept [OF assms])
qed

text \<open>What was found in the archive, and that a failure so far is none of the transaction.\<close>

definition early :: "admin_error \<Rightarrow> bool" where
  "early e \<longleftrightarrow> (case e of RestoreFailed _ _ \<Rightarrow> False | _ \<Rightarrow> True)"

definition fails_early :: "('w \<Rightarrow> (admin_error + 'a) \<times> 'w) \<Rightarrow> bool" where
  "fails_early m \<longleftrightarrow> (\<forall>w e w'. m w = (Inl e, w') \<longrightarrow> early e)"

lemma fails_earlyD: "fails_early m \<Longrightarrow> m w = (Inl e, w') \<Longrightarrow> early e"
  by (auto simp: fails_early_def)

lemma fails_early_intros:
  "fails_early m \<Longrightarrow> (\<And>x. fails_early (f x)) \<Longrightarrow> fails_early (bind_io m f)" "fails_early (return_io x)" "early e \<Longrightarrow> fails_early (fail_io e)"
  "fails_early (admin_io k)" "(\<And>x. early (g x)) \<Longrightarrow> fails_early (lift_r (map_err g r'))" "fails_early n \<Longrightarrow> fails_early (disk n)"
  "fails_early (staged_exists staging p)"
  by (auto simp: fails_early_def bind_io_def return_io_def fail_io_def admin_io_def map_err_io_def map_err_def lift_r_def disk_def early_def
      staged_exists_def try_io_def split: sum.splits prod.splits)

lemma total_early: "(\<And>w. \<exists>x w'. m w = (Inr x, w')) \<Longrightarrow> fails_early m"
  unfolding fails_early_def by (metis Inl_Inr_False prod.inject)

lemma extract_early: "extract_entries entries n seen tot staging = Inl e \<Longrightarrow> early e"
proof (induction entries n seen tot staging rule: extract_entries.induct)
  case (3 entry entries n seen tot staging)
  have "early e" if "normalized_archive_path cs = Inl e" for cs e
    using that by (induction cs rule: normalized_archive_path.induct) (auto simp: early_def bind_r_def split: sum.splits)
  then show ?case
    using "3.prems" "3.IH" by (auto simp: bind_r_def map_err_def early_def split: if_splits sum.splits)
qed (auto simp: early_def)

lemma candidate_early: "fails_early (restore_candidate E cfg archive)"
proof -
  have unpack: "fails_early (extract_validated_backup E archive)"
    unfolding extract_validated_backup_def
    by (intro fails_early_intros)
      (auto simp: fails_early_def lift_r_def bind_r_def map_err_def early_def extract_early [unfolded early_def] split: sum.splits)
  have required: "fails_early (require_staged staging ps)" for staging ps
    by (induction ps) (auto intro!: fails_early_intros simp: early_def)
  have validate: "fails_early (validate_staged E staging)" for staging
    unfolding validate_staged_def by (auto intro!: fails_early_intros required simp: early_def)
  have "fails_early (service_available (ae_systemd E) mgr)" for mgr
    unfolding service_available_def by (auto intro!: fails_early_intros(1,2) total_early [OF observers_total(1)] total_early [OF observers_total(2)])
  then have services: "fails_early (require_services E)"
    unfolding require_services_def by (auto intro!: fails_early_intros simp: early_def)
  show ?thesis
    unfolding restore_candidate_def by (intro fails_early_intros unpack validate services)
qed

text \<open>The archive is one the restore accepts: its entries unpack to \<open>staging\<close>, which holds these users and a key pair whose halves belong
  together.\<close>

definition archive_holds :: "'s admin_env \<Rightarrow> path \<Rightarrow> world \<Rightarrow> staging \<Rightarrow> CompatUser list \<Rightarrow> bool" where
  "archive_holds E archive w staging users \<longleftrightarrow>
     (\<exists>n entries bytes priv pub. w_fs w archive = Some n \<and> ae_tar_entries E (i_content n) = Inr entries \<and>
        extract_entries entries 0 [] 0 [] = Inr staging \<and>
        map_of staging [''users'', ''users.json''] = Some (Some bytes) \<and> parse_users_bytes (ae_users_json E) bytes = Inr users \<and>
        map_of staging [''reality'', ''private.key''] = Some (Some (as_bytes priv)) \<and>
        map_of staging [''reality'', ''public.key''] = Some (Some (as_bytes pub)) \<and>
        validate_reality_keypair (ae_base64 E) (ae_mul_base E) (trim priv) (trim pub) = Inr ())"

lemma extract_calm:
  assumes "w_faults w = []" "extract_validated_backup E archive w = (Inr staging, w')"
  shows "w' = w" "\<exists>n entries. w_fs w archive = Some n \<and> ae_tar_entries E (i_content n) = Inr entries \<and>
    extract_entries entries 0 [] 0 [] = Inr staging"
  using assms
  by (auto simp: extract_validated_backup_def admin_io_def bind_io_eq_Inr map_err_io_eq_Inr lift_r_def bind_r_eq_Inr map_err_eq_Inr
      fs_read_def prim_calm split: option.splits if_splits)

lemma require_calm: "w_faults w = [] \<Longrightarrow> require_staged staging ps w = (Inr (), w') \<Longrightarrow> w' = w"
  by (induction ps) (auto simp: return_io_def bind_io_def staged_calm fail_io_def split: if_splits)

lemma staged_string_calm:
  "w_faults w = [] \<Longrightarrow> admin_io (staged_read_to_string staging p) w = (Inr s, w') \<Longrightarrow> w' = w \<and> map_of staging p = Some (Some (as_bytes s))"
  by (auto simp: admin_io_def staged_read_to_string_def map_err_io_eq_Inr bind_io_eq_Inr staged_calm lift_r_def ok_or_def from_utf8_eq_Some
      split: option.splits)

lemma validate_calm:
  assumes "w_faults w = []" "validate_staged E staging w = (Inr users, w')"
  shows "\<exists>bytes priv pub.
        map_of staging [''users'', ''users.json''] = Some (Some bytes) \<and> parse_users_bytes (ae_users_json E) bytes = Inr users \<and>
        map_of staging [''reality'', ''private.key''] = Some (Some (as_bytes priv)) \<and>
        map_of staging [''reality'', ''public.key''] = Some (Some (as_bytes pub)) \<and>
        validate_reality_keypair (ae_base64 E) (ae_mul_base E) (trim priv) (trim pub) = Inr ()"
proof -
  note exists = staged_calm(1) [OF assms(1)]
  have read: "admin_io (staged_read staging p) w = (Inr bytes, w1) \<longleftrightarrow> map_of staging p = Some (Some bytes) \<and> w1 = w" for p bytes w1
    by (auto simp: admin_io_def map_err_io_eq_Inr staged_calm(2) [OF assms(1)] split: option.splits)
  from assms(2) obtain bytes priv pub w1 w2 w3 where
    "map_of staging [''users'', ''users.json''] = Some (Some bytes)" "parse_users_bytes (ae_users_json E) bytes = Inr users"
    and w1: "require_staged staging [[''reality'', ''public.key''], [''reality'', ''short_id.txt'']] w = (Inr (), w1)"
    and w2: "admin_io (staged_read_to_string staging [''reality'', ''private.key'']) w1 = (Inr priv, w2)"
    and w3: "admin_io (staged_read_to_string staging [''reality'', ''public.key'']) w2 = (Inr pub, w3)"
    and "validate_reality_keypair (ae_base64 E) (ae_mul_base E) (trim priv) (trim pub) = Inr ()"
    unfolding validate_staged_def
    by (simp add: bind_io_eq_Inr [of "staged_exists _ _"] bind_io_eq_Inr exists read lift_r_eq_Inr map_err_eq_Inr fail_io_neq_Inr return_io_eq_Inr del: require_staged.simps
        split: if_splits) blast
  moreover have "w1 = w"
    by (rule require_calm [OF assms(1) w1])
  ultimately show ?thesis
    using staged_string_calm [OF assms(1)] by blast
qed

lemma candidate_archive:
  assumes calm: "w_faults (fst h) = []" and run: "restore_candidate E cfg archive h = (Inr (staging, users), h')"
  shows "archive_holds E archive (fst h) staging users"
proof -
  have temp: "admin_io temp_io w = (Inr (), w') \<Longrightarrow> w_faults w = [] \<Longrightarrow> w' = w" for w w' :: world
    by (auto simp: admin_io_def map_err_io_eq_Inr temp_io_def prim_calm)
  from run obtain w1 w2 w3 where w1: "admin_io temp_io (fst h) = (Inr (), w1)"
    and w2: "extract_validated_backup E archive w1 = (Inr staging, w2)" and w3: "validate_staged E staging w2 = (Inr users, w3)"
    unfolding restore_candidate_def by (auto simp: bind_io_eq_Inr return_io_eq_Inr disk_eq)
  have "w1 = fst h"
    by (rule temp [OF w1 calm])
  with extract_calm [OF _ w2] calm have "w2 = fst h" "\<exists>n entries. w_fs (fst h) archive = Some n \<and> ae_tar_entries E (i_content n) = Inr entries \<and>
    extract_entries entries 0 [] 0 [] = Inr staging"
    by simp_all
  with validate_calm [OF _ w3] calm show ?thesis
    unfolding archive_holds_def by (metis (no_types))
qed

text \<open>Backing up touches the backups only.\<close>

lemma backups_kept:
  assumes "p \<in> set (manifest_files cfg) \<union> {singbox_config_file cfg}"
  shows "p \<notin> rotate_backup_path ` set (manifest_files cfg)"
proof
  assume "p \<in> rotate_backup_path ` set (manifest_files cfg)"
  then obtain q where q: "q \<in> set (manifest_files cfg)" "p = rotate_backup_path q"
    by blast
  moreover have "singbox_config_file cfg \<in> service_paths cfg"
    by (simp add: config_file_service service_path)
  ultimately show False
    using assms manifest_not_service(2,4) [OF q(1)] by auto
qed

lemma restore_backups_same:
  assumes "backup_for_rotate (users_file cfg) w = (b, w1)" "p \<in> set (manifest_files cfg) \<union> {singbox_config_file cfg}"
  shows "w_fs w1 p = w_fs w p"
    "b = Inr users_backup \<Longrightarrow>
      prepare_backups (map snd (restore_targets cfg)) (case users_backup of Some b \<Rightarrow> [b] | None \<Rightarrow> []) w1 = (r, w2) \<Longrightarrow> w_fs w2 p = w_fs w p"
proof -
  let ?S = "rotate_backup_path ` set (manifest_files cfg)"
  have S: "rotate_backup_path (users_file cfg) \<in> ?S" "rotate_backup_path ` set (map snd (restore_targets cfg)) \<subseteq> ?S"
    by (auto simp: manifest_files_def)
  show same: "w_fs w1 p = w_fs w p"
    by (rule frame_step [OF frame_backup [OF S(1)] assms(1) backups_kept [OF assms(2)]])
  assume b: "b = Inr users_backup"
    and run: "prepare_backups (map snd (restore_targets cfg)) (case users_backup of Some b \<Rightarrow> [b] | None \<Rightarrow> []) w1 = (r, w2)"
  have "set (case users_backup of Some b \<Rightarrow> [b] | None \<Rightarrow> []) \<subseteq> ?S"
    using assms(1) b S(1) backup_names by (auto split: option.split)
  then show "w_fs w2 p = w_fs w p"
    using prepare_frame [OF run _ S(2) backups_kept [OF assms(2)]] same by simp
qed

lemma fails_early_more:
  "fails_early (path_exists p)" "fails_early (ignore_io m)" "(\<And>x. fails_early (f x)) \<Longrightarrow> fails_early (try_io m f)"
  by (auto simp: fails_early_def path_exists_def ignore_io_def try_io_def return_io_def split: prod.splits)

lemma backup_early: "fails_early (backup_for_rotate p)"
  unfolding backup_for_rotate_def Let_def by (auto intro!: fails_early_intros fails_early_more simp: early_def)

lemma prepare_early: "fails_early (prepare_backups ps prepared)"
proof (induction ps prepared rule: prepare_backups.induct)
  case (2 p ps prepared)
  have removed: "fails_early (bind_io (remove_all prepared) (\<lambda>_. fail_io (BackupIncomplete e)))" for e
    by (intro fails_early_intros(1,3) total_early) (simp_all add: early_def remove_all_total)
  show ?case
    by (auto intro!: fails_early_intros(1,2) fails_early_more removed "2.IH" split: sum.split)
qed (auto intro!: fails_early_intros)

definition restore_not_begun ::
    "DeploymentConfig \<Rightarrow> ('s \<Rightarrow> u8 list option) \<Rightarrow> ('s \<Rightarrow> u8 list option \<times> u8 list option \<times> u8 list option) \<Rightarrow>
     's host \<Rightarrow> admin_error + nat \<Rightarrow> 's host \<Rightarrow> bool" where
  "restore_not_begun cfg running advertised h r h' \<longleftrightarrow>
     (\<exists>e. r = Inl e \<and> early e) \<and> (\<forall>p\<in>set (manifest_files cfg) \<union> {singbox_config_file cfg}. w_fs (fst h') p = w_fs (fst h) p) \<and>
     running (snd h') = running (snd h) \<and> advertised (snd h') = advertised (snd h)"

lemma transaction_result:
  assumes setting: "rotation_setting E cfg running advertised" "\<not> ae_offline E" and J: "users_json_ok (ae_users_json E)"
    and calm: "w_faults (fst h) = []"
    and run: "bind_io (disk (backup_for_rotate (users_file cfg))) (\<lambda>users_backup.
      bind_io (disk (prepare_backups (map snd (restore_targets cfg)) (case users_backup of Some b \<Rightarrow> [b] | None \<Rightarrow> []))) (\<lambda>existed.
      restore_staged E cfg staging users (zip (map snd (restore_targets cfg)) existed @ [(users_file cfg, users_backup \<noteq> None)]))) h = (r, h')"
  shows "restore_not_begun cfg running advertised h r h' \<or> restore_undone E cfg running advertised (fst h) r h' \<or>
    r = Inr (length users) \<and> restore_done E cfg running advertised staging users (fst h) h'"
proof -
  obtain rb w1 where w1: "backup_for_rotate (users_file cfg) (fst h) = (rb, w1)"
    by (metis surj_pair)
  show ?thesis
  proof (cases rb)
    case (Inl e)
    with run w1 have "r = Inl e" "h' = (w1, snd h)"
      by (simp_all add: bind_io_def disk_def)
    with restore_backups_same(1) [OF w1] fails_earlyD [OF backup_early w1 [unfolded Inl]] show ?thesis
      by (simp add: restore_not_begun_def)
  next
    case (Inr b)
    let ?prepared = "case b of Some b \<Rightarrow> [b] | None \<Rightarrow> []"
    obtain rp w2 where w2: "prepare_backups (map snd (restore_targets cfg)) ?prepared w1 = (rp, w2)"
      by (metis surj_pair)
    note same = restore_backups_same(2) [OF w1 _ Inr w2]
    show ?thesis
    proof (cases rp)
      case (Inl e)
      with run w1 w2 Inr have "r = Inl e" "h' = (w2, snd h)"
        by (simp_all add: bind_io_def disk_def)
      with same fails_earlyD [OF prepare_early w2 [unfolded Inl]] show ?thesis
        by (simp add: restore_not_begun_def)
    next
      case ok: (Inr existed)
      note prep = restore_prepared [OF calm w1 [unfolded Inr] w2 [unfolded ok]]
      have "restore_staged E cfg staging users (existing (fst h) (manifest_files cfg)) (w2, snd h) = (r, h')"
        using run w1 w2 Inr ok prep(2) by (simp add: bind_io_def disk_def)
      from restore_staged_result [OF setting J _ this] prep(1)
      have "restore_undone E cfg running advertised (fst h) r h' \<or> r = Inr (length users) \<and> restore_done E cfg running advertised staging users w2 h'"
        by simp
      moreover have "file_content p w2 = file_content p (fst h)" if "(rel, p) \<in> set (restore_targets cfg)" for rel p
        using same [of p] that by (force simp: file_content_def manifest_files_def)
      ultimately show ?thesis
        by (auto simp: restore_done_def split_beta cong: option.case_cong)
    qed
  qed
qed

lemma restore_ends:
  assumes setting: "rotation_setting E cfg running advertised" "\<not> ae_offline E" and J: "users_json_ok (ae_users_json E)"
    and calm: "w_faults (fst h) = []" and run: "cmd_restore E cfg archive h = (r, h')"
  shows "restore_not_begun cfg running advertised h r h' \<or> restore_undone E cfg running advertised (fst h) r h' \<or>
    (\<exists>staging users. archive_holds E archive (fst h) staging users \<and> r = Inr (length users) \<and>
        restore_done E cfg running advertised staging users (fst h) h')"
proof -
  obtain r1 h1 where h1: "restore_candidate E cfg archive h = (r1, h1)"
    by (metis surj_pair)
  have kept: "kept cfg running advertised h h1"
    by (rule steadyD [OF candidate_kept [OF setting(1)] h1])
  show ?thesis
  proof (cases r1)
    case (Inl e)
    then show ?thesis
      using run h1 kept fails_earlyD [OF candidate_early h1 [unfolded Inl]]
      by (auto simp: cmd_restore_def bind_io_def kept_def restore_not_begun_def)
  next
    case (Inr x)
    then obtain staging users where x: "r1 = Inr (staging, users)"
      by (cases x) simp
    have calm1: "w_faults (fst h1) = []" and same: "\<And>p. p \<in> set (manifest_files cfg) \<Longrightarrow> w_fs (fst h1) p = w_fs (fst h) p"
      using kept calm by (simp_all add: kept_def)
    have "archive_holds E archive (fst h) staging users"
      by (rule candidate_archive [OF calm h1 [unfolded x]])
    moreover have "restore_not_begun cfg running advertised h1 r h' \<or> restore_undone E cfg running advertised (fst h1) r h' \<or>
      r = Inr (length users) \<and> restore_done E cfg running advertised staging users (fst h1) h'"
      using run h1 x by (intro transaction_result [OF setting J calm1]) (simp add: cmd_restore_def bind_io_def Let_def)
    moreover have "restore_not_begun cfg running advertised h1 r h' \<Longrightarrow> restore_not_begun cfg running advertised h r h'"
      "restore_undone E cfg running advertised (fst h1) r h' \<Longrightarrow> restore_undone E cfg running advertised (fst h) r h'"
      using kept same by (auto simp: restore_not_begun_def restore_undone_def kept_def)
    moreover have "file_content p (fst h1) = file_content p (fst h)" if "(rel, p) \<in> set (restore_targets cfg)" for rel p
      using same [of p] that by (force simp: file_content_def manifest_files_def)
    then have "restore_done E cfg running advertised staging users (fst h1) h' \<Longrightarrow> restore_done E cfg running advertised staging users (fst h) h'"
      by (auto simp: restore_done_def split_beta cong: option.case_cong)
    ultimately show ?thesis
      by blast
  qed
qed

subsection \<open>Properties\<close>


definition demo_restore :: "u8 list list \<Rightarrow> (admin_error + nat) \<times> rotation_state host" where
  "demo_restore broken = cmd_restore (restore_env broken) demo_cfg [''b.tar''] restore_host"

lemma demo_restore_done:
  "(case demo_restore [] of (r, h) \<Rightarrow> (r, fst (snd (snd h)), file_content (short_id_file demo_cfg) (fst h))) = (Inr 2, Some [7, 7], Some (as_bytes ''ff00''))"
  by code_simp

lemma demo_restore_undone: "fst (demo_restore [[7, 7]]) = Inl (RestoreFailed ApplyingAuthorization True)"
  by code_simp

lemma restore_env_ok:
  "rotation_setting (restore_env broken) demo_cfg (fst \<circ> snd) (snd \<circ> snd)" "\<not> ae_offline (restore_env broken)"
  "users_json_ok (ae_users_json (restore_env broken))" "w_faults (fst restore_host) = []"
proof -
  show "rotation_setting (restore_env broken) demo_cfg (fst \<circ> snd) (snd \<circ> snd)"
    using rotation_env_ok [of broken] by (simp add: restore_env_def rotation_setting_def admin_ok_def sub_ok_def units_available_def)
  show "\<not> ae_offline (restore_env broken)" "users_json_ok (ae_users_json (restore_env broken))" "w_faults (fst restore_host) = []"
    using demo_admin_json_ok by (simp_all add: restore_env_def rotation_env_def demo_admin_def Let_def restore_host_def rotation_host_def demo_host_def empty_world_def)
qed


end
