(* ===== verification/Admin_Doctor.thy ===== *)
theory Admin_Doctor
  imports Admin_Backup "HOL-Library.Signed_Division"
begin

text \<open>
  The commands of the admin tool that look at a deployment, \<^verbatim>\<open>apps/admin/src/main.rs\<close>: \<^verbatim>\<open>version\<close>, \<^verbatim>\<open>status\<close> and the checks of
  \<^verbatim>\<open>doctor\<close>, with the redaction its report applies to log lines. A check appends lines to the report, of which status and layer are kept and the
  text is left out, and counts failures beside it, as the code does.
\<close>

subsection \<open>Version and status\<close>

text \<open>
  What these commands ask of the host: the version built in, the programs \<^verbatim>\<open>sing-box version\<close>, \<^verbatim>\<open>openssl x509 -enddate\<close>, \<^verbatim>\<open>date -u -d\<close>,
  \<^verbatim>\<open>firewall-cmd --state\<close> and \<^verbatim>\<open>ss\<close>, the resolver (for each address whether it is an IPv6 one), a UDP exchange with a resolver, a request
  to the loopback listener with its decoded answer, the throwaway Hysteria2 client, and the printed form of a list of endpoints. A question asked more than
  once carries the number of the call, since its answers may differ.
\<close>

datatype udp_answer = UdpNoSocket | UdpBadAddress | UdpNotSent | UdpNoAnswer | UdpAnswer nat

record 's tools =
  to_pkg_version :: string
  to_singbox_version :: "path \<Rightarrow> io_error + cmd_output"
  to_openssl :: "path \<Rightarrow> world \<Rightarrow> io_error + cmd_output"
  to_date :: "string \<Rightarrow> io_error + cmd_output"
  to_firewall :: "io_error + cmd_output"
  to_ss :: "nat \<Rightarrow> string list \<Rightarrow> io_error + cmd_output"
  to_resolve :: "string \<Rightarrow> string + bool list"
  to_udp :: "nat \<Rightarrow> nat \<Rightarrow> string \<Rightarrow> string \<Rightarrow> u8 list \<Rightarrow> udp_answer"
  to_loopback :: "u16 \<Rightarrow> string \<Rightarrow> 's \<Rightarrow> string + string"
  to_hysteria_client :: "(u16 \<Rightarrow> Value) \<Rightarrow> world \<Rightarrow> 's \<Rightarrow> (string + bool) \<times> 's"
  to_endpoints_string :: "CompatEndpoint list \<Rightarrow> string + string"

text \<open>\<^verbatim>\<open>str::lines().next()\<close>.\<close>

definition first_line :: "string \<Rightarrow> string option" where
  "first_line s =
     (if s = [] then None
      else let l = takeWhile (\<lambda>c. c \<noteq> CHR 0x0A) s in
           Some (if l \<noteq> [] \<and> last l = CHR 0x0D \<and> length l < length s then butlast l else l))"

datatype version_line = SingBoxLine string | SingBoxMissing path

definition cmd_version :: "'s tools \<Rightarrow> DeploymentConfig \<Rightarrow> string \<times> version_line option" where
  "cmd_version T cfg =
     (''vpn1 '' @ to_pkg_version T,
      case to_singbox_version T (dc_singbox_binary cfg) of
        Inr out \<Rightarrow> if co_success out then map_option SingBoxLine (first_line (co_stdout out)) else Some (SingBoxMissing (dc_singbox_binary cfg))
      | Inl _ \<Rightarrow> Some (SingBoxMissing (dc_singbox_binary cfg)))"

datatype service_label = SystemctlUnavailable | NotInstalled | ServiceActive | ServiceInactive

definition service_state_label :: "'s systemd \<Rightarrow> CompatibilityServiceManager \<Rightarrow> 's host \<Rightarrow> ('e + service_label) \<times> 's host" where
  "service_state_label S mgr =
     bind_io (is_available S) (\<lambda>available.
     if \<not> available then return_io SystemctlUnavailable
     else bind_io (is_unit_installed S mgr) (\<lambda>installed.
       if \<not> installed then return_io NotInstalled
       else bind_io (mgr_is_active S mgr) (\<lambda>active.
         return_io (if active then ServiceActive else ServiceInactive))))"

text \<open>\<^verbatim>\<open>i64::from_str\<close>: an optional sign, at least one digit, and nothing else; out of range is an error.\<close>

definition is_digit :: "char \<Rightarrow> bool" where
  "is_digit c \<longleftrightarrow> 48 \<le> (of_char c :: nat) \<and> (of_char c :: nat) \<le> 57"

definition parse_i64 :: "string \<Rightarrow> i64 option" where
  "parse_i64 s =
     (let (neg, ds) = (case s of c # cs \<Rightarrow> if c = CHR ''-'' then (True, cs) else if c = CHR ''+'' then (False, cs) else (False, s) | [] \<Rightarrow> (False, []));
          n = foldl (\<lambda>v c. 10 * v + (of_char c - 48)) 0 ds :: int;
          v = (if neg then - n else n)
      in if ds = [] \<or> \<not> list_all is_digit ds \<or> v < - (2 ^ 63) \<or> v \<ge> 2 ^ 63 then None else Some v)"

datatype cert_error = OpensslMissing | OpensslFailed string | UnexpectedOutput string | BadDate string

text \<open>Days until the certificate expires. The subtraction wraps and the division truncates, as \<^verbatim>\<open>i64\<close> does.\<close>

definition cert_expiry_days :: "'s tools \<Rightarrow> path \<Rightarrow> world \<Rightarrow> ('e + (cert_error + i64) option) \<times> world" where
  "cert_expiry_days T p =
     bind_io (path_exists p) (\<lambda>present.
     if \<not> present then return_io None
     else bind_io (get_world (to_openssl T p)) (\<lambda>output.
       case output of
         Inl _ \<Rightarrow> return_io (Some (Inl OpensslMissing))
       | Inr out \<Rightarrow>
           if \<not> co_success out then return_io (Some (Inl (OpensslFailed (trim (co_stderr out)))))
           else case strip_prefix ''notAfter='' (trim (co_stdout out)) of
                  None \<Rightarrow> return_io (Some (Inl (UnexpectedOutput (co_stdout out))))
                | Some date_str \<Rightarrow>
                    (case to_date T date_str of
                       Inl _ \<Rightarrow> return_io (Some (Inl (BadDate date_str)))
                     | Inr epoch \<Rightarrow>
                         if \<not> co_success epoch then return_io (Some (Inl (BadDate date_str)))
                         else case parse_i64 (trim (co_stdout epoch)) of
                                None \<Rightarrow> return_io None
                              | Some secs \<Rightarrow> bind_io (get_world w_unix_time) (\<lambda>now.
                                  return_io (Some (Inr (sint (of_int secs - now) sdiv 86400)))))))"

text \<open>What the status command shows of a certificate.\<close>

datatype cert_line = CertExpired i64 | CertValid i64 | CertUnchecked cert_error

definition cert_shown :: "cert_error + i64 \<Rightarrow> cert_line" where
  "cert_shown days = (case days of Inr d \<Rightarrow> if d < 0 then CertExpired (- d) else CertValid d | Inl e \<Rightarrow> CertUnchecked e)"

record status_report =
  sr_singbox :: service_label
  sr_subscription :: service_label
  sr_config_present :: bool
  sr_total :: nat
  sr_active :: nat
  sr_disabled :: nat
  sr_public :: "string \<times> u16"
  sr_subscription_host :: "string \<times> u16"
  sr_certificate :: "cert_line option"

definition cmd_status :: "'s admin_env \<Rightarrow> 's tools \<Rightarrow> DeploymentConfig \<Rightarrow> 's host \<Rightarrow> (admin_error + status_report) \<times> 's host" where
  "cmd_status E T cfg =
     bind_io (admin_load_users E cfg) (\<lambda>users.
     bind_io (disk (get_world w_unix_time)) (\<lambda>now.
     bind_io (service_state_label (ae_systemd E) (service_manager ''sing-box'')) (\<lambda>singbox.
     bind_io (service_state_label (ae_systemd E) (service_manager ''vpn-subscription'')) (\<lambda>subscription.
     bind_io (disk (path_exists (singbox_config_file cfg))) (\<lambda>config_present.
     bind_io (disk (cert_expiry_days T (hysteria_dir cfg @ [''cert.pem'']))) (\<lambda>days.
     return_io \<lparr>sr_singbox = singbox, sr_subscription = subscription, sr_config_present = config_present,
       sr_total = length users, sr_active = length (filter (\<lambda>u. is_active u (sint now)) users),
       sr_disabled = length (filter (\<lambda>u. \<not> cu_enabled u) users),
       sr_public = (dc_public_host cfg, rl_listen_port (dc_reality cfg)),
       sr_subscription_host = (dc_subscription_host cfg, sb_public_port (dc_subscription cfg)),
       sr_certificate = map_option cert_shown days\<rparr>))))))"

subsection \<open>A report\<close>

datatype CheckStatus = CheckOk | CheckInfo | CheckWarn | CheckFail

datatype ProtocolCheckResult = ProtocolNotRun | ProtocolPassed | ProtocolFailed | ProtocolInconclusive

record diagnosis =
  dg_lines :: "(CheckStatus \<times> string) list"
  dg_failures :: u32

definition report_check :: "CheckStatus \<Rightarrow> string \<Rightarrow> diagnosis \<Rightarrow> diagnosis" where
  "report_check status layer d = d\<lparr>dg_lines := dg_lines d @ [(status, layer)]\<rparr>"

definition count_failure :: "diagnosis \<Rightarrow> diagnosis" where
  "count_failure d = d\<lparr>dg_failures := dg_failures d + 1\<rparr>"

datatype policy_error = PolicyIo io_error | PolicyNoGroup string | PolicyWrong u32 u32 u32

definition installed_file_policy :: "'s admin_env \<Rightarrow> path \<Rightarrow> string \<Rightarrow> world \<Rightarrow> ('e + (policy_error + unit)) \<times> world" where
  "installed_file_policy E p expected_group =
     try_io (metadata p) (\<lambda>m. return_io
       (case m of
          Inl e \<Rightarrow> Inl (PolicyIo e)
        | Inr node \<Rightarrow>
            (case ae_group E expected_group of
               None \<Rightarrow> Inl (PolicyNoGroup expected_group)
             | Some expected_gid \<Rightarrow>
                 let mode = Bit_Operations.and (i_mode node) 4095 in
                 if i_uid node \<noteq> 0 \<or> i_gid node \<noteq> expected_gid \<or> mode \<noteq> mode_0640
                 then Inl (PolicyWrong (i_uid node) (i_gid node) mode) else Inr ())))"

definition report_installed_file_policy :: "'s admin_env \<Rightarrow> path \<Rightarrow> string \<Rightarrow> diagnosis \<Rightarrow> 's host \<Rightarrow> ('e + diagnosis) \<times> 's host" where
  "report_installed_file_policy E p expected_group d =
     bind_io (disk (installed_file_policy E p expected_group)) (\<lambda>r. return_io
       (case r of Inr _ \<Rightarrow> report_check CheckOk ''L2'' d | Inl _ \<Rightarrow> count_failure (report_check CheckFail ''L2'' d)))"

definition policy_if_present :: "'s admin_env \<Rightarrow> path \<Rightarrow> string \<Rightarrow> diagnosis \<Rightarrow> 's host \<Rightarrow> ('e + diagnosis) \<times> 's host" where
  "policy_if_present E p expected_group d =
     bind_io (disk (path_exists p)) (\<lambda>present.
     if present then report_installed_file_policy E p expected_group d else return_io d)"

subsection \<open>Files and services\<close>

definition check_binary :: "'s admin_env \<Rightarrow> DeploymentConfig \<Rightarrow> diagnosis \<Rightarrow> 's host \<Rightarrow> ('e + diagnosis) \<times> 's host" where
  "check_binary E cfg d =
     bind_io (disk (path_exists (dc_singbox_binary cfg))) (\<lambda>present.
     if \<not> present then return_io (count_failure (report_check CheckFail ''L2'' d))
     else
       let d = report_check CheckOk ''L2'' d; target = singbox_config_file cfg in
       bind_io (disk (path_exists target)) (\<lambda>rendered.
       if \<not> rendered then return_io (report_check CheckWarn ''L2'' d)
       else bind_io (report_installed_file_policy E target ''sing-box'' d) (\<lambda>d.
         try_io (disk (SingBoxBackend_validate (ae_check E) target)) (\<lambda>valid. return_io
           (case valid of Inr _ \<Rightarrow> report_check CheckOk ''L2'' d | Inl _ \<Rightarrow> count_failure (report_check CheckFail ''L2'' d))))))"

definition check_keys :: "'s admin_env \<Rightarrow> DeploymentConfig \<Rightarrow> diagnosis \<Rightarrow> 's host \<Rightarrow> ('e + diagnosis) \<times> 's host" where
  "check_keys E cfg d =
     bind_io (disk (path_exists (reality_private_key_file cfg))) (\<lambda>has_private.
     bind_io (if \<not> has_private then return_io (count_failure (report_check CheckFail ''L2'' d))
              else report_installed_file_policy E (reality_private_key_file cfg) ''sing-box'' d) (\<lambda>d.
     bind_io (disk (path_exists (reality_public_key_file cfg))) (\<lambda>has_public.
     if \<not> has_public then return_io (count_failure (report_check CheckFail ''L2'' d))
     else bind_io (report_installed_file_policy E (reality_public_key_file cfg) ''vpn-subscription'' d) (\<lambda>d.
       bind_io (policy_if_present E (reality_dir cfg @ [''short_id.txt'']) ''vpn-subscription'' d) (\<lambda>d.
       try_io (disk (read_to_string (reality_private_key_file cfg))) (\<lambda>priv.
       try_io (disk (read_to_string (reality_public_key_file cfg))) (\<lambda>pub. return_io
         (case (priv, pub) of
            (Inr priv, Inr pub) \<Rightarrow>
              (case validate_reality_keypair (ae_base64 E) (ae_mul_base E) (trim priv) (trim pub) of
                 Inr _ \<Rightarrow> report_check CheckOk ''L2'' d
               | Inl _ \<Rightarrow> count_failure (report_check CheckFail ''L2'' d))
          | _ \<Rightarrow> count_failure (report_check CheckFail ''L2'' d)))))))))"

definition check_users :: "'s admin_env \<Rightarrow> DeploymentConfig \<Rightarrow> diagnosis \<Rightarrow> 's host \<Rightarrow> ('e + diagnosis) \<times> 's host" where
  "check_users E cfg d =
     bind_io (policy_if_present E (users_file cfg) ''vpn-subscription'' d) (\<lambda>d.
     try_io (disk (load_users (ae_users_json E) (users_file cfg))) (\<lambda>users. return_io
       (case users of Inr _ \<Rightarrow> report_check CheckOk ''L2'' d | Inl _ \<Rightarrow> count_failure (report_check CheckFail ''L2'' d))))"

definition check_certificate :: "'s admin_env \<Rightarrow> 's tools \<Rightarrow> DeploymentConfig \<Rightarrow> diagnosis \<Rightarrow> 's host \<Rightarrow> ('e + diagnosis) \<times> 's host" where
  "check_certificate E T cfg d =
     bind_io (policy_if_present E (hysteria_dir cfg @ [''cert.pem'']) ''sing-box'' d) (\<lambda>d.
     bind_io (policy_if_present E (hysteria_dir cfg @ [''key.pem'']) ''sing-box'' d) (\<lambda>d.
     bind_io (disk (cert_expiry_days T (hysteria_dir cfg @ [''cert.pem'']))) (\<lambda>days. return_io
       (case days of
          None \<Rightarrow> report_check CheckWarn ''L2'' d
        | Some (Inr days) \<Rightarrow>
            if days < 0 then count_failure (report_check CheckFail ''L2'' d)
            else if days < 30 then report_check CheckWarn ''L2'' d
            else report_check CheckOk ''L2'' d
        | Some (Inl _) \<Rightarrow> report_check CheckWarn ''L2'' d))))"

definition check_obfuscation :: "'s admin_env \<Rightarrow> DeploymentConfig \<Rightarrow> diagnosis \<Rightarrow> 's host \<Rightarrow> ('e + diagnosis) \<times> 's host" where
  "check_obfuscation E cfg d =
     bind_io (disk (path_exists (hysteria_obfs_password_file cfg))) (\<lambda>enabled.
     if \<not> enabled then return_io (report_check CheckWarn ''L2'' d)
     else bind_io (report_installed_file_policy E (hysteria_obfs_password_file cfg) ''vpn-subscription'' d) (\<lambda>d.
       return_io (report_check CheckOk ''L2'' d)))"

definition check_service :: "'s systemd \<Rightarrow> string \<Rightarrow> diagnosis \<Rightarrow> 's host \<Rightarrow> ('e + diagnosis) \<times> 's host" where
  "check_service S name d =
     (let mgr = service_manager name in
      bind_io (is_available S) (\<lambda>available.
      if \<not> available then return_io (report_check CheckWarn ''L1'' d)
      else bind_io (is_unit_installed S mgr) (\<lambda>installed.
        if \<not> installed then return_io (report_check CheckWarn ''L1'' d)
        else bind_io (mgr_is_active S mgr) (\<lambda>active. return_io
          (if active then report_check CheckOk ''L1'' d else count_failure (report_check CheckFail ''L1'' d))))))"

definition check_reconciler :: "'s systemd \<Rightarrow> diagnosis \<Rightarrow> 's host \<Rightarrow> ('e + diagnosis) \<times> 's host" where
  "check_reconciler S d =
     (let reconcile_mgr = service_manager ''vpn-expiry-reconcile'' in
      bind_io (service_available S reconcile_mgr) (\<lambda>available.
      if \<not> available then return_io (report_check CheckWarn ''L1'' d)
      else bind_io (is_failed S reconcile_mgr) (\<lambda>failed. return_io
        (if failed then count_failure (report_check CheckFail ''L1'' d) else report_check CheckOk ''L1'' d))))"

definition check_firewall :: "'s tools \<Rightarrow> diagnosis \<Rightarrow> diagnosis" where
  "check_firewall T d =
     (case to_firewall T of
        Inr out \<Rightarrow> if co_success out then report_check CheckOk ''L3'' d else count_failure (report_check CheckFail ''L3'' d)
      | Inl _ \<Rightarrow> report_check CheckWarn ''L3'' d)"

subsection \<open>Listeners and UDP\<close>

text \<open>\<^verbatim>\<open>str::split_whitespace\<close>; the first argument is the word so far, backwards.\<close>

function split_white :: "string \<Rightarrow> string \<Rightarrow> string list" where
  "split_white word [] = (if word = [] then [] else [rev word])"
| "split_white word (c # s) =
     (case strip_any white_space (c # s) of
        Some rest \<Rightarrow> (if word = [] then [] else [rev word]) @ split_white [] rest
      | None \<Rightarrow> split_white (c # word) s)"
  by pat_completeness auto
termination
  by (relation "measure (\<lambda>(word, s). length s)") (auto dest: strip_any_shorter)

definition listener_reported_by_ss :: "'s tools \<Rightarrow> nat \<Rightarrow> u16 \<Rightarrow> bool \<Rightarrow> bool option" where
  "listener_reported_by_ss T call port udp =
     (case to_ss T call (if udp then [''-H'', ''-lun''] else [''-H'', ''-ltn'']) of
        Inl _ \<Rightarrow> None
      | Inr out \<Rightarrow>
          if \<not> co_success out then None
          else let sfx = '':'' @ show_nat (unat port) in
            Some (list_ex (\<lambda>line. list_ex (\<lambda>fld. fld = sfx \<or> suffix sfx fld \<or> str_contains ('']'' @ sfx) fld) (split_white [] line))
              (str_lines (co_stdout out))))"

definition check_listener :: "'s tools \<Rightarrow> nat \<Rightarrow> u16 \<Rightarrow> bool \<Rightarrow> diagnosis \<Rightarrow> diagnosis" where
  "check_listener T call port udp d =
     (case listener_reported_by_ss T call port udp of
        Some True \<Rightarrow> report_check CheckOk ''L3'' d
      | Some False \<Rightarrow> count_failure (report_check CheckFail ''L3'' d)
      | None \<Rightarrow> report_check CheckWarn ''L3'' d)"

text \<open>\<^verbatim>\<open>str::split\<close> at a character.\<close>

fun split_char :: "char \<Rightarrow> string \<Rightarrow> string list" where
  "split_char x [] = [[]]"
| "split_char x (c # s) =
     (if c = x then [] # split_char x s else (case split_char x s of part # parts \<Rightarrow> (c # part) # parts | [] \<Rightarrow> [[c]]))"

definition build_dns_query :: "string \<Rightarrow> u8 list" where
  "build_dns_query name =
     [0x12, 0x34, 0x01, 0x00, 0x00, 0x01, 0x00, 0x00, 0x00, 0x00, 0x00, 0x00] @
     concat (map (\<lambda>label. of_nat (length label) # as_bytes label) (split_char (CHR ''.'') name)) @ [0x00] @ [0x00, 0x01, 0x00, 0x01]"

definition udp_verdict :: "udp_answer \<Rightarrow> bool option" where
  "udp_verdict a =
     (case a of UdpNoSocket \<Rightarrow> None | UdpBadAddress \<Rightarrow> None | UdpNotSent \<Rightarrow> Some False | UdpNoAnswer \<Rightarrow> Some False | UdpAnswer n \<Rightarrow> Some (n > 0))"

definition udp_dns_probe :: "'s tools \<Rightarrow> nat \<Rightarrow> nat \<Rightarrow> string \<Rightarrow> bool option" where
  "udp_dns_probe T run call resolver_ip = udp_verdict (to_udp T run call ''0.0.0.0:0'' (resolver_ip @ '':53'') (build_dns_query ''example.com''))"

definition udp_dns_probe_v6 :: "'s tools \<Rightarrow> nat \<Rightarrow> nat \<Rightarrow> string \<Rightarrow> bool option" where
  "udp_dns_probe_v6 T run call resolver_ip =
     udp_verdict (to_udp T run call ''[::]:0'' (''['' @ resolver_ip @ '']:53'') (build_dns_query ''example.com''))"

text \<open>The attempts at one candidate: an answer ends everything; otherwise whether any attempt ran, and how many calls were made.\<close>

fun probe_attempts :: "(nat \<Rightarrow> string \<Rightarrow> bool option) \<Rightarrow> string \<Rightarrow> nat \<Rightarrow> nat \<Rightarrow> bool \<Rightarrow> bool \<times> bool \<times> nat" where
  "probe_attempts probe cand 0 call any_ran = (False, any_ran, call)"
| "probe_attempts probe cand (Suc retries) call any_ran =
     (case probe call cand of
        Some True \<Rightarrow> (True, any_ran, Suc call)
      | Some False \<Rightarrow> probe_attempts probe cand retries (Suc call) True
      | None \<Rightarrow> probe_attempts probe cand retries (Suc call) any_ran)"

fun probe_candidates :: "(nat \<Rightarrow> string \<Rightarrow> bool option) \<Rightarrow> string list \<Rightarrow> nat \<Rightarrow> nat \<Rightarrow> bool \<Rightarrow> bool option" where
  "probe_candidates probe [] retries call any_ran = (if \<not> any_ran then None else Some False)"
| "probe_candidates probe (cand # cands) retries call any_ran =
     (case probe_attempts probe cand retries call any_ran of
        (True, _, _) \<Rightarrow> Some True
      | (False, any_ran, call) \<Rightarrow> probe_candidates probe cands retries call any_ran)"

definition run_udp_probe_candidates_with_probe :: "string list \<Rightarrow> nat \<Rightarrow> (nat \<Rightarrow> string \<Rightarrow> bool option) \<Rightarrow> bool option" where
  "run_udp_probe_candidates_with_probe candidates retries probe = probe_candidates probe candidates retries 0 False"

definition run_udp_probe_candidates :: "'s tools \<Rightarrow> nat \<Rightarrow> string list \<Rightarrow> nat \<Rightarrow> bool option" where
  "run_udp_probe_candidates T run candidates retries =
     run_udp_probe_candidates_with_probe candidates retries
       (\<lambda>call cand. if str_contains '':'' cand then udp_dns_probe_v6 T run call cand else udp_dns_probe T run call cand)"

definition check_udp_egress :: "'s tools \<Rightarrow> DeploymentConfig \<Rightarrow> diagnosis \<Rightarrow> diagnosis" where
  "check_udp_egress T cfg d =
     (if listener_reported_by_ss T 2 (hy_listen_port (dc_hysteria2 cfg)) True \<noteq> Some True then d
      else let probe_cfg = udp_probe_config cfg in
        case run_udp_probe_candidates T 0 (up_ipv4_resolvers probe_cfg) (up_retries probe_cfg) of
          Some True \<Rightarrow> report_check CheckOk ''L3'' d
        | Some False \<Rightarrow> count_failure (report_check CheckFail ''L3'' d)
        | None \<Rightarrow> report_check CheckWarn ''L3'' d)"

subsection \<open>Host name and versions\<close>

datatype Ipv6Posture = NoAaaa | AaaaEgressOk | AaaaEgressBroken | AaaaEgressUnknown

definition classify_ipv6_posture :: "bool \<Rightarrow> bool option \<Rightarrow> Ipv6Posture" where
  "classify_ipv6_posture has_aaaa probe =
     (if \<not> has_aaaa then NoAaaa
      else case probe of Some True \<Rightarrow> AaaaEgressOk | Some False \<Rightarrow> AaaaEgressBroken | None \<Rightarrow> AaaaEgressUnknown)"

fun ipv6_posture_report :: "Ipv6Posture \<Rightarrow> CheckStatus \<times> bool" where
  "ipv6_posture_report NoAaaa = (CheckInfo, False)"
| "ipv6_posture_report AaaaEgressOk = (CheckOk, False)"
| "ipv6_posture_report AaaaEgressBroken = (CheckFail, True)"
| "ipv6_posture_report AaaaEgressUnknown = (CheckWarn, False)"

definition report_posture :: "Ipv6Posture \<Rightarrow> diagnosis \<Rightarrow> diagnosis" where
  "report_posture posture d =
     (case ipv6_posture_report posture of (status, increment) \<Rightarrow>
        let d = report_check status ''L2'' d in if increment then count_failure d else d)"

definition check_public_hostname_and_ipv6_policy :: "'s tools \<Rightarrow> DeploymentConfig \<Rightarrow> diagnosis \<Rightarrow> diagnosis" where
  "check_public_hostname_and_ipv6_policy T cfg d =
     (case to_resolve T (dc_public_host cfg) of
        Inl _ \<Rightarrow> count_failure (report_check CheckFail ''L2'' d)
      | Inr resolved \<Rightarrow>
          if resolved = [] then count_failure (report_check CheckFail ''L2'' d)
          else
            let has_v4 = list_ex Not resolved; has_v6 = list_ex id resolved;
                d = report_check CheckOk ''L2'' d;
                d = (if \<not> has_v4 then report_check CheckWarn ''L2'' d else d)
            in if \<not> has_v6 then report_posture (classify_ipv6_posture False None) d
               else let probe_cfg = udp_probe_config cfg;
                        probe_result = run_udp_probe_candidates T 1 (up_ipv6_resolvers probe_cfg) (up_retries probe_cfg)
                    in report_posture (classify_ipv6_posture True probe_result) d)"

text \<open>The order of paths: by components, and these by their bytes.\<close>

fun str_less :: "string \<Rightarrow> string \<Rightarrow> bool" where
  "str_less [] t = (t \<noteq> [])"
| "str_less (c # s) [] = False"
| "str_less (c # s) (d # t) = (if c = d then str_less s t else (of_char c :: nat) < of_char d)"

fun path_less :: "path \<Rightarrow> path \<Rightarrow> bool" where
  "path_less [] q = (q \<noteq> [])"
| "path_less (a # p) [] = False"
| "path_less (a # p) (b # q) = (if a = b then path_less p q else str_less a b)"

text \<open>Sorted, and every path once.\<close>

fun insert_path :: "path \<Rightarrow> path list \<Rightarrow> path list" where
  "insert_path p [] = [p]"
| "insert_path p (q # qs) = (if p = q then q # qs else if path_less p q then p # q # qs else q # insert_path p qs)"

fun probe_versions :: "'s tools \<Rightarrow> path list \<Rightarrow> world \<Rightarrow> ('e + (path \<times> string option) list) \<times> world" where
  "probe_versions T [] = return_io []"
| "probe_versions T (p # ps) =
     bind_io (path_exists p) (\<lambda>present.
     bind_io (probe_versions T ps) (\<lambda>found. return_io
       (if \<not> present then found
        else (case to_singbox_version T p of
                Inr out \<Rightarrow> if co_success out then (p, Some (trim (unwrap_or (first_line (co_stdout out)) []))) else (p, None)
              | Inl _ \<Rightarrow> (p, None)) # found)))"

definition probe_singbox_binary_versions :: "'s tools \<Rightarrow> path list \<Rightarrow> world \<Rightarrow> ('e + (path \<times> string option) list) \<times> world" where
  "probe_singbox_binary_versions T candidates = probe_versions T (foldr insert_path candidates [])"

text \<open>A version that is not available is reported as this text.\<close>

definition version_text :: "string option \<Rightarrow> string" where
  "version_text v = unwrap_or v ''(version unavailable)''"

definition singbox_version_consistency_report :: "(path \<times> string option) list \<Rightarrow> CheckStatus option" where
  "singbox_version_consistency_report found =
     (if length found \<le> 1 then None
      else if length (remdups (map (version_text \<circ> snd) found)) = 1 then Some CheckOk else Some CheckWarn)"

definition check_singbox_binary_version_consistency :: "'s tools \<Rightarrow> DeploymentConfig \<Rightarrow> diagnosis \<Rightarrow> 's host \<Rightarrow> ('e + diagnosis) \<times> 's host" where
  "check_singbox_binary_version_consistency T cfg d =
     bind_io (disk (probe_singbox_binary_versions T
       [dc_singbox_binary cfg, [''usr'', ''local'', ''bin'', ''sing-box''], [''usr'', ''bin'', ''sing-box'']])) (\<lambda>found. return_io
       (case singbox_version_consistency_report found of Some status \<Rightarrow> report_check status ''L2'' d | None \<Rightarrow> d))"

subsection \<open>Coherence of the subscription\<close>

definition doctor_user :: CompatUser where
  "doctor_user =
     \<lparr>cu_id = ''doctor-l4-synthetic'', cu_name = ''doctor-l4-synthetic'', cu_enabled = True,
      cu_vless_uuid = ''00000000-0000-4000-8000-000000000000'', cu_hysteria2_password = SecretString ''unused'',
      cu_subscription_token_hash_hex = [], cu_created_at = 0, cu_expires_at = None\<rparr>"

definition current_endpoints :: "DeploymentConfig \<Rightarrow> RealityServerParams \<Rightarrow> Hysteria2ServerParams \<Rightarrow> CompatEndpoint list" where
  "current_endpoints cfg reality hysteria =
     standard_endpoints (dc_public_host cfg) (rl_listen_port (dc_reality cfg)) (hy_listen_port (dc_hysteria2 cfg))
       (rs_public_key_hex reality) (case rs_short_ids reality of [] \<Rightarrow> [] | s # _ \<Rightarrow> s) (rs_handshake_server reality)
       (map_option expose (hs_obfs_password hysteria))"

definition first_reality :: "string \<Rightarrow> Value \<Rightarrow> Value option" where
  "first_reality list_key doc =
     (case elements (field doc [list_key]) of v # _ \<Rightarrow> field v [''tls'', ''reality''] | [] \<Rightarrow> None)"

definition str_of :: "Value option \<Rightarrow> string option" where
  "str_of v = (case v of Some (VString s) \<Rightarrow> Some s | _ \<Rightarrow> None)"

definition render_coherent :: "RealityServerParams \<Rightarrow> Value \<Rightarrow> Value \<Rightarrow> bool" where
  "render_coherent reality server_doc client_doc \<longleftrightarrow>
     (let server_short_ids = (case first_reality ''inbounds'' server_doc of
            Some r \<Rightarrow> List.map_filter (\<lambda>v. str_of (Some v)) (elements (field r [''short_id''])) | None \<Rightarrow> []);
          client_field = (\<lambda>k. case first_reality ''outbounds'' client_doc of Some r \<Rightarrow> unwrap_or (str_of (field r [k])) [] | None \<Rightarrow> [])
      in client_field ''short_id'' \<in> set server_short_ids \<and> client_field ''public_key'' = rs_public_key_hex reality)"

definition check_drift :: "'s admin_env \<Rightarrow> DeploymentConfig \<Rightarrow> Value \<Rightarrow> diagnosis \<Rightarrow> 's host \<Rightarrow> ('e + diagnosis) \<times> 's host" where
  "check_drift E cfg fresh_server_doc d =
     bind_io (disk (path_exists (singbox_config_file cfg))) (\<lambda>present.
     if \<not> present then return_io (report_check CheckWarn ''L4'' d)
     else try_io (disk (fs_read (singbox_config_file cfg))) (\<lambda>on_disk. return_io
       (case on_disk of
          Inl _ \<Rightarrow> report_check CheckWarn ''L4'' d
        | Inr bytes \<Rightarrow>
            (case ae_from_slice E bytes of
               Inl _ \<Rightarrow> report_check CheckWarn ''L4'' d
             | Inr v \<Rightarrow> if json_eq v fresh_server_doc then report_check CheckOk ''L4'' d
                        else count_failure (report_check CheckFail ''L4'' d)))))"

definition check_l4_subscription_coherence :: "'s admin_env \<Rightarrow> DeploymentConfig \<Rightarrow> diagnosis \<Rightarrow> 's host \<Rightarrow> ('e + diagnosis) \<times> 's host" where
  "check_l4_subscription_coherence E cfg d =
     try_io (disk (load_reality_params E cfg)) (\<lambda>reality.
     case reality of
       Inl _ \<Rightarrow> return_io (report_check CheckWarn ''L4'' d)
     | Inr reality \<Rightarrow>
         try_io (disk (load_users (ae_users_json E) (users_file cfg))) (\<lambda>users.
         case users of
           Inl _ \<Rightarrow> return_io (report_check CheckWarn ''L4'' d)
         | Inr users \<Rightarrow>
             bind_io (disk (load_hysteria_params E cfg)) (\<lambda>hysteria.
             bind_io (disk (get_world w_unix_time)) (\<lambda>now.
             let fresh_server_doc = render_singbox_server_config users reality hysteria (server_ports cfg) (sint now) in
             case render_singbox_client_subscription doctor_user (current_endpoints cfg reality hysteria) of
               Inl _ \<Rightarrow> return_io (count_failure (report_check CheckFail ''L4'' d))
             | Inr client_doc \<Rightarrow>
                 check_drift E cfg fresh_server_doc
                   (if render_coherent reality fresh_server_doc client_doc then report_check CheckOk ''L4'' d
                    else count_failure (report_check CheckFail ''L4'' d))))))"

text \<open>What is before the first blank line, and what is behind it.\<close>

fun split_head :: "string \<Rightarrow> string \<times> string" where
  "split_head [] = ([], [])"
| "split_head (c # s) =
     (case strip_prefix [CHR 0x0D, CHR 0x0A, CHR 0x0D, CHR 0x0A] (c # s) of
        Some body \<Rightarrow> ([], body)
      | None \<Rightarrow> (case split_head s of (head, body) \<Rightarrow> (c # head, body)))"

definition http_get_local_json :: "'s admin_env \<Rightarrow> 's tools \<Rightarrow> u16 \<Rightarrow> string \<Rightarrow> 's host \<Rightarrow> ('e + (string + Value)) \<times> 's host" where
  "http_get_local_json E T port p h =
     (let request = ''GET '' @ p @ '' HTTP/1.0'' @ [CHR 0x0D, CHR 0x0A] @ ''Host: 127.0.0.1'' @ [CHR 0x0D, CHR 0x0A] @
            ''Connection: close'' @ [CHR 0x0D, CHR 0x0A, CHR 0x0D, CHR 0x0A] in
      (Inr (case to_loopback T port request (snd h) of
              Inl e \<Rightarrow> Inl e
            | Inr response \<Rightarrow>
                (case split_head response of (head, body) \<Rightarrow>
                   let status_line = unwrap_or (first_line head) [] in
                   if \<not> str_contains '' 200 '' status_line then Inl status_line
                   else ae_from_slice E (as_bytes body))), h))"

definition check_l4_live_subscription_process_state ::
    "'s admin_env \<Rightarrow> 's tools \<Rightarrow> DeploymentConfig \<Rightarrow> diagnosis \<Rightarrow> 's host \<Rightarrow> ('e + diagnosis) \<times> 's host" where
  "check_l4_live_subscription_process_state E T cfg d =
     try_io (disk (load_reality_params E cfg)) (\<lambda>reality.
     case reality of
       Inl _ \<Rightarrow> return_io (report_check CheckWarn ''L4'' d)
     | Inr reality \<Rightarrow>
         bind_io (disk (load_hysteria_params E cfg)) (\<lambda>hysteria.
         let expected_fingerprint = endpoints_fingerprint (ae_sha E) (ae_hex E) (to_endpoints_string T) (current_endpoints cfg reality hysteria) in
         bind_io (http_get_local_json E T (sb_listen_port (dc_subscription cfg)) ''/internal/state-fingerprint'') (\<lambda>response. return_io
           (case response of
              Inl _ \<Rightarrow> report_check CheckWarn ''L4'' d
            | Inr json \<Rightarrow>
                (case str_of (field json [''endpoints_fingerprint_sha256'']) of
                   None \<Rightarrow> report_check CheckWarn ''L4'' d
                 | Some live_fingerprint \<Rightarrow>
                     if live_fingerprint = expected_fingerprint then report_check CheckOk ''L4'' d
                     else count_failure (report_check CheckFail ''L4'' d))))))"

subsection \<open>The protocol self-tests\<close>

definition report_protocol_unavailable :: "bool \<Rightarrow> diagnosis \<Rightarrow> diagnosis" where
  "report_protocol_unavailable require_protocol d =
     (if require_protocol then count_failure (report_check CheckFail ''L5-6'' d) else report_check CheckWarn ''L5-6'' d)"

definition check_l5_l6_protocol_selftest ::
    "'s admin_env \<Rightarrow> DeploymentConfig \<Rightarrow> bool \<Rightarrow> diagnosis \<Rightarrow> 's host \<Rightarrow> ('e + diagnosis \<times> ProtocolCheckResult) \<times> 's host" where
  "check_l5_l6_protocol_selftest E cfg require_protocol d =
     bind_io (disk (path_exists (dc_singbox_binary cfg))) (\<lambda>present.
     if \<not> present then return_io (report_protocol_unavailable require_protocol d, ProtocolNotRun)
     else try_io (disk (load_reality_params E cfg)) (\<lambda>reality.
     case reality of
       Inl _ \<Rightarrow> return_io (report_protocol_unavailable require_protocol d, ProtocolNotRun)
     | Inr reality \<Rightarrow>
     try_io (disk (load_users (ae_users_json E) (users_file cfg))) (\<lambda>users.
     case users of
       Inl _ \<Rightarrow> return_io (report_protocol_unavailable require_protocol d, ProtocolNotRun)
     | Inr users \<Rightarrow>
     bind_io (disk (get_world w_unix_time)) (\<lambda>now.
     case find (\<lambda>user. is_active user (sint now)) users of
       None \<Rightarrow> return_io (report_protocol_unavailable require_protocol d, ProtocolNotRun)
     | Some test_user \<Rightarrow>
     try_io (run_reality_client_selftest E reality test_user (rl_listen_port (dc_reality cfg))) (\<lambda>outcome. return_io
       (case outcome of
          Inr Pass \<Rightarrow> (report_check CheckOk ''L5-6'' d, ProtocolPassed)
        | Inr HandshakeRejected \<Rightarrow> (count_failure (report_check CheckFail ''L5-6'' d), ProtocolFailed)
        | Inr Inconclusive \<Rightarrow> (report_protocol_unavailable require_protocol d, ProtocolInconclusive)
        | Inl _ \<Rightarrow> (report_protocol_unavailable require_protocol d, ProtocolNotRun)))))))"

definition hysteria2_client_config :: "DeploymentConfig \<Rightarrow> Hysteria2ServerParams \<Rightarrow> CompatUser \<Rightarrow> u16 \<Rightarrow> u16 \<Rightarrow> Value" where
  "hysteria2_client_config cfg hysteria test_user hysteria_port local_port =
     (let outbound = VObject
            [(''type'', VString ''hysteria2''), (''tag'', VString ''hysteria2-selftest''), (''server'', VString ''127.0.0.1''),
             (''server_port'', json_u16 hysteria_port), (''password'', VString (expose (cu_hysteria2_password test_user))),
             (''tls'', VObject [(''enabled'', VBool True), (''server_name'', VString (dc_public_host cfg)), (''insecure'', VBool True)])];
          outbound = (case hs_obfs_password hysteria of
            Some pw \<Rightarrow> obj_set outbound ''obfs'' (VObject [(''type'', VString ''salamander''), (''password'', VString (expose pw))])
          | None \<Rightarrow> outbound)
      in VObject
        [(''log'', VObject [(''level'', VString ''error'')]),
         (''inbounds'', VArray
            [VObject [(''type'', VString ''mixed''), (''tag'', VString ''in''), (''listen'', VString ''127.0.0.1''),
                      (''listen_port'', json_u16 local_port)]]),
         (''outbounds'', VArray [outbound, VObject [(''type'', VString ''direct''), (''tag'', VString ''direct'')]]),
         (''route'', VObject [(''final'', VString ''hysteria2-selftest'')])])"

definition run_hysteria2_client_selftest ::
    "'s tools \<Rightarrow> DeploymentConfig \<Rightarrow> Hysteria2ServerParams \<Rightarrow> CompatUser \<Rightarrow> u16 \<Rightarrow> 's host \<Rightarrow> (string + bool) \<times> 's host" where
  "run_hysteria2_client_selftest T cfg hysteria test_user hysteria_port h =
     (case to_hysteria_client T (hysteria2_client_config cfg hysteria test_user hysteria_port) (fst h) (snd h) of (r, s) \<Rightarrow> (r, fst h, s))"

definition check_l5_l6_hysteria2_protocol_selftest ::
    "'s admin_env \<Rightarrow> 's tools \<Rightarrow> DeploymentConfig \<Rightarrow> bool \<Rightarrow> diagnosis \<Rightarrow> 's host \<Rightarrow> ('e + diagnosis) \<times> 's host" where
  "check_l5_l6_hysteria2_protocol_selftest E T cfg require_protocol d =
     bind_io (disk (path_exists (dc_singbox_binary cfg))) (\<lambda>present.
     if \<not> present then return_io (report_protocol_unavailable require_protocol d)
     else bind_io (disk (load_hysteria_params E cfg)) (\<lambda>hysteria.
     try_io (disk (load_users (ae_users_json E) (users_file cfg))) (\<lambda>users.
     case users of
       Inl _ \<Rightarrow> return_io (report_protocol_unavailable require_protocol d)
     | Inr users \<Rightarrow>
     bind_io (disk (get_world w_unix_time)) (\<lambda>now.
     case find (\<lambda>user. is_active user (sint now)) users of
       None \<Rightarrow> return_io (report_protocol_unavailable require_protocol d)
     | Some test_user \<Rightarrow>
     try_io (run_hysteria2_client_selftest T cfg hysteria test_user (hy_listen_port (dc_hysteria2 cfg))) (\<lambda>outcome. return_io
       (case outcome of
          Inr True \<Rightarrow> report_check CheckOk ''L5-6-H2'' d
        | _ \<Rightarrow> report_protocol_unavailable require_protocol d))))))"

subsection \<open>The command\<close>

definition doctor_checks :: "'s admin_env \<Rightarrow> 's tools \<Rightarrow> DeploymentConfig \<Rightarrow> 's host \<Rightarrow> ('e + diagnosis) \<times> 's host" where
  "doctor_checks E T cfg =
     bind_io (check_binary E cfg \<lparr>dg_lines = [], dg_failures = 0\<rparr>) (\<lambda>d.
     bind_io (check_keys E cfg d) (\<lambda>d.
     bind_io (check_users E cfg d) (\<lambda>d.
     bind_io (check_certificate E T cfg d) (\<lambda>d.
     bind_io (check_obfuscation E cfg d) (\<lambda>d.
     bind_io (check_service (ae_systemd E) ''sing-box'' d) (\<lambda>d.
     bind_io (check_service (ae_systemd E) ''vpn-subscription'' d) (\<lambda>d.
     bind_io (check_reconciler (ae_systemd E) d) (\<lambda>d.
     let d = check_firewall T d;
         d = check_listener T 0 (rl_listen_port (dc_reality cfg)) False d;
         d = check_listener T 1 (hy_listen_port (dc_hysteria2 cfg)) True d;
         d = check_udp_egress T cfg d
     in bind_io (check_l4_subscription_coherence E cfg d) (\<lambda>d.
     bind_io (check_l4_live_subscription_process_state E T cfg d) (\<lambda>d.
     let d = check_public_hostname_and_ipv6_policy T cfg d in
     bind_io (check_singbox_binary_version_consistency T cfg d) (\<lambda>d.
     return_io (report_check CheckInfo ''L4'' d))))))))))))"

definition doctor_protocol ::
    "'s admin_env \<Rightarrow> 's tools \<Rightarrow> DeploymentConfig \<Rightarrow> bool \<Rightarrow> bool \<Rightarrow> diagnosis \<Rightarrow> 's host \<Rightarrow> ('e + diagnosis \<times> ProtocolCheckResult) \<times> 's host" where
  "doctor_protocol E T cfg protocol require_protocol d =
     bind_io (if protocol then check_l5_l6_protocol_selftest E cfg require_protocol d
              else return_io (report_check CheckWarn ''L5-6'' d, ProtocolNotRun)) (\<lambda>(d, protocol_result).
     bind_io (if protocol then check_l5_l6_hysteria2_protocol_selftest E T cfg require_protocol d
              else return_io (report_check CheckWarn ''L5-6-H2'' d)) (\<lambda>d.
     return_io (d, protocol_result)))"

text \<open>The lines of the report, the failures among the first four layers, the result of the handshake, and the result of the command: the number of failed
  checks, or none.\<close>

definition cmd_doctor ::
    "'s admin_env \<Rightarrow> 's tools \<Rightarrow> DeploymentConfig \<Rightarrow> bool \<Rightarrow> bool \<Rightarrow> 's host \<Rightarrow>
     ('e + (CheckStatus \<times> string) list \<times> u32 \<times> ProtocolCheckResult \<times> (u32 + unit)) \<times> 's host" where
  "cmd_doctor E T cfg protocol require_protocol =
     bind_io (doctor_checks E T cfg) (\<lambda>d.
     let l1_l4_failures = dg_failures d in
     bind_io (doctor_protocol E T cfg protocol require_protocol d) (\<lambda>(d, protocol_result). return_io
       (dg_lines d, l1_l4_failures, protocol_result, if dg_failures d > 0 then Inl (dg_failures d) else Inr ())))"

subsection \<open>Redaction\<close>

definition is_alphabetic :: "char \<Rightarrow> bool" where
  "is_alphabetic c \<longleftrightarrow> (let n = (of_char c :: nat) in 65 \<le> n \<and> n \<le> 90 \<or> 97 \<le> n \<and> n \<le> 122)"

definition is_token_byte :: "char \<Rightarrow> bool" where
  "is_token_byte c \<longleftrightarrow> is_alphabetic c \<or> is_digit c \<or> c = CHR ''-'' \<or> c = CHR ''_''"

definition looks_like_uuid :: "string \<Rightarrow> bool" where
  "looks_like_uuid tok \<longleftrightarrow>
     (let parts = split_char (CHR ''-'') tok in
      length parts = 5 \<and> list_all (\<lambda>(len, p). length p = len \<and> list_all is_ascii_hexdigit p) (zip [8, 4, 4, 4, 12] parts))"

definition looks_like_secret_token :: "string \<Rightarrow> bool" where
  "looks_like_secret_token tok \<longleftrightarrow>
     (if length tok < 24 then False
      else if list_all is_ascii_hexdigit tok then True
      else list_all is_token_byte tok \<and> list_ex is_alphabetic tok \<and> list_ex (\<lambda>c. is_digit c \<or> c = CHR ''-'' \<or> c = CHR ''_'') tok)"

text \<open>The scan: a run of token bytes is replaced or kept as a whole, everything else is kept.\<close>

function redact_secrets :: "string \<Rightarrow> string" where
  "redact_secrets [] = []"
| "redact_secrets (c # s) =
     (if is_token_byte c
      then let tok = c # takeWhile is_token_byte s in
           (if looks_like_uuid tok \<or> looks_like_secret_token tok then ''<redacted>'' else tok) @ redact_secrets (dropWhile is_token_byte s)
      else c # redact_secrets s)"
  by pat_completeness auto
termination
  by (relation "measure length") (auto simp: le_imp_less_Suc length_dropWhile_le)

subsection \<open>Certificates and counts\<close>

text \<open>The truncation: on the day after its expiry a certificate is still shown as valid, with no day left.\<close>

lemma just_expired_shown_valid:
  assumes "- 86400 < d" "d \<le> 0"
  shows "cert_shown (Inr (d sdiv 86400)) = CertValid 0"
proof -
  have "\<bar>d\<bar> div 86400 = 0"
    using assms by simp
  then show ?thesis
    by (simp add: cert_shown_def signed_divide_int_def)
qed

lemma status_counts:
  assumes "cmd_status E T cfg h = (Inr r, h')"
  shows "sr_active r + sr_disabled r \<le> sr_total r"
proof -
  from assms obtain users now where r: "sr_total r = length users" "sr_active r = length (filter (\<lambda>u. is_active u (sint (now :: u64))) users)"
    "sr_disabled r = length (filter (\<lambda>u. \<not> cu_enabled u) users)"
    by (auto simp: cmd_status_def bind_io_eq_Inr return_io_eq_Inr)
  have "length (filter (\<lambda>u. is_active u (sint now)) users) \<le> length (filter cu_enabled users)"
    by (induction users) (auto simp: is_active_def)
  then show ?thesis
    using r sum_length_filter_compl [of cu_enabled users] by simp
qed

subsection \<open>Counting\<close>

definition failed_lines :: "(CheckStatus \<times> string) list \<Rightarrow> nat" where
  "failed_lines ls = length (filter (\<lambda>l. fst l = CheckFail) ls)"

text \<open>A check appends at most \<open>n\<close> lines and counts one failure for each line that reports one; it ends with a diagnosis, whatever it finds.\<close>

definition adds :: "nat \<Rightarrow> diagnosis \<Rightarrow> diagnosis \<Rightarrow> bool" where
  "adds n d d' \<longleftrightarrow>
     (\<exists>ls. dg_lines d' = dg_lines d @ ls \<and> length ls \<le> n \<and> dg_failures d' = dg_failures d + of_nat (failed_lines ls))"

definition ends :: "('h \<Rightarrow> ('e + 'a) \<times> 'h) \<Rightarrow> ('a \<Rightarrow> bool) \<Rightarrow> bool" where
  "ends m P \<longleftrightarrow> (\<forall>h. \<exists>x h'. m h = (Inr x, h') \<and> P x)"

abbreviation reports :: "nat \<Rightarrow> diagnosis \<Rightarrow> ('h \<Rightarrow> ('e + diagnosis) \<times> 'h) \<Rightarrow> bool" where
  "reports n d m \<equiv> ends m (adds n d)"

abbreviation observes :: "('h \<Rightarrow> ('e + 'a) \<times> 'h) \<Rightarrow> bool" where
  "observes m \<equiv> ends m (\<lambda>_. True)"

named_theorems report_intros \<open>what the checks report\<close>

lemma adds_refl: "adds n d d"
  by (simp add: adds_def failed_lines_def)

lemma adds_mono: "adds n d d' \<Longrightarrow> n \<le> m \<Longrightarrow> adds m d d'"
  unfolding adds_def by (meson le_trans)

lemma adds_trans: "adds n d d' \<Longrightarrow> adds m d' d'' \<Longrightarrow> adds (n + m) d d''"
proof -
  assume "adds n d d'" "adds m d' d''"
  then obtain a b where "dg_lines d'' = dg_lines d @ a @ b" "length (a @ b) \<le> n + m"
    "dg_failures d'' = dg_failures d + of_nat (failed_lines (a @ b))"
    by (auto simp: adds_def failed_lines_def)
  then show ?thesis
    unfolding adds_def by blast
qed

lemma adds_line [report_intros]:
  "adds (Suc n) d (report_check CheckOk l d)" "adds (Suc n) d (report_check CheckInfo l d)" "adds (Suc n) d (report_check CheckWarn l d)"
  "adds (Suc n) d (count_failure (report_check CheckFail l d))" "adds (Suc n) d (report_protocol_unavailable b d)"
  by (simp_all add: adds_def report_check_def count_failure_def report_protocol_unavailable_def failed_lines_def)

lemma ends_return [report_intros]: "P x \<Longrightarrow> ends (return_io x) P"
  by (simp add: ends_def return_io_def)

lemma ends_try [report_intros]: "(\<And>r. ends (f r) P) \<Longrightarrow> ends (try_io m f) P"
  by (simp add: ends_def try_io_def split_beta)

lemma ends_bind: "ends m Q \<Longrightarrow> (\<And>x. Q x \<Longrightarrow> ends (f x) P) \<Longrightarrow> ends (bind_io m f) P"
  unfolding ends_def by (metis bind_io_eq_Inr)

lemma ends_mono: "ends m Q \<Longrightarrow> (\<And>x. Q x \<Longrightarrow> P x) \<Longrightarrow> ends m P"
  unfolding ends_def by metis

lemmas ends_look = ends_bind [where Q = "\<lambda>_. True"]

lemma reports_if: "(b \<Longrightarrow> ends x P) \<Longrightarrow> (\<not> b \<Longrightarrow> ends y P) \<Longrightarrow> ends (if b then x else y) P"
  by simp

lemma reports_after: "adds a d d' \<Longrightarrow> reports b d' m \<Longrightarrow> reports (a + b) d m"
  by (metis adds_trans ends_mono)

lemma reports_bind: "reports a d m \<Longrightarrow> (\<And>d'. reports b d' (f d')) \<Longrightarrow> reports (a + b) d (bind_io m f)"
  by (metis ends_bind reports_after)

lemma observes_disk: "observes m \<Longrightarrow> observes (disk m)"
  by (simp add: ends_def disk_def split_beta) (metis fst_conv)

lemma observes_path_exists: "observes (path_exists p)"
  unfolding path_exists_def by (intro report_intros) simp

lemma observes_world: "observes (get_world g)"
  by (simp add: ends_def get_world_def)

lemma observes_ask: "observes (ask S args f)"
  unfolding ask_def by (intro report_intros) simp

lemma observes_versions: "observes (probe_versions T ps)"
  by (induction ps) (auto intro!: report_intros ends_look [OF observes_path_exists] ends_look)

lemma looks_total:
  "observes (disk (path_exists p))" "observes (disk (get_world g))" "observes (disk (load_hysteria_params E cfg))"
  "observes (is_available S)" "observes (is_unit_installed S m)" "observes (mgr_is_active S m)" "observes (service_available S m)"
  "observes (is_failed S m)" "observes (disk (installed_file_policy E p grp))" "observes (disk (cert_expiry_days T p))"
  "observes (http_get_local_json E T port url)" "observes (disk (probe_singbox_binary_versions T ps))"
  unfolding is_available_def is_unit_installed_def mgr_is_active_def service_available_def is_failed_def installed_file_policy_def
    cert_expiry_days_def load_hysteria_params_def probe_singbox_binary_versions_def Let_def
  by (auto simp: ends_def [of "http_get_local_json E T port url"] http_get_local_json_def Let_def
    intro!: report_intros observes_disk observes_world observes_ask observes_versions observes_path_exists
      ends_look [OF observes_path_exists] ends_look [OF observes_world] ends_look [OF observes_ask] split: option.split sum.split)

lemmas reports_look [report_intros] = looks_total [THEN ends_look]

lemma reports_policy: "reports (Suc n) d (report_installed_file_policy E p g d)" "reports (Suc n) d (policy_if_present E p g d)"
  unfolding report_installed_file_policy_def policy_if_present_def
  by (auto intro!: report_intros adds_refl split: sum.split)

lemma reports_policy_bind [report_intros]:
  "(\<And>d. reports n d (f d)) \<Longrightarrow> reports (Suc n) d (bind_io (report_installed_file_policy E p g d) f)"
  "(\<And>d. reports n d (f d)) \<Longrightarrow> reports (Suc n) d (bind_io (policy_if_present E p g d) f)"
  using reports_bind [OF reports_policy(1) [where n = 0]] reports_bind [OF reports_policy(2) [where n = 0]] by (metis add_Suc add_0)+

lemma reports_line:
  "reports n (report_check CheckOk l d) m \<Longrightarrow> reports (Suc n) d m"
  "reports n (count_failure (report_check CheckFail l d)) m \<Longrightarrow> reports (Suc n) d m"
  using reports_after [OF adds_line(1) [of 0]] reports_after [OF adds_line(4) [of 0]] by (metis add_Suc add_0)+

lemma reports_file_checks:
  "reports (Suc (Suc (Suc 0))) d (check_binary E cfg d)" "reports (Suc (Suc (Suc (Suc 0)))) d (check_keys E cfg d)"
  "reports (Suc (Suc 0)) d (check_users E cfg d)" "reports (Suc (Suc (Suc 0))) d (check_certificate E T cfg d)"
  "reports (Suc (Suc 0)) d (check_obfuscation E cfg d)"
proof -
  have "reports (Suc (Suc 0)) d (bind_io (disk (path_exists p)) (\<lambda>rendered. if \<not> rendered then return_io (report_check CheckWarn l d)
      else bind_io (report_installed_file_policy E p g d) (\<lambda>d. try_io m (\<lambda>valid. return_io
        (case valid of Inr _ \<Rightarrow> report_check CheckOk l d | Inl _ \<Rightarrow> count_failure (report_check CheckFail l d))))))" for p l g d and m :: "_ \<Rightarrow> (_ + _) \<times> _"
    by (auto intro!: report_intros split: sum.split)
  note rendered = this
  show "reports (Suc (Suc (Suc 0))) d (check_binary E cfg d)"
    unfolding check_binary_def Let_def
    by (rule reports_look(1), rule reports_if, rule ends_return, rule adds_line(4), rule reports_line(1), rule rendered)
  have first: "reports (Suc 0) d (if \<not> b then return_io (count_failure (report_check CheckFail l d)) else report_installed_file_policy E p g d)"
    for b l p g by (auto intro!: report_intros reports_policy)
  show "reports (Suc (Suc (Suc (Suc 0)))) d (check_keys E cfg d)"
    unfolding check_keys_def
    by (intro report_intros, rule reports_bind [OF first, where b = "Suc (Suc (Suc 0))", simplified]) (auto intro!: report_intros split: sum.split)
qed (auto simp: check_users_def check_certificate_def check_obfuscation_def intro!: report_intros split: sum.split option.split)

lemma reports_service_checks:
  "reports (Suc 0) d (check_service S name d)" "reports (Suc 0) d (check_reconciler S d)"
  unfolding check_service_def check_reconciler_def Let_def by (auto intro!: report_intros)

lemma adds_network_checks:
  "adds (Suc 0) d (check_firewall T d)" "adds (Suc 0) d (check_listener T call port udp d)" "adds (Suc 0) d (check_udp_egress T cfg d)"
  by (auto simp: check_firewall_def check_listener_def check_udp_egress_def Let_def intro!: report_intros adds_refl
    split: sum.split option.split bool.split)

lemma adds_posture: "adds (Suc 0) d (report_posture posture d)"
  by (cases posture) (auto simp: report_posture_def intro!: report_intros)

lemma adds_hostname: "adds (Suc (Suc (Suc 0))) d (check_public_hostname_and_ipv6_policy T cfg d)"
proof -
  have "adds (Suc (Suc 0)) d (let d = report_check CheckOk l d in if b then report_check CheckWarn l d else d)" for l b
    using adds_trans [OF adds_line(1) [of 0] adds_line(3) [of 0]] by (auto simp: Let_def intro: report_intros)
  then have "adds (Suc (Suc (Suc 0))) d (report_posture p (let d = report_check CheckOk l d in if b then report_check CheckWarn l d else d))" for p l b
    using adds_trans [OF _ adds_posture, of "Suc (Suc 0)"] by simp
  then show ?thesis
    unfolding check_public_hostname_and_ipv6_policy_def Let_def by (auto intro: report_intros split: sum.split)
qed

lemma reports_versions: "reports (Suc 0) d (check_singbox_binary_version_consistency T cfg d)"
  unfolding check_singbox_binary_version_consistency_def singbox_version_consistency_report_def
  by (auto intro!: report_intros adds_refl)

lemma reports_coherence:
  "reports (Suc (Suc 0)) d (check_l4_subscription_coherence E cfg d)" "reports (Suc 0) d (check_l4_live_subscription_process_state E T cfg d)"
proof -
  have drift: "reports (Suc 0) d (check_drift E cfg doc d)" for doc d
    unfolding check_drift_def by (auto intro!: report_intros split: sum.split)
  show "reports (Suc (Suc 0)) d (check_l4_subscription_coherence E cfg d)"
    unfolding check_l4_subscription_coherence_def Let_def
    by (auto simp: reports_line(1) [OF drift] reports_line(2) [OF drift] intro!: report_intros split: sum.split)
  show "reports (Suc 0) d (check_l4_live_subscription_process_state E T cfg d)"
    unfolding check_l4_live_subscription_process_state_def Let_def by (auto intro!: report_intros split: sum.split option.split)
qed

text \<open>The self-test of the handshake passes exactly when it says so in its line; every other result is a failure that is counted or a warning.\<close>

definition handshake_line :: "bool \<Rightarrow> ProtocolCheckResult \<Rightarrow> CheckStatus" where
  "handshake_line require_protocol p =
     (case p of ProtocolPassed \<Rightarrow> CheckOk | ProtocolFailed \<Rightarrow> CheckFail | _ \<Rightarrow> if require_protocol then CheckFail else CheckWarn)"

definition handshake_reported :: "bool \<Rightarrow> diagnosis \<Rightarrow> diagnosis \<times> ProtocolCheckResult \<Rightarrow> bool" where
  "handshake_reported require_protocol d r \<longleftrightarrow>
     (let status = handshake_line require_protocol (snd r); d' = report_check status ''L5-6'' d
      in fst r = (if status = CheckFail then count_failure d' else d'))"

lemma handshake_selftest: "ends (check_l5_l6_protocol_selftest E cfg require_protocol d) (handshake_reported require_protocol d)"
  unfolding check_l5_l6_protocol_selftest_def
  by (auto simp: handshake_reported_def handshake_line_def report_protocol_unavailable_def Let_def intro!: report_intros
    split: sum.split option.split RealitySelfTestOutcome.split)

text \<open>One line more, counted if it is a failure.\<close>

definition adds_one :: "diagnosis \<Rightarrow> diagnosis \<Rightarrow> bool" where
  "adds_one d d' \<longleftrightarrow> (\<exists>l. dg_lines d' = dg_lines d @ [l] \<and> dg_failures d' = dg_failures d + of_nat (failed_lines [l]))"

lemma adds_one_line [report_intros]:
  "adds_one d (report_check CheckOk l d)" "adds_one d (report_check CheckWarn l d)" "adds_one d (report_protocol_unavailable b d)"
  by (simp_all add: adds_one_def report_check_def count_failure_def report_protocol_unavailable_def failed_lines_def)

lemma hysteria_selftest: "ends (check_l5_l6_hysteria2_protocol_selftest E T cfg require_protocol d) (adds_one d)"
  unfolding check_l5_l6_hysteria2_protocol_selftest_def by (auto intro!: report_intros split: sum.split option.split bool.split)

lemma doctor_checks_report: "reports 29 \<lparr>dg_lines = [], dg_failures = 0\<rparr> (doctor_checks E T cfg)"
proof -
  note net = adds_network_checks
  have coherence: "reports (1 + 1 + 1 + 1 + 2) d (check_l4_subscription_coherence E cfg
      (check_udp_egress T cfg (check_listener T 1 p True (check_listener T 0 q False (check_firewall T d)))))" for d p q
    using reports_after [OF adds_trans [OF adds_trans [OF adds_trans [OF net(1) net(2)] net(2)] net(3)] reports_coherence(1)]
    by (simp add: eval_nat_numeral)
  have versions: "reports (3 + 1) d (check_singbox_binary_version_consistency T cfg (check_public_hostname_and_ipv6_policy T cfg d))" for d
    using reports_after [OF adds_hostname reports_versions] by (simp add: eval_nat_numeral)
  have info: "reports 1 d (return_io (report_check CheckInfo l d))" for d l
    by (auto intro!: report_intros)
  note files = reports_file_checks and services = reports_service_checks
  show ?thesis
    unfolding doctor_checks_def Let_def
    by (rule ends_mono, (rule reports_bind, rule files services coherence reports_coherence(2) versions)+, rule info)
      (erule adds_mono, simp)
qed

definition protocol_reported :: "bool \<Rightarrow> bool \<Rightarrow> diagnosis \<Rightarrow> diagnosis \<times> ProtocolCheckResult \<Rightarrow> bool" where
  "protocol_reported protocol require_protocol d r \<longleftrightarrow>
     (\<exists>l. let ls = [(handshake_line (protocol \<and> require_protocol) (snd r), ''L5-6''), l]
          in dg_lines (fst r) = dg_lines d @ ls \<and> dg_failures (fst r) = dg_failures d + of_nat (failed_lines ls)) \<and>
     (protocol \<or> snd r = ProtocolNotRun)"

lemma doctor_protocol_report:
  "ends (doctor_protocol E T cfg protocol require_protocol d) (protocol_reported protocol require_protocol d)"
proof -
  have first: "ends (if protocol then check_l5_l6_protocol_selftest E cfg require_protocol d
      else return_io (report_check CheckWarn ''L5-6'' d, ProtocolNotRun))
    (\<lambda>r. handshake_reported (protocol \<and> require_protocol) d r \<and> (protocol \<or> snd r = ProtocolNotRun))"
    by (auto simp: handshake_reported_def [of False] handshake_line_def intro!: report_intros ends_mono [OF handshake_selftest])
  have second: "ends (if protocol then check_l5_l6_hysteria2_protocol_selftest E T cfg require_protocol d
      else return_io (report_check CheckWarn ''L5-6-H2'' d)) (adds_one d)" for d
    by (auto intro!: report_intros hysteria_selftest)
  have both: "protocol_reported protocol require_protocol d (d2, p)"
    if "handshake_reported (protocol \<and> require_protocol) d (d1, p)" "protocol \<or> p = ProtocolNotRun" "adds_one d1 d2" for d1 d2 p
    using that by (auto simp: handshake_reported_def protocol_reported_def adds_one_def report_check_def count_failure_def failed_lines_def Let_def
      split: if_splits)
  show ?thesis
    unfolding doctor_protocol_def
  proof (rule ends_bind [OF first], elim conjE)
    fix r
    assume "handshake_reported (protocol \<and> require_protocol) d r" "protocol \<or> snd r = ProtocolNotRun"
    then show "ends (case r of (d, protocol_result) \<Rightarrow>
        bind_io (if protocol then check_l5_l6_hysteria2_protocol_selftest E T cfg require_protocol d
                 else return_io (report_check CheckWarn ''L5-6-H2'' d)) (\<lambda>d. return_io (d, protocol_result)))
      (protocol_reported protocol require_protocol d)"
      unfolding case_prod_beta by (intro ends_bind [OF second] ends_return both) simp_all
  qed
qed

text \<open>C13. The verdict of the diagnosis is the one its lines show. Whatever the host answers, the command ends; it prints at most thirty-one lines, the last but
  one being the handshake with the status of the result it returns; it succeeds if no line reports a failure, and otherwise fails with exactly the
  number of lines that do. The failures it attributes to the first four layers are those of the lines before the two self-tests, and a handshake
  that was not asked for is never said to have run.\<close>

theorem doctor_verdict_is_report:
  "\<exists>checks last_line p h'. length checks \<le> 29 \<and> (protocol \<or> p = ProtocolNotRun) \<and>
     (let lines = checks @ [(handshake_line (protocol \<and> require_protocol) p, ''L5-6''), last_line] in
      cmd_doctor E T cfg protocol require_protocol h =
        (Inr (lines, of_nat (failed_lines checks), p, if failed_lines lines = 0 then Inr () else Inl (of_nat (failed_lines lines))) :: 'e + _, h'))"
proof -
  obtain d h1 where d: "doctor_checks E T cfg h = (Inr d :: 'e + _, h1)" "adds 29 \<lparr>dg_lines = [], dg_failures = 0\<rparr> d"
    using doctor_checks_report [unfolded ends_def] by metis
  obtain d' p h2 where d': "doctor_protocol E T cfg protocol require_protocol d h1 = (Inr (d', p) :: 'e + _, h2)"
    "protocol_reported protocol require_protocol d (d', p)"
    using doctor_protocol_report [unfolded ends_def] by (metis surj_pair)
  have lines: "length (dg_lines d) \<le> 29" "dg_failures d = of_nat (failed_lines (dg_lines d))"
    using d(2) by (auto simp: adds_def)
  obtain l where l: "dg_lines d' = dg_lines d @ [(handshake_line (protocol \<and> require_protocol) p, ''L5-6''), l]"
    "dg_failures d' = of_nat (failed_lines (dg_lines d'))" "protocol \<or> p = ProtocolNotRun"
    using d'(2) lines(2) by (auto simp: protocol_reported_def Let_def failed_lines_def)
  have "failed_lines (dg_lines d') < 2 ^ 32"
    using lines(1) length_filter_le [of "\<lambda>l. fst l = CheckFail" "dg_lines d'"] by (simp add: l(1) failed_lines_def)
  then have "dg_failures d' > 0 \<longleftrightarrow> failed_lines (dg_lines d') \<noteq> 0"
    by (simp add: l(2) word_gt_0 flip: unat_eq_0) (simp add: unsigned_of_nat take_bit_nat_eq_self)
  with d(1) d'(1) l lines show ?thesis
    by (intro exI [of _ "dg_lines d"] exI [of _ l] exI [of _ p] exI [of _ h2]) (simp add: cmd_doctor_def bind_io_def return_io_def Let_def)
qed

subsection \<open>What redaction keeps and removes\<close>

definition looks_secret :: "string \<Rightarrow> bool" where
  "looks_secret tok \<longleftrightarrow> looks_like_uuid tok \<or> looks_like_secret_token tok"

text \<open>A run of token bytes that does not go on at either side.\<close>

definition maximal_token :: "string \<Rightarrow> string \<Rightarrow> bool" where
  "maximal_token tok s \<longleftrightarrow> tok \<noteq> [] \<and> list_all is_token_byte tok \<and>
     (\<exists>a b. s = a @ tok @ b \<and> (a = [] \<or> \<not> is_token_byte (last a)) \<and> (b = [] \<or> \<not> is_token_byte (hd b)))"

function tokens :: "string \<Rightarrow> string list" where
  "tokens [] = []"
| "tokens (c # s) = (if is_token_byte c then (c # takeWhile is_token_byte s) # tokens (dropWhile is_token_byte s) else tokens s)"
  by pat_completeness auto
termination
  by (relation "measure length") (auto simp: le_imp_less_Suc length_dropWhile_le)

lemma tokens_append: "a = [] \<or> \<not> is_token_byte (last a) \<Longrightarrow> tokens (a @ s) = tokens a @ tokens s"
proof (induction a rule: tokens.induct)
  case (2 c a)
  show ?case
  proof (cases "is_token_byte c")
    case True
    with 2(3) have a: "a \<noteq> []" "\<not> is_token_byte (last a)"
      by (auto split: if_splits)
    then have x: "last a \<in> set a" "\<not> is_token_byte (last a)"
      by simp_all
    have "dropWhile is_token_byte a = [] \<or> \<not> is_token_byte (last (dropWhile is_token_byte a))"
      using a by (metis append_Nil2 last_append takeWhile_dropWhile_id)
    with 2(1) [OF True] show ?thesis
      using True takeWhile_append1 [of _ a is_token_byte, OF x] dropWhile_append1 [of _ a is_token_byte, OF x] by simp
  next
    case False
    have "a = [] \<or> \<not> is_token_byte (last a)"
      using 2(3) by (auto split: if_splits)
    with 2(2) [OF False] False show ?thesis
      by simp
  qed
qed simp

lemma tokens_run:
  assumes "tok \<noteq> []" "list_all is_token_byte tok" "b = [] \<or> \<not> is_token_byte (hd b)"
  shows "tokens (tok @ b) = tok # tokens b"
proof -
  obtain c t where tok: "tok = c # t"
    using assms(1) by (cases tok) auto
  have "takeWhile is_token_byte b = []" "dropWhile is_token_byte b = b"
    using assms(3) by (cases b; simp)+
  with assms(2) tok show ?thesis
    by (simp add: list_all_iff takeWhile_append2 dropWhile_append2)
qed

lemma maximal_in_tokens: "maximal_token tok s \<Longrightarrow> tok \<in> set (tokens s)"
  using tokens_run [of tok "[]"] by (auto simp: maximal_token_def tokens_append tokens_run)

lemma tokens_in_maximal: "tok \<in> set (tokens s) \<Longrightarrow> maximal_token tok s"
proof (induction s rule: tokens.induct)
  case (2 c s)
  show ?case
  proof (cases "is_token_byte c")
    case True
    consider "tok = c # takeWhile is_token_byte s" | "tok \<in> set (tokens (dropWhile is_token_byte s))"
      using 2(3) True by auto
    then show ?thesis
    proof cases
      case 1
      have "list_all is_token_byte tok"
        using 1 True by (auto simp: list_all_iff dest: set_takeWhileD)
      moreover have "dropWhile is_token_byte s = [] \<or> \<not> is_token_byte (hd (dropWhile is_token_byte s))"
        using hd_dropWhile by blast
      ultimately show ?thesis
        unfolding maximal_token_def by (intro conjI exI [of _ "[]"] exI [of _ "dropWhile is_token_byte s"]) (simp_all add: 1)
    next
      case rest: 2
      then obtain a b where ab: "tok \<noteq> []" "list_all is_token_byte tok" "dropWhile is_token_byte s = a @ tok @ b"
        "a = [] \<or> \<not> is_token_byte (last a)" "b = [] \<or> \<not> is_token_byte (hd b)"
        using 2(1) [OF True] by (auto simp: maximal_token_def)
      have "a \<noteq> []"
      proof
        assume "a = []"
        with ab have "dropWhile is_token_byte s \<noteq> []" "is_token_byte (hd (dropWhile is_token_byte s))"
          by (cases tok; simp)+
        then show False
          using hd_dropWhile by blast
      qed
      with ab show ?thesis
        unfolding maximal_token_def
        by (intro conjI exI [of _ "c # takeWhile is_token_byte s @ a"] exI [of _ b]) (simp_all add: ab(3) [symmetric])
    qed
  next
    case False
    with 2 obtain a b where "tok \<noteq> []" "list_all is_token_byte tok" "s = a @ tok @ b" "a = [] \<or> \<not> is_token_byte (last a)"
      "b = [] \<or> \<not> is_token_byte (hd b)"
      by (auto simp: maximal_token_def)
    with False show ?thesis
      unfolding maximal_token_def by (intro conjI exI [of _ "c # a"] exI [of _ b]) auto
  qed
qed simp

text \<open>The marker of a redaction is itself a token between two other bytes.\<close>

lemma marker_tokens: "tokens (''<redacted>'' @ s) = ''redacted'' # tokens s" "\<not> looks_secret ''redacted''"
proof -
  have "tokens ''<redacted>'' = [''redacted'']" "\<not> is_token_byte (last ''<redacted>'')"
    by code_simp+
  then show "tokens (''<redacted>'' @ s) = ''redacted'' # tokens s"
    by (subst tokens_append) auto
  show "\<not> looks_secret ''redacted''"
    by code_simp
qed

lemma redacted_boundary:
  "redact_secrets (dropWhile is_token_byte s) = [] \<or> \<not> is_token_byte (hd (redact_secrets (dropWhile is_token_byte s)))"
proof (cases "dropWhile is_token_byte s")
  case Nil
  then show ?thesis
    by (simp only: redact_secrets.simps simp_thms)
next
  case (Cons c t)
  then have "\<not> is_token_byte c"
    using hd_dropWhile [of is_token_byte s] by (metis list.distinct(1) list.sel(1))
  with Cons show ?thesis
    by simp
qed

lemma tokens_redact: "tokens (redact_secrets s) = map (\<lambda>t. if looks_secret t then ''redacted'' else t) (tokens s)"
proof (induction s rule: redact_secrets.induct)
  case (2 c s)
  show ?case
  proof (cases "is_token_byte c")
    case True
    have "list_all is_token_byte (c # takeWhile is_token_byte s)"
      using True by (auto simp: list_all_iff dest: set_takeWhileD)
    from tokens_run [OF _ this redacted_boundary] marker_tokens(1) show ?thesis
      using True 2(1) [OF True refl] by (simp add: Let_def looks_secret_def)
  qed (use 2 in simp)
qed simp

lemma redact_nothing: "\<forall>t \<in> set (tokens s). \<not> looks_secret t \<Longrightarrow> redact_secrets s = s"
  by (induction s rule: redact_secrets.induct) (auto simp: Let_def looks_secret_def)

lemma redacted_safe: "t \<in> set (tokens (redact_secrets s)) \<Longrightarrow> \<not> looks_secret t"
  using marker_tokens(2) by (auto simp: tokens_redact split: if_splits)



text \<open>A short token behind \<^verbatim>\<open>Bearer\<close> is kept, and so is a long one of letters only.\<close>

lemma bearer_kept:
  "redact_secrets ''Authorization: Bearer a1b2c3d4'' = ''Authorization: Bearer a1b2c3d4''"
  "redact_secrets ''abcdefghijklmnopqrstuvwxyzABCDEF'' = ''abcdefghijklmnopqrstuvwxyzABCDEF''"
  by code_simp+

end
