(* ===== verification/Admin_Main.thy ===== *)
theory Admin_Main
  imports Admin_Doctor
begin

text \<open>
  The command line of the admin tool and its state lock, \<^verbatim>\<open>apps/admin/src/main.rs\<close> and \<^verbatim>\<open>apps/admin/src/lock.rs\<close>: which command needs the
  lock, how it is taken, and what each command runs. Parsing the arguments is a library. Of the diagnostic command the options for the protocol self-tests
  are kept; the two that replace the diagnosis by a report and the two that print more text behind it are left out.
\<close>

subsection \<open>Commands\<close>

datatype ConfigCommands = Validate | Migrate

datatype UserCommands =
    Create string "i64 option" bool bool
  | ListUsers
  | Qr string
  | Links string bool
  | Enable string
  | Disable string
  | RotateToken string bool
  | RotateVless string
  | RotateHysteria string
  | RotateCredentials string
  | RemoveUser string
  | Subscription string

datatype AdminCommands =
    Init bool
  | RenderConfig bool
  | Version
  | Status
  | Doctor bool bool
  | Backup "path option"
  | Restore path
  | HysteriaObfsRotate
  | User UserCommands
  | Config ConfigCommands

definition command_mutates_state :: "AdminCommands \<Rightarrow> bool" where
  "command_mutates_state cmd \<longleftrightarrow>
     (case cmd of Version \<Rightarrow> False | Status \<Rightarrow> False | Doctor _ _ \<Rightarrow> False | User ListUsers \<Rightarrow> False | User (Subscription _) \<Rightarrow> False | Config Validate \<Rightarrow> False
      | _ \<Rightarrow> True)"

subsection \<open>The state lock\<close>

definition lock_path :: "'s admin_env \<Rightarrow> path" where
  "lock_path E = (case ae_lock_path E of Some p \<Rightarrow> p | None \<Rightarrow> [''run'', ''lock'', ''vpn1.lock''])"

text \<open>\<^verbatim>\<open>open\<close> with \<^verbatim>\<open>create\<close> and \<^verbatim>\<open>write\<close>, without truncation.\<close>

definition open_create :: "path \<Rightarrow> unit io" where
  "open_create p = prim (\<lambda>_ w. w)
     (\<lambda>w. case w_fs w p of
            Some n \<Rightarrow> (if i_dir n then Inl eisdir else Inr (), w)
          | None \<Rightarrow> if is_dir_at (butlast p) w then (Inr (), put_node p (Some (new_node p False mode_0666 w)) w) else (Inl enoent, w))"

definition acquire_state_lock :: "'s admin_env \<Rightarrow> world \<Rightarrow> (admin_error + unit) \<times> world" where
  "acquire_state_lock E =
     (let p = lock_path E in
      bind_io (case path_parent p of Some parent \<Rightarrow> map_err_io LockFailed (create_dir_all parent) | None \<Rightarrow> return_io ()) (\<lambda>_.
      bind_io (map_err_io LockFailed (open_create p)) (\<lambda>_.
      lift_r (map_err LockFailed (ae_flock E)))))"

subsection \<open>The dispatch\<close>

text \<open>What a command hands back, and the random bytes it draws.\<close>

datatype admin_output =
    Finished
  | Applied bool
  | Shown "string list"
  | Minted string
  | Written path
  | Restored nat
  | ListedUsers "(string \<times> string \<times> bool) list"
  | ListedLinks "(string \<times> string) list"
  | ShownUser "string \<times> string \<times> bool \<times> i64 option \<times> string \<times> u16"
  | ShownVersion "string \<times> version_line option"
  | ShownStatus status_report
  | ShownDiagnosis "(CheckStatus \<times> string) list" ProtocolCheckResult
  | ExitStatus nat

record randomness =
  rn_4 :: "u8 list"
  rn_16 :: "u8 list"
  rn_24 :: "u8 list"
  rn_token :: "u8 list"
  rn_create :: create_randomness

definition answer :: "('a \<Rightarrow> admin_output) \<Rightarrow> ('h \<Rightarrow> (admin_error + 'a) \<times> 'h) \<Rightarrow> 'h \<Rightarrow> ((admin_error + admin_output) \<times> 'h) option" where
  "answer f m h = Some (bind_io m (\<lambda>x. return_io (f x)) h)"

text \<open>The report is printed in any case; the result of the command is its verdict.\<close>

definition doctor_result ::
    "'s admin_env \<Rightarrow> 's tools \<Rightarrow> DeploymentConfig \<Rightarrow> bool \<Rightarrow> bool \<Rightarrow> 's host \<Rightarrow>
     (admin_error + (CheckStatus \<times> string) list \<times> ProtocolCheckResult) \<times> 's host" where
  "doctor_result E T cfg protocol require_protocol =
     bind_io (cmd_doctor E T cfg protocol require_protocol) (\<lambda>(lines, _, p, verdict).
     case verdict of Inl n \<Rightarrow> fail_io (ChecksFailed n) | Inr _ \<Rightarrow> return_io (lines, p))"

fun run_user_command ::
    "'s admin_env \<Rightarrow> DeploymentConfig \<Rightarrow> randomness \<Rightarrow> UserCommands \<Rightarrow> 's host \<Rightarrow> ((admin_error + admin_output) \<times> 's host) option" where
  "run_user_command E cfg rn (Create name expires_at qr json) h =
     (case cmd_user_create E cfg (rn_create rn) name expires_at qr json h of
        None \<Rightarrow> None
      | Some (r, h') \<Rightarrow> Some (bind_r r (\<lambda>out. Inr (Shown out)), h'))"
| "run_user_command E cfg rn ListUsers h = answer ListedUsers (cmd_user_list E cfg) h"
| "run_user_command E cfg rn (Qr user_id) h = answer Minted (cmd_user_qr E cfg (rn_token rn) user_id) h"
| "run_user_command E cfg rn (Links user_id qr) h = answer ListedLinks (cmd_user_links E cfg user_id qr) h"
| "run_user_command E cfg rn (Enable user_id) h = answer Applied (cmd_user_set_enabled E cfg user_id True) h"
| "run_user_command E cfg rn (Disable user_id) h = answer Applied (cmd_user_set_enabled E cfg user_id False) h"
| "run_user_command E cfg rn (RotateToken user_id qr) h = answer Minted (cmd_user_rotate_token E cfg (rn_token rn) user_id qr) h"
| "run_user_command E cfg rn (RotateVless user_id) h = answer Applied (cmd_user_rotate_vless E cfg (rn_16 rn) user_id) h"
| "run_user_command E cfg rn (RotateHysteria user_id) h = answer Applied (cmd_user_rotate_hysteria E cfg (rn_24 rn) user_id) h"
| "run_user_command E cfg rn (RotateCredentials user_id) h = answer Applied (cmd_user_rotate_credentials E cfg (rn_16 rn) (rn_24 rn) user_id) h"
| "run_user_command E cfg rn (RemoveUser user_id) h = answer Applied (cmd_user_remove E cfg user_id) h"
| "run_user_command E cfg rn (Subscription user_id) h = answer ShownUser (cmd_user_subscription E cfg user_id) h"

fun run_command ::
    "'s admin_env \<Rightarrow> 's tools \<Rightarrow> DeploymentConfig \<Rightarrow> path \<Rightarrow> path \<Rightarrow> randomness \<Rightarrow> AdminCommands \<Rightarrow> 's host \<Rightarrow>
     ((admin_error + admin_output) \<times> 's host) option" where
  "run_command E T cfg config_path cwd rn (Init do_rotate) h = answer Applied (cmd_init E cfg (rn_4 rn) (rn_24 rn) do_rotate) h"
| "run_command E T cfg config_path cwd rn (RenderConfig require_applied) h = answer (\<lambda>_. Finished) (cmd_render_config E cfg require_applied) h"
| "run_command E T cfg config_path cwd rn Version h = Some (Inr (ShownVersion (cmd_version T cfg)), h)"
| "run_command E T cfg config_path cwd rn Status h = answer ShownStatus (cmd_status E T cfg) h"
| "run_command E T cfg config_path cwd rn (Doctor protocol require_protocol) h =
     answer (\<lambda>(lines, p). ShownDiagnosis lines p) (doctor_result E T cfg protocol require_protocol) h"
| "run_command E T cfg config_path cwd rn (Backup output) h = answer Written (disk (cmd_backup E cfg config_path cwd output)) h"
| "run_command E T cfg config_path cwd rn (Restore archive) h = answer Restored (cmd_restore E cfg archive) h"
| "run_command E T cfg config_path cwd rn HysteriaObfsRotate h = answer Applied (cmd_hysteria_obfs_rotate E cfg (rn_24 rn)) h"
| "run_command E T cfg config_path cwd rn (Config Validate) h = answer ExitStatus (cmd_config_validate E cfg) h"
| "run_command E T cfg config_path cwd rn (Config Migrate) h = answer (\<lambda>_. Finished) (cmd_config_migrate E cfg config_path) h"
| "run_command E T cfg config_path cwd rn (User cmd) h = run_user_command E cfg rn cmd h"

text \<open>The lock is held from before the first read of the state to the end of the command: the whole command runs from the state in which the lock
  was taken. Nothing releases it but the end of the process.\<close>

definition admin_main ::
    "'s admin_env \<Rightarrow> 's tools \<Rightarrow> path \<Rightarrow> path \<Rightarrow> randomness \<Rightarrow> AdminCommands \<Rightarrow> 's host \<Rightarrow> ((admin_error + admin_output) \<times> 's host) option" where
  "admin_main E T config_path cwd rn cmd h =
     (case map_err_io AdminCompat (disk (DeploymentConfig_load (ae_toml E) config_path)) h of
        (Inl e, h1) \<Rightarrow> Some (Inl e, h1)
      | (Inr cfg, h1) \<Rightarrow>
          if command_mutates_state cmd
          then case disk (acquire_state_lock E) h1 of
                 (Inl e, h2) \<Rightarrow> Some (Inl e, h2)
               | (Inr _, h2) \<Rightarrow> run_command E T cfg config_path cwd rn cmd h2
          else run_command E T cfg config_path cwd rn cmd h1)"

subsection \<open>What runs without the lock\<close>

lemma frame_reads [frame_intros]:
  "frame S (detect_users_schema J p)" "frame S (DeploymentConfig_load T p)" "frame S (cert_expiry_days L p)"
  unfolding detect_users_schema_def DeploymentConfig_load_def cert_expiry_days_def
  by (auto intro!: frame_intros split: option.split sum.split)

lemma label_steady:
  "steady same_disk (service_state_label S mgr)" "service_ok S name view loaded \<Longrightarrow> steady (same_running loaded) (service_state_label S mgr)"
  unfolding service_state_label_def by (auto intro!: steady_intros observers_same_running)

lemma readers_same_files:
  "steady (same_files {}) (cmd_status E T cfg)" "steady (same_files {}) (cmd_user_list E cfg)"
  "steady (same_files {}) (cmd_user_subscription E cfg user_id)" "steady (same_files {}) (cmd_config_validate E cfg)"
  unfolding cmd_status_def cmd_user_list_def cmd_user_subscription_def cmd_config_validate_def admin_load_users_def Let_def
  by (auto intro!: steady_intros disk_same_files frame_intros same_disk_files [OF label_steady(1)] split: option.split)

lemma readers_same_running:
  assumes "service_ok (ae_systemd E) name view loaded"
  shows "steady (same_running loaded) (cmd_status E T cfg)" "steady (same_running loaded) (cmd_user_list E cfg)"
    "steady (same_running loaded) (cmd_user_subscription E cfg user_id)" "steady (same_running loaded) (cmd_config_validate E cfg)"
  unfolding cmd_status_def cmd_user_list_def cmd_user_subscription_def cmd_config_validate_def admin_load_users_def Let_def
  by (auto intro!: steady_intros label_steady(2) [OF assms] split: option.split)

text \<open>The diagnosis reads files, asks the services and starts clients, of which the second is a parameter here; it is a client, and no service
  takes anything from it.\<close>

definition client_keeps :: "'s tools \<Rightarrow> ('s \<Rightarrow> 'v) \<Rightarrow> bool" where
  "client_keeps T loaded \<longleftrightarrow> (\<forall>c w s. loaded (snd (to_hysteria_client T c w s)) = loaded s)"

lemmas file_check_defs = check_binary_def check_keys_def check_users_def check_certificate_def check_obfuscation_def
  report_installed_file_policy_def policy_if_present_def check_l4_subscription_coherence_def check_drift_def
  check_l4_live_subscription_process_state_def check_singbox_binary_version_consistency_def

lemmas selftest_defs = check_l5_l6_protocol_selftest_def check_l5_l6_hysteria2_protocol_selftest_def

lemma frame_probes [frame_intros]:
  "frame S (installed_file_policy E p g)" "frame S (probe_singbox_binary_versions T ps)"
proof -
  show "frame S (installed_file_policy E p g)"
    unfolding installed_file_policy_def by (intro frame_intros)
  have "frame S (probe_versions T qs)" for qs
    by (induction qs) (simp_all add: frame_intros)
  then show "frame S (probe_singbox_binary_versions T ps)"
    unfolding probe_singbox_binary_versions_def .
qed

lemma http_steady: "pre_order R \<Longrightarrow> steady R (http_get_local_json E T port url)"
  by (simp add: steady_def http_get_local_json_def pre_order_def Let_def)

lemma client_same_files: "steady (same_files Q) (run_hysteria2_client_selftest T cfg hy u port)"
  by (simp add: steady_def same_files_def run_hysteria2_client_selftest_def split_beta)

lemma client_same_running:
  "client_keeps T loaded \<Longrightarrow> steady (same_running loaded) (run_hysteria2_client_selftest T cfg hy u port)"
  "(\<And>c w s. loaded (snd (ae_client E c w s)) = loaded s) \<Longrightarrow> steady (same_running loaded) (run_reality_client_selftest E re u port)"
  by (simp_all add: steady_def same_running_def run_hysteria2_client_selftest_def run_reality_client_selftest_def client_keeps_def split_beta)

lemma checks_same_files:
  "steady (same_files {}) (check_binary E cfg d)" "steady (same_files {}) (check_keys E cfg d)" "steady (same_files {}) (check_users E cfg d)"
  "steady (same_files {}) (check_certificate E T cfg d)" "steady (same_files {}) (check_obfuscation E cfg d)"
  "steady (same_files {}) (check_l4_subscription_coherence E cfg d)"
  "steady (same_files {}) (check_l4_live_subscription_process_state E T cfg d)"
  "steady (same_files {}) (check_singbox_binary_version_consistency T cfg d)"
  "steady (same_files {}) (check_l5_l6_protocol_selftest E cfg b d)"
  "steady (same_files {}) (check_l5_l6_hysteria2_protocol_selftest E T cfg b d)"
  unfolding file_check_defs selftest_defs Let_def
  by (auto intro!: steady_intros disk_same_files frame_intros http_steady client_same_files split: sum.split option.split)

lemma service_checks_same_files:
  "steady (same_files {}) (check_service S name d)" "steady (same_files {}) (check_reconciler S d)"
  unfolding check_service_def check_reconciler_def service_available_def is_failed_def Let_def
  by (auto intro!: steady_intros same_disk_files [OF ask_steady])

lemma checks_same_running:
  "steady (same_running loaded) (check_binary E cfg d)" "steady (same_running loaded) (check_keys E cfg d)"
  "steady (same_running loaded) (check_users E cfg d)" "steady (same_running loaded) (check_certificate E T cfg d)"
  "steady (same_running loaded) (check_obfuscation E cfg d)" "steady (same_running loaded) (check_l4_subscription_coherence E cfg d)"
  "steady (same_running loaded) (check_l4_live_subscription_process_state E T cfg d)"
  "steady (same_running loaded) (check_singbox_binary_version_consistency T cfg d)"
  unfolding file_check_defs Let_def
  by (auto intro!: steady_intros http_steady split: sum.split option.split)

lemma service_checks_same_running:
  assumes "service_ok S name view loaded"
  shows "steady (same_running loaded) (check_service S unit_name d)" "steady (same_running loaded) (check_reconciler S d)"
  unfolding check_service_def check_reconciler_def service_available_def is_failed_def Let_def
  by (auto intro!: steady_intros observers_same_running [OF assms] ask_steady systemctl_same_running [OF assms])

lemma selftests_same_running:
  assumes "client_keeps T loaded" "\<And>c w s. loaded (snd (ae_client E c w s)) = loaded s"
  shows "steady (same_running loaded) (check_l5_l6_protocol_selftest E cfg b d)"
    "steady (same_running loaded) (check_l5_l6_hysteria2_protocol_selftest E T cfg b d)"
  unfolding selftest_defs
  by (auto intro!: steady_intros client_same_running assms split: sum.split option.split)

lemma doctor_same_files: "steady (same_files {}) (doctor_result E T cfg protocol require_protocol)"
  unfolding doctor_result_def cmd_doctor_def doctor_checks_def doctor_protocol_def Let_def
  by (auto intro!: steady_intros checks_same_files service_checks_same_files split: sum.split)

lemma doctor_same_running:
  assumes "service_ok (ae_systemd E) name view loaded" "client_keeps T loaded" "\<And>c w s. loaded (snd (ae_client E c w s)) = loaded s"
  shows "steady (same_running loaded) (doctor_result E T cfg protocol require_protocol)"
  unfolding doctor_result_def cmd_doctor_def doctor_checks_def doctor_protocol_def Let_def
  by (auto intro!: steady_intros checks_same_running service_checks_same_running [OF assms(1)] selftests_same_running [OF assms(2,3)]
    split: sum.split)

lemma answer_steady: "steady R m \<Longrightarrow> pre_order R \<Longrightarrow> answer f m h = Some (r, h') \<Longrightarrow> R h h'"
proof -
  assume R: "steady R m" "pre_order R" and run: "answer f m h = Some (r, h')"
  have "steady R (bind_io m (\<lambda>x. return_io (f x)))"
    using R by (intro steady_intros)
  with run show "R h h'"
    by (auto simp: answer_def dest: steadyD)
qed

lemma unlocked_reads:
  assumes cmd: "\<not> command_mutates_state cmd" and run: "run_command E T cfg config_path cwd rn cmd h = Some (r, h')"
  shows "same_files {} h h'"
    "service_ok (ae_systemd E) name view loaded \<Longrightarrow> client_keeps T loaded \<Longrightarrow> (\<And>c w s. loaded (snd (ae_client E c w s)) = loaded s) \<Longrightarrow>
      same_running loaded h h'"
proof -
  consider "cmd = Version" | "cmd = Status" | a b where "cmd = Doctor a b" | "cmd = User ListUsers" | u where "cmd = User (Subscription u)"
    | "cmd = Config Validate"
    using cmd by (auto simp: command_mutates_state_def split: AdminCommands.splits UserCommands.splits ConfigCommands.splits)
  note cases = this
  note F = answer_steady [OF _ same_files_pre_order]
  show "same_files {} h h'"
    using cases run
    by cases (auto simp: same_files_def [of "{}" h' h'] dest: F [OF readers_same_files(1)] F [OF readers_same_files(2)]
      F [OF readers_same_files(3)] F [OF readers_same_files(4)] F [OF doctor_same_files])
  assume S: "service_ok (ae_systemd E) name view loaded" "client_keeps T loaded" "\<And>c w s. loaded (snd (ae_client E c w s)) = loaded s"
  note R = answer_steady [OF _ pre_orders(2)] and reads = readers_same_running [OF S(1)]
  show "same_running loaded h h'"
    using cases run
    by cases (auto simp: same_running_def [of loaded h' h'] dest: R [OF reads(1)] R [OF reads(2)] R [OF reads(3)] R [OF reads(4)]
      R [OF doctor_same_running [OF S]])
qed

lemma frame_open_create [frame_intros]: "p \<in> S \<Longrightarrow> frame S (open_create p)"
  unfolding open_create_def by (auto simp: frame_def prim_def put_node_def split: list.splits fault.splits option.splits)

lemma frame_lock: "frame (set (prefixes (lock_path E))) (acquire_state_lock E)"
  unfolding acquire_state_lock_def Let_def
  by (auto intro!: frame_intros simp: path_parent_def split: option.split) (metis append_butlast_last_id prefix_order.trans prefixI)

subsection \<open>Properties\<close>


definition demo_tools :: "rotation_state tools" where
  "demo_tools = \<lparr>to_pkg_version = ''1'', to_singbox_version = (\<lambda>_. Inl enoent), to_openssl = (\<lambda>_ _. Inl enoent), to_date = (\<lambda>_. Inl enoent),
     to_firewall = Inl enoent, to_ss = (\<lambda>_ _. Inl enoent), to_resolve = (\<lambda>_. Inr [False]), to_udp = (\<lambda>_ _ _ _ _. UdpNoSocket),
     to_loopback = (\<lambda>_ _ _. Inl ''refused''), to_hysteria_client = (\<lambda>_ _ s. (Inr True, s)), to_endpoints_string = (\<lambda>_. Inl [])\<rparr>"

definition demo_random :: randomness where
  "demo_random = \<lparr>rn_4 = [], rn_16 = [], rn_24 = [], rn_token = [], rn_create = \<lparr>cr_ids = \<lambda>_. [], cr_token = [], cr_uuid = [], cr_password = []\<rparr>\<rparr>"

definition main_host :: "rotation_state host" where
  "main_host = ((fst rotation_host)\<lparr>w_fs := (w_fs (fst rotation_host))
     ([''d.toml''] \<mapsto> demo_node False (as_bytes (''schema_version = 1'' @ CHR 0x0A # ''a'')))\<rparr>, snd rotation_host)"

definition demo_main :: "(io_error + unit) \<Rightarrow> AdminCommands \<Rightarrow> ((admin_error + admin_output) \<times> rotation_state host) option" where
  "demo_main flock cmd = admin_main ((rotation_env [])\<lparr>ae_flock := flock\<rparr>) demo_tools [''d.toml''] [] demo_random cmd main_host"


end
