(* ===== verification/Spec2Isabelle.thy ===== *)
theory Spec2Isabelle
  imports Common_Framing Failure_Classifier Policy Keytool Client_Engine Socks Relay_Agent Subscription_Service
    Client_Start Admin_Restore Admin_Main
begin

text \<open>
  A verification library for the VPN workspace under \<^verbatim>\<open>src/\<close>. The workspace holds two systems.

  \<^item> The native one: a client daemon that dials relays over pinned TLS or QUIC, relays that forward a stream to the next hop or to
    its destination, a rendezvous service that hands out signed bundles of relays, and a ceremony tool for the keys behind the signatures. A SOCKS
    request travels from the application through the client's tunnel and one or two relays to the host it names.
  \<^item> The compatibility one: an administration tool that owns the users, the keys and the configuration of a \<^verbatim>\<open>sing-box\<close> server, and
    a subscription service that serves each user a client configuration. Both read the same files; the tool changes them and reloads both services.

  \<^bold>\<open>Conventions.\<close> A struct is a record, an enum a datatype with the source's constructors, \<^verbatim>\<open>u8\<close> to \<^verbatim>\<open>u64\<close> are words
  of that width, \<^verbatim>\<open>f32\<close> is a rational rounded to the nearest representable value after every operation. \<^verbatim>\<open>Result\<close> is a sum with the error on
  the left, \<^verbatim>\<open>Option\<close> an option, and a panic the value \<^term>\<open>None\<close>. Code with effects is a function from a state to a result and a state,
  written with \<open>bind_io\<close> (the question mark), \<open>try_io\<close> (matching on the result) and \<open>map_err_io\<close>. Files, clock and process number
  are one record, \<open>world\<close>, in which any operation may be told to fail, also half way; a state of the services beside it makes a \<open>host\<close>.
  Random bytes are arguments. Code outside \<^verbatim>\<open>src/\<close> (cryptography, JSON, TOML and tar codecs, TLS and QUIC stacks, \<^verbatim>\<open>sing-box\<close>,
  \<^verbatim>\<open>systemctl\<close> and other programs) is a parameter, and what is relied on of it a named hypothesis: \<open>exact_reader\<close>, \<open>writable\<close> and
  \<open>socket_ok\<close> of streams, \<open>service_ok\<close> and \<open>clock_ok\<close> of the service manager, \<open>admin_ok\<close>, \<open>sub_ok\<close> and \<open>rotation_setting\<close>
  of a host the tool runs on, \<open>tar_ok\<close> of the archive format, \<open>client_keeps\<close> of the throwaway client. Every property that has such
  a hypothesis is applied in its witness to a concrete instance.

  \<^bold>\<open>Foundations.\<close>

  \<^item> \<open>Vpn_Prelude\<close>: integer types, slicing, saturating and checked arithmetic, the \<^verbatim>\<open>Result\<close> operations, the text functions of \<^verbatim>\<open>str\<close>
    that the sources use, and their lemmas.
  \<^item> \<open>Ieee_Float\<close>: rounding to \<^verbatim>\<open>f32\<close> and \<^verbatim>\<open>f64\<close>, monotone and exact where the sources need it.
  \<^item> \<open>File_System\<close>: \<^verbatim>\<open>std::fs\<close> over \<open>world\<close> with injected faults; \<open>frame\<close> says which paths an operation can change.
  \<^item> \<open>Network_State\<close>: identifiers, time, failure categories and telemetry (\<^verbatim>\<open>crates/common\<close>, \<^verbatim>\<open>crates/network-state\<close>,
    \<^verbatim>\<open>crates/transport-api\<close>, \<^verbatim>\<open>crates/telemetry\<close>).

  \<^bold>\<open>The native system.\<close>

  \<^item> \<open>Common_Framing\<close> (\<^verbatim>\<open>crates/common/src/framing.rs\<close>): the destination header. The decoder accepts exactly the encodings, and the
    stream reader refines the decoder.
  \<^item> \<open>Failure_Classifier\<close> (\<^verbatim>\<open>crates/failure-classifier\<close>): the state machine of a connection, justified by the history of its events, and the
    guard that stops switching while everything fails.
  \<^item> \<open>Policy\<close> (\<^verbatim>\<open>crates/policy\<close>): scores, quarantine, selection and the kill switch. The locale \<open>observation_board\<close> states what a board owes
    its observations and is interpreted on the score board; \<open>switch_backend\<close> does the same for the kill switch.
  \<^item> \<open>Crypto_Hierarchy\<close>, \<open>Config_Bundle\<close>, \<open>Keytool\<close> (\<^verbatim>\<open>crates/crypto\<close>, \<^verbatim>\<open>crates/config\<close>, \<^verbatim>\<open>apps/keytool\<close>): key files,
    certificates, bundles, revocation lists and the ceremonies. What is accepted was signed along the chain from the pinned root; what is issued
    verifies.
  \<^item> \<open>Rate_Limiter\<close>: the token buckets of both services, as one locale \<open>token_bucket\<close> with two interpretations.
  \<^item> \<open>Rendezvous\<close> (\<^verbatim>\<open>services/rendezvous\<close>, \<^verbatim>\<open>crates/rendezvous-client\<close>): the handlers, and the client that caches only what it verified.
  \<^item> \<open>Transport_Native\<close> (\<^verbatim>\<open>crates/transport-native\<close>): pinning, connecting, and the identity of a relay across restarts.
  \<^item> \<open>Client_Engine\<close>, \<open>Socks\<close>, \<open>Client_Start\<close> (\<^verbatim>\<open>apps/client-daemon\<close>, \<^verbatim>\<open>apps/cli\<close>): the attempt loop and its bounds, the local
    listener, and where the endpoints come from.
  \<^item> \<open>Relay_Agent\<close> (\<^verbatim>\<open>services/relay-agent\<close>): one forwarded stream, the idle bound, and both accept loops as step functions over events.

  \<^bold>\<open>The compatibility system.\<close>

  \<^item> \<open>Compat_Model\<close>, \<open>Compat_Render\<close>, \<open>Compat_Store\<close>, \<open>Compat_Server\<close>, \<open>Deployment\<close> (\<^verbatim>\<open>crates/compat-config\<close>): users and
    credentials, links and client documents, the user store with its migration, the server configuration and its installation, and the deployment
    file. Saving, installing and migrating are all-or-nothing under any fault, and a subscription is served exactly if the server admits its credential.
  \<^item> \<open>Subscription_Service\<close> (\<^verbatim>\<open>services/subscription\<close>): the handlers; only the holder of a token gets a document, and nobody learns which users
    exist.
  \<^item> \<open>Admin_Service\<close>, \<open>Admin_Config\<close>, \<open>Admin_Apply\<close> (\<^verbatim>\<open>apps/admin/src/service.rs\<close> and the rendering commands of \<^verbatim>\<open>main.rs\<close>): the service
    manager, and bringing a configuration to the running server with every way back.
  \<^item> \<open>Admin_Users\<close>: the user commands. \<open>Admin_Rotate\<close>: initialisation and both rotations. \<open>Admin_Backup\<close>, \<open>Admin_Archive\<close>,
    \<open>Admin_Restore\<close>: backup, archives and restore. Each change is a transaction over files and services, and the lemmas say what both are after any
    result.
  \<^item> \<open>Admin_Doctor\<close>: \<^verbatim>\<open>version\<close>, \<^verbatim>\<open>status\<close>, the checks of \<^verbatim>\<open>doctor\<close> with their count, and redaction. The predicate \<open>ends\<close> says that a check
    ends with a diagnosis whatever the host answers, and \<open>adds\<close> that its count is the number of failures it printed.
  \<^item> \<open>Admin_Main\<close> (\<^verbatim>\<open>main\<close>, \<^verbatim>\<open>apps/admin/src/lock.rs\<close>): the dispatch and the state lock; what runs without the lock only reads.

  This theory composes them: a request over SOCKS reaches the host it names across two relays.

  \<^bold>\<open>Bounds and fuel.\<close> The watch after a reload runs at most eleven rounds: it sleeps in every round and its deadline is ten of these sleeps
  away, so the deadline ends it no later than the eleventh. Drawing a fresh user identifier and the copy with an idle bound may run for ever; they are partial functions,
  and a property says when they return. The attempt loop of the engine recurses on its budget, the accept loops on the list of events, and the other loops on their
  data. A diagnosis prints at most thirty-one lines, so its 32-bit count cannot wrap.

  \<^bold>\<open>Assumed of the disk.\<close> Single files are treated under any fault. Rotation and restore are stated for a disk on which no operation fails, since a rollback
  that cannot write cannot restore; the failures they recover from are those of the services, of validation and of the self-test.

  \<^bold>\<open>Not modelled.\<close> Sockets, threads and the asynchronous runtime, beyond the step functions above: the order of events is an argument. Parsing the command line.
  Printed text, where it does not depend on the state. The report, performance and checklist modes of \<^verbatim>\<open>doctor\<close>, which gather and print host data
  (the redaction they apply is modelled); the throwaway clients behind the self-tests, of which the configuration and the verdict are modelled and the run is a
  parameter. Key files on systems other than Unix. The test service, the tests, benches and fuzz targets, and the shell scripts, which only exercise or install the
  modelled programs.
\<close>

subsection \<open>From the SOCKS client to the destination\<close>

lemma relays_reach:
  assumes host: "rust_str host" and enc: "encode_destination host port = Inr enc"
    and r1: "exact_reader (re_read ingress) content1 ended1" "content1 c = enc @ rest" "\<not> re_header_late ingress c"
    and hop: "\<not> re_hop_late ingress ep" "connect_stream (re_tcp ingress) (re_tls ingress) ep = Inr hop"
    and wr1: "\<forall>bs n n'. re_write ingress bs n = Inr n' \<longrightarrow> sent n' = sent n @ bs" "writable (re_write ingress)"
    and r2: "exact_reader (re_read egress) content2 ended2" "\<And>n. content2 (link n) = sent n" "sent hop = []"
      "\<And>n. \<not> re_header_late egress (link n)"
    and dial: "re_dial egress host port = Done (Inr u)"
  shows "\<exists>hop'. fst (handle_stream ingress c (Ingress ep)) = Hopped hop' \<and>
    fst (handle_stream egress (link hop') Egress) = Dialled host port u"
proof -
  obtain hop' where hop': "re_write ingress enc hop = Inr hop'" "sent hop' = enc"
    using wr1 r2(3) by (cases "re_write ingress enc hop") (auto simp: writable_def isl_def)
  have "fst (handle_stream ingress c (Ingress ep)) = Hopped hop'"
    using ingress_forwards [OF r1(1) host enc r1(2,3) hop hop'(1)] .
  moreover have "fst (handle_stream egress (link hop') Egress) = Dialled host port u"
    using egress_dials [OF r2(1) host enc, of "link hop'" "[]"] r2 hop'(2) dial by simp
  ultimately show ?thesis
    by blast
qed

text \<open>C16. Over two relays the destination is the one the application asked for: a SOCKS client's request
  travels as a header through the tunnel to the ingress relay, which writes it to the
  egress relay it pinned, and the egress relay dials exactly the requested host and port. The
  links deliver the bytes written to them in order.\<close>

theorem two_relays_reach_requested_host:
  assumes "socket_ok rd wr content ended out" and "writable wr"
    and "\<forall>bs t t'. twr bs t = Inr t' \<longrightarrow> tout t' = tout t @ bs" and "writable twr"
    and "length methods < 256" and "addr_ok addr" and "content s = socks_client methods rsv addr port @ rest"
    and "connect (addr_host addr) port = Inr t" and "tout t = []"
    and "exact_reader (re_read ingress) content1 ended1" and "\<forall>t. content1 (link1 t) = tout t"
    and "\<forall>t. \<not> re_header_late ingress (link1 t)"
    and "\<not> re_hop_late ingress ep" and "connect_stream (re_tcp ingress) (re_tls ingress) ep = Inr hop"
    and "\<forall>bs n n'. re_write ingress bs n = Inr n' \<longrightarrow> sent n' = sent n @ bs" and "writable (re_write ingress)"
    and "sent hop = []"
    and "exact_reader (re_read egress) content2 ended2" and "\<forall>n. content2 (link2 n) = sent n"
    and "\<forall>n. \<not> re_header_late egress (link2 n)"
    and "re_dial egress (addr_host addr) port = Done (Inr u)"
  shows "\<exists>t' s' hop'. handle_client rd wr connect twr s = (Inr (Relaying t'), s') \<and> content s' = rest \<and>
    fst (handle_stream ingress (link1 t') (Ingress ep)) = Hopped hop' \<and>
    fst (handle_stream egress (link2 hop') Egress) = Dialled (addr_host addr) port u"
proof -
  obtain s' t' enc where r: "handle_client rd wr connect twr s = (Inr (Relaying t'), s')" "content s' = rest"
    "tout t' = enc" "encode_destination (addr_host addr) port = Inr enc"
    using socks_connects [where tout = tout and content = content and connect = connect and out = out
        and twr = twr and wr = wr and s = s, OF assms(1-8)] assms(9) by (metis append_Nil)
  have "content1 (link1 t') = enc @ []"
    using assms(11) r(3) by simp
  from relays_reach [OF addr_host_fits(1) [OF assms(6)] r(4) assms(10) this assms(12) [rule_format] assms(13,14,15,16,18) assms(19) [rule_format] assms(17) assms(20) [rule_format] assms(21)]
  show ?thesis
    using r(1,2) by blast
qed

type_synonym mem_stream = "(u8 list \<times> io_error) \<times> u8 list"

definition mem_link :: "mem_stream \<Rightarrow> mem_stream" where
  "mem_link t = ((snd t, io_error_new UnexpectedEof []), [])"

definition mem_env :: "(mem_stream, unit, unit, mem_stream) relay_env" where
  "mem_env =
     \<lparr>re_read = mem_read, re_header_late = (\<lambda>_. False), re_dial = (\<lambda>_ _. Done (Inr ())), re_hop_late = (\<lambda>_. False),
      re_tcp = (\<lambda>_. Done (Inr ())), re_tls = (\<lambda>_ _. Done (Inr (([], io_error_new UnexpectedEof []), []))),
      re_write = mem_write, re_copy_out = (\<lambda>_ _ _. \<lparr>w_events = [], w_result = None\<rparr>),
      re_copy_hop = (\<lambda>_ _ _. \<lparr>w_events = [], w_result = None\<rparr>)\<rparr>"

definition mem_endpoint :: Endpoint where
  "mem_endpoint = \<lparr>ep_id = EndpointId ''e'', ep_address = \<lparr>sock_ip = V4 1, sock_port = 443\<rparr>, ep_provider_tag = ''p'',
     ep_pinned_cert_sha256 = []\<rparr>"

definition mem_client :: mem_stream where
  "mem_client = ((socks_client [0] 0 (Domain ''a'') 80 @ [7], io_error_new UnexpectedEof []), [])"

theorem two_relays_reach_requested_host_witness:
  "\<exists>t' s' hop'. handle_client mem_read mem_write (\<lambda>_ _. Inr (mem_link (([], io_error_new UnexpectedEof []), []))) mem_write mem_client =
       (Inr (Relaying t'), s') \<and>
     fst (handle_stream mem_env (mem_link t') (Ingress mem_endpoint)) = Hopped hop' \<and>
     fst (handle_stream mem_env (mem_link hop') Egress) = Dialled ''a'' 80 ()"
proof -
  have rust: "rust_str ''a''"
    by code_simp
  have rd: "exact_reader mem_read (fst \<circ> fst) (snd \<circ> fst)"
    using mem_socket_ok by (simp add: socket_ok_def)
  have out: "\<forall>bs t t'. mem_write bs t = Inr t' \<longrightarrow> snd t' = snd (t :: mem_stream) @ bs"
    by (simp add: mem_write_def)
  have "\<exists>t' s' hop'. handle_client mem_read mem_write (\<lambda>_ _. Inr (mem_link (([], io_error_new UnexpectedEof []), []))) mem_write mem_client =
       (Inr (Relaying t'), s') \<and> (fst \<circ> fst) s' = [7] \<and>
     fst (handle_stream mem_env (mem_link t') (Ingress mem_endpoint)) = Hopped hop' \<and>
     fst (handle_stream mem_env (mem_link hop') Egress) = Dialled (addr_host (Domain ''a'')) 80 ()"
    by (rule two_relays_reach_requested_host [OF mem_socket_ok mem_writable out mem_writable, of "[0]" _ _ 0 _ _ _
          "mem_link (([], io_error_new UnexpectedEof []), [])" mem_env "fst \<circ> fst" "snd \<circ> fst" mem_link mem_endpoint
          "(([], io_error_new UnexpectedEof []), [])" snd mem_env "fst \<circ> fst" "snd \<circ> fst" mem_link])
      (use rust rd out mem_writable in \<open>simp_all add: mem_env_def mem_link_def mem_client_def connect_stream_def\<close>)
  then show ?thesis
    by auto
qed
end
